(* ===== verification/Web_Prelude.thy ===== *)
theory Web_Prelude
  imports Main "HOL-Library.Multiset"
begin

text \<open>
  Shared vocabulary of the development. The application (\<open>src/app.py\<close>) handles
  Python dictionaries decoded from JSON (rows of the datastore, replies of the image
  host), raises Python exceptions, tests values for truthiness and reads optional form
  fields. This theory gives those notions one HOL meaning that every component uses:
  \<^item> \<open>json\<close>: a JSON value as Python holds it after decoding (a \<open>dict\<close> is an
    association list, so the insertion order and the first-match lookup of Python
    are kept);
  \<^item> \<open>py_exc\<close>: the exceptions the handlers can meet, with \<open>exc_str\<close> for
    Python's \<open>str(e)\<close>;
  \<^item> \<open>py_getitem\<close> (\<open>d[k]\<close>), \<open>py_truthy\<close> (\<open>bool(v)\<close>), \<open>opt_json\<close> (a value
    of \<open>request.form.get\<close> stored into a dict);
  \<^item> the collection \<open>py_simps\<close> of the equations that evaluate these on concrete
    values, and generic lemmas on association lists, sorting, and the multisets that
    count the rows of concurrent runs.
\<close>

named_theorems py_simps "evaluation equations for the Python value model"
named_theorems world_simps "frame equations of the effects on the world"

section \<open>JSON values and Python exceptions\<close>

datatype json =
    JNull
  | JBool bool
  | JInt int
  | JStr string
  | JList "json list"
  | JObj "(string \<times> json) list"

type_synonym row = "(string \<times> json) list"

datatype py_exc =
    KeyError string
  | TypeError string
  | JSONDecodeError string
  | RequestException string
  | APIError string
  | SupabaseException string

type_synonym 'a py_result = "py_exc + 'a"

text \<open>\<open>str(e)\<close>: a \<open>KeyError\<close> prints the repr of its key, quoted; the others their message.\<close>

fun exc_str :: "py_exc \<Rightarrow> string" where
  "exc_str (KeyError k) = CHR 0x27 # k @ [CHR 0x27]"
| "exc_str (TypeError m) = m"
| "exc_str (JSONDecodeError m) = m"
| "exc_str (RequestException m) = m"
| "exc_str (APIError m) = m"
| "exc_str (SupabaseException m) = m"

section \<open>Python operations on decoded values\<close>

text \<open>
  \<open>d[k]\<close> with a string key: a \<open>dict\<close> answers its first binding of \<open>k\<close> or raises
  \<open>KeyError\<close>; a list or a string raises \<open>TypeError\<close> (their indices must be
  integers); \<open>None\<close>, booleans and integers are not subscriptable.
\<close>

fun py_getitem :: "json \<Rightarrow> string \<Rightarrow> json py_result" where
  "py_getitem (JObj kvs) k = (case map_of kvs k of Some v \<Rightarrow> Inr v | None \<Rightarrow> Inl (KeyError k))"
| "py_getitem (JList _) k = Inl (TypeError ''list indices must be integers or slices, not str'')"
| "py_getitem (JStr _) k = Inl (TypeError ''string indices must be integers'')"
| "py_getitem JNull k = Inl (TypeError ''NoneType object is not subscriptable'')"
| "py_getitem (JBool _) k = Inl (TypeError ''bool object is not subscriptable'')"
| "py_getitem (JInt _) k = Inl (TypeError ''int object is not subscriptable'')"

text \<open>\<open>bool(v)\<close>: \<open>None\<close>, \<open>False\<close>, \<open>0\<close> and empty containers are false.\<close>

fun py_truthy :: "json \<Rightarrow> bool" where
  "py_truthy JNull = False"
| "py_truthy (JBool b) = b"
| "py_truthy (JInt i) = (i \<noteq> 0)"
| "py_truthy (JStr s) = (s \<noteq> [])"
| "py_truthy (JList xs) = (xs \<noteq> [])"
| "py_truthy (JObj kvs) = (kvs \<noteq> [])"

text \<open>A form value (\<open>str\<close> or \<open>None\<close>) stored into a dict that is sent as JSON.\<close>

fun opt_json :: "string option \<Rightarrow> json" where
  "opt_json None = JNull"
| "opt_json (Some s) = JStr s"

text \<open>Column access on a row, as the datastore reads it: a missing column is \<open>None\<close>.\<close>

definition col :: "row \<Rightarrow> string \<Rightarrow> json option" where
  "col r c = map_of r c"

section \<open>Evaluation equations\<close>

lemma py_getitem_obj_Some [py_simps]:
  "map_of kvs k = Some v \<Longrightarrow> py_getitem (JObj kvs) k = Inr v"
  by simp

lemma py_getitem_obj_None [py_simps]:
  "map_of kvs k = None \<Longrightarrow> py_getitem (JObj kvs) k = Inl (KeyError k)"
  by simp

lemma py_getitem_Inr_obj:
  "py_getitem d k = Inr v \<Longrightarrow> \<exists>kvs. d = JObj kvs \<and> map_of kvs k = Some v"
  by (cases d) (auto split: option.splits)

lemma opt_json_JStr [py_simps]: "opt_json x = JStr s \<longleftrightarrow> x = Some s"
  by (cases x) auto

lemma opt_json_inj: "opt_json x = opt_json y \<longleftrightarrow> x = y"
  by (cases x; cases y) auto

section \<open>Association lists and sorting\<close>

text \<open>Appending a binding for a fresh key does not change the other lookups.\<close>

lemma map_of_append_fresh [simp]:
  "k \<noteq> c \<Longrightarrow> map_of (r @ [(k, v)]) c = map_of r c"
  by (simp add: map_add_def split: option.split)

lemma map_of_Cons_other [simp]:
  "k \<noteq> c \<Longrightarrow> map_of ((k, v) # r) c = map_of r c"
  by simp

lemma col_append_fresh [simp]:
  "k \<noteq> c \<Longrightarrow> col (r @ [(k, v)]) c = col r c"
  by (simp add: col_def del: map_of_append)

lemma col_Cons [simp]:
  "col ((k, v) # r) c = (if k = c then Some v else col r c)"
  by (simp add: col_def)

lemma col_Nil [simp]: "col [] c = None"
  by (simp add: col_def)

text \<open>What an ordered query needs from \<open>sort_key\<close>: a permutation, sorted on the key.\<close>

lemma sort_key_perm_sorted:
  "mset (sort_key f xs) = mset xs \<and> sorted (map f (sort_key f xs))"
  by simp

section \<open>Lists updated at one index, as multisets\<close>

text \<open>A run of concurrent requests updates one request's state at a time; the rows it has
  produced are counted as a multiset. These lemmas relate the two.\<close>

lemma filter_update_same:
  "\<not> P (xs ! i) \<Longrightarrow> \<not> P y \<Longrightarrow> filter P (xs[i := y]) = filter P xs"
proof (induction xs arbitrary: i)
  case Nil
  then show ?case by simp
next
  case (Cons x xs)
  then show ?case by (cases i) auto
qed

lemma mset_filter_update_new:
  "i < length xs \<Longrightarrow> \<not> P (xs ! i) \<Longrightarrow> P y \<Longrightarrow> mset (filter P (xs[i := y])) = add_mset y (mset (filter P xs))"
proof (induction xs arbitrary: i)
  case Nil
  then show ?case by simp
next
  case (Cons x xs)
  then show ?case by (cases i) auto
qed

lemma mset_filter_add_subseteq:
  assumes "i < length xs" and "\<not> P (xs ! i)"
  shows "add_mset (xs ! i) (mset (filter P xs)) \<subseteq># mset xs"
proof -
  have part: "mset xs = mset (filter P xs) + mset (filter (\<lambda>x. \<not> P x) xs)"
    by (simp add: multiset_partition)
  have "xs ! i \<in># mset (filter (\<lambda>x. \<not> P x) xs)"
    using assms by simp
  then have "{#xs ! i#} \<subseteq># mset (filter (\<lambda>x. \<not> P x) xs)"
    by simp
  then have "mset (filter P xs) + {#xs ! i#} \<subseteq># mset xs"
    by (subst part) (rule subset_mset.add_left_mono)
  then show ?thesis by simp
qed

lemma map_filter_in:
  "x \<in> set xs \<Longrightarrow> f x = Some y \<Longrightarrow> y \<in> set (List.map_filter f xs)"
  by (induction xs) (auto simp: List.map_filter_def)

lemma mset_map_filter:
  "mset (List.map_filter f xs) = image_mset (the \<circ> f) (filter_mset (\<lambda>x. f x \<noteq> None) (mset xs))"
  by (induction xs) (auto simp: List.map_filter_def)

lemma map_filter_mono:
  "mset xs \<subseteq># mset ys \<Longrightarrow> mset (List.map_filter f xs) \<subseteq># mset (List.map_filter f ys)"
  by (simp add: mset_map_filter image_mset_subseteq_mono multiset_filter_mono)

lemma map_filter_mset_eq:
  "mset xs = mset ys \<Longrightarrow> mset (List.map_filter f xs) = mset (List.map_filter f ys)"
  by (simp add: mset_map_filter)

lemma distinct_mset_mono:
  assumes "mset xs \<subseteq># mset ys" and "distinct ys"
  shows "distinct xs"
proof -
  have "count (mset xs) a = (if a \<in> set xs then 1 else 0)" for a
  proof (cases "a \<in> set xs")
    case True
    have "count (mset xs) a \<le> count (mset ys) a" using assms(1) by (rule mset_subset_eq_count)
    moreover have "count (mset ys) a \<le> 1" using assms(2) by (simp add: distinct_count_atmost_1)
    moreover have "0 < count (mset xs) a" using True by simp
    ultimately have "count (mset xs) a = 1" by linarith
    with True show ?thesis by simp
  next
    case False
    then show ?thesis by simp
  qed
  then show ?thesis by (simp add: distinct_count_atmost_1)
qed

end
