(* ===== verification/Datastore.thy ===== *)
theory Datastore
  imports Web_Prelude
begin

text \<open>
  The hosted relational datastore (Supabase, reached through the PostgREST query
  builder of \<open>supabase-py\<close>). It is an external collaborator: the application only
  builds queries (\<open>table\<close>, \<open>select\<close>, \<open>eq\<close>, \<open>order\<close>, \<open>insert\<close>, \<open>execute\<close>) and
  reads \<open>response.data\<close>. This theory models the two tables the application uses and
  the semantics of exactly those query shapes, from the spec's datastore contract
  (section 6): equality filters, ordering, the embedding of \<open>categories(name_bn)\<close>
  through the foreign key \<open>contents.category_id\<close>, and an insert that fills the
  \<open>id\<close> and \<open>created_at\<close> defaults and checks an optional unique constraint on
  \<open>slug\<close>. Transport failures are not here: they are an input of the world model
  (theory \<open>Web_Env\<close>).
\<close>

section \<open>State of the datastore\<close>

record db_state =
  contents :: "row list"      \<comment> \<open>table \<open>contents\<close>, in physical order\<close>
  categories :: "row list"    \<comment> \<open>table \<open>categories\<close>, managed outside the application\<close>
  next_id :: int              \<comment> \<open>next value of the \<open>id\<close> sequence of \<open>contents\<close>\<close>
  clock :: int                \<comment> \<open>the server's \<open>now()\<close>, default of \<open>created_at\<close>\<close>
  slug_unique :: bool         \<comment> \<open>whether the schema declares \<open>UNIQUE (slug)\<close>\<close>

section \<open>Queries as the builder makes them\<close>

text \<open>\<open>select('*')\<close> and \<open>select('*, t(c1, ...)')\<close>: all columns, optionally with one
  embedded resource reached through a foreign key.\<close>

datatype select_spec = SelStar | SelStarEmbed string "string list"

record query =
  q_table :: string
  q_select :: select_spec
  q_eqs :: "(string \<times> json) list"
  q_order :: "(string \<times> bool) option"   \<comment> \<open>column, \<open>desc\<close>\<close>

definition sb_table :: "string \<Rightarrow> query" where
  "sb_table t = \<lparr>q_table = t, q_select = SelStar, q_eqs = [], q_order = None\<rparr>"

definition sb_select :: "select_spec \<Rightarrow> query \<Rightarrow> query" where
  "sb_select s q = q\<lparr>q_select := s\<rparr>"

definition sb_eq :: "string \<Rightarrow> json \<Rightarrow> query \<Rightarrow> query" where
  "sb_eq c v q = q\<lparr>q_eqs := q_eqs q @ [(c, v)]\<rparr>"

definition sb_order :: "string \<Rightarrow> bool \<Rightarrow> query \<Rightarrow> query" where
  "sb_order c desc q = q\<lparr>q_order := Some (c, desc)\<rparr>"

section \<open>Query semantics\<close>

definition db_table :: "db_state \<Rightarrow> string \<Rightarrow> row list option" where
  "db_table db t =
     (if t = ''contents'' then Some (contents db)
      else if t = ''categories'' then Some (categories db) else None)"

text \<open>The one foreign key of the schema: \<open>contents.category_id\<close> references
  \<open>categories.id\<close>.\<close>

definition fk_column :: "string \<Rightarrow> string \<Rightarrow> string option" where
  "fk_column src tgt =
     (if src = ''contents'' \<and> tgt = ''categories'' then Some ''category_id'' else None)"

definition project :: "string list \<Rightarrow> row \<Rightarrow> row" where
  "project cs r = map (\<lambda>c. (c, case col r c of Some v \<Rightarrow> v | None \<Rightarrow> JNull)) cs"

text \<open>The embedded object of a many-to-one relation: the referenced row projected on the
  requested columns, or \<open>null\<close> when the key is null or dangling.\<close>

definition embed_one :: "row list \<Rightarrow> string \<Rightarrow> string list \<Rightarrow> row \<Rightarrow> json" where
  "embed_one tgt fk cs r =
     (case col r fk of
        None \<Rightarrow> JNull
      | Some JNull \<Rightarrow> JNull
      | Some k \<Rightarrow> (case find (\<lambda>c. col c ''id'' = Some k) tgt of
                    None \<Rightarrow> JNull
                  | Some c \<Rightarrow> JObj (project cs c)))"

definition matches :: "(string \<times> json) list \<Rightarrow> row \<Rightarrow> bool" where
  "matches eqs r = list_all (\<lambda>(c, v). col r c = Some v) eqs"

text \<open>\<open>ORDER BY\<close> on an integer column (the timestamps of the model); a non-integer
  value sorts as 0. The sort is stable, so rows with equal keys keep their physical
  order.\<close>

fun sort_int :: "json option \<Rightarrow> int" where
  "sort_int (Some (JInt i)) = i"
| "sort_int _ = 0"

definition order_rows :: "(string \<times> bool) option \<Rightarrow> row list \<Rightarrow> row list" where
  "order_rows ord rs =
     (case ord of
        None \<Rightarrow> rs
      | Some (c, True) \<Rightarrow> sort_key (\<lambda>r. - sort_int (col r c)) rs
      | Some (c, False) \<Rightarrow> sort_key (\<lambda>r. sort_int (col r c)) rs)"

definition shape_row :: "db_state \<Rightarrow> string \<Rightarrow> select_spec \<Rightarrow> row \<Rightarrow> row py_result" where
  "shape_row db t s r =
     (case s of
        SelStar \<Rightarrow> Inr r
      | SelStarEmbed tgt cs \<Rightarrow>
          (case (fk_column t tgt, db_table db tgt) of
             (Some fk, Some rows) \<Rightarrow> Inr (r @ [(tgt, embed_one rows fk cs r)])
           | _ \<Rightarrow> Inl (APIError ''Could not find a relationship in the schema cache'')))"

fun sequence_rows :: "row py_result list \<Rightarrow> row list py_result" where
  "sequence_rows [] = Inr []"
| "sequence_rows (x # xs) =
     (case x of Inl e \<Rightarrow> Inl e
      | Inr r \<Rightarrow> (case sequence_rows xs of Inl e \<Rightarrow> Inl e | Inr rs \<Rightarrow> Inr (r # rs)))"

definition db_select :: "db_state \<Rightarrow> query \<Rightarrow> row list py_result" where
  "db_select db q =
     (case db_table db (q_table q) of
        None \<Rightarrow> Inl (APIError ''relation does not exist'')
      | Some rows \<Rightarrow>
          sequence_rows
            (map (shape_row db (q_table q) (q_select q))
               (order_rows (q_order q) (filter (matches (q_eqs q)) rows))))"

section \<open>Insert\<close>

text \<open>Values of a column, nulls skipped: a unique constraint in PostgreSQL admits any
  number of nulls.\<close>

definition col_values :: "string \<Rightarrow> row list \<Rightarrow> json list" where
  "col_values c rs = [v. r \<leftarrow> rs, v \<leftarrow> (case col r c of Some v \<Rightarrow> [v] | None \<Rightarrow> []), v \<noteq> JNull]"

definition unique_violation :: "db_state \<Rightarrow> row \<Rightarrow> bool" where
  "unique_violation db r =
     (slug_unique db \<and>
      (case col r ''slug'' of
         None \<Rightarrow> False
       | Some JNull \<Rightarrow> False
       | Some v \<Rightarrow> v \<in> set (col_values ''slug'' (contents db))))"

text \<open>The foreign key \<open>contents.category_id\<close> references \<open>categories.id\<close>: a non-null
  value must be the id of a category.\<close>

definition fk_violation :: "db_state \<Rightarrow> row \<Rightarrow> bool" where
  "fk_violation db r =
     (case col r ''category_id'' of
        None \<Rightarrow> False
      | Some JNull \<Rightarrow> False
      | Some v \<Rightarrow> v \<notin> set (col_values ''id'' (categories db)))"

text \<open>\<open>insert(row).execute()\<close> on \<open>contents\<close>: the unique index is checked as the row
  enters it, the foreign key after; then the defaults \<open>id\<close> (the sequence) and
  \<open>created_at\<close> (\<open>now()\<close>) are added, the row is appended, and the inserted
  representation is returned. The application inserts into no other table.\<close>

definition db_insert :: "db_state \<Rightarrow> string \<Rightarrow> row \<Rightarrow> (row list \<times> db_state) py_result" where
  "db_insert db t r =
     (if t \<noteq> ''contents'' then Inl (APIError ''permission denied'')
      else if unique_violation db r
      then Inl (APIError ''duplicate key value violates unique constraint'')
      else if fk_violation db r
      then Inl (APIError ''insert or update on table contents violates foreign key constraint'')
      else
        let new = (''id'', JInt (next_id db)) # (''created_at'', JInt (clock db)) # r
        in Inr ([new], db\<lparr>contents := contents db @ [new], next_id := next_id db + 1\<rparr>))"

section \<open>Lemmas on query results\<close>

lemma sequence_rows_map_Inr [simp]:
  "sequence_rows (map (\<lambda>r. Inr (f r)) xs) = Inr (map f xs)"
  by (induction xs) auto

lemma order_rows_desc:
  "order_rows (Some (c, True)) rs = sort_key (\<lambda>r. - sort_int (col r c)) rs"
  by (simp add: order_rows_def)

lemma mset_order_rows [simp]: "mset (order_rows ord rs) = mset rs"
  by (simp add: order_rows_def split: option.split bool.split prod.split)

lemma set_order_rows [simp]: "set (order_rows ord rs) = set rs"
  by (metis mset_order_rows set_mset_mset)

lemma sorted_order_rows_desc:
  "sorted_wrt (\<ge>) (map (\<lambda>r. sort_int (col r c)) (order_rows (Some (c, True)) rs))"
proof -
  have "sorted (map (\<lambda>r. - sort_int (col r c)) (sort_key (\<lambda>r. - sort_int (col r c)) rs))"
    by (rule sorted_sort_key)
  then show ?thesis
    by (simp add: order_rows_def sorted_wrt_map)
qed

lemma shape_row_star [simp]: "shape_row db t SelStar = (\<lambda>r. Inr r)"
  by (simp add: shape_row_def fun_eq_iff)

lemma shape_row_contents_categories [simp]:
  "shape_row db ''contents'' (SelStarEmbed ''categories'' cs) =
     (\<lambda>r. Inr (r @ [(''categories'', embed_one (categories db) ''category_id'' cs r)]))"
  by (simp add: shape_row_def fun_eq_iff fk_column_def db_table_def)

lemma db_select_star:
  assumes "db_table db (q_table q) = Some rows" and "q_select q = SelStar"
  shows "db_select db q = Inr (order_rows (q_order q) (filter (matches (q_eqs q)) rows))"
  using assms by (simp add: db_select_def)

lemma db_select_embed:
  assumes "q_table q = ''contents''" and "q_select q = SelStarEmbed ''categories'' cs"
  shows "db_select db q =
    Inr (map (\<lambda>r. r @ [(''categories'', embed_one (categories db) ''category_id'' cs r)])
           (order_rows (q_order q) (filter (matches (q_eqs q)) (contents db))))"
  using assms by (simp add: db_select_def db_table_def)

lemma col_values_Cons [simp]:
  "col_values c (r # rs) =
     (case col r c of Some v \<Rightarrow> (if v = JNull then [] else [v]) | None \<Rightarrow> []) @ col_values c rs"
  by (simp add: col_values_def split: option.split)

lemma col_values_Nil [simp]: "col_values c [] = []"
  by (simp add: col_values_def)

lemma col_values_append [simp]: "col_values c (xs @ ys) = col_values c xs @ col_values c ys"
  by (simp add: col_values_def)

lemma col_values_map_filter:
  "col_values c rs =
     List.map_filter (\<lambda>r. case col r c of Some v \<Rightarrow> if v = JNull then None else Some v | None \<Rightarrow> None) rs"
  by (induction rs) (auto simp: List.map_filter_def split: option.split)

lemma col_values_mset_eq:
  "mset xs = mset ys \<Longrightarrow> mset (col_values c xs) = mset (col_values c ys)"
  unfolding col_values_map_filter by (rule map_filter_mset_eq)

lemma col_values_mono:
  "mset xs \<subseteq># mset ys \<Longrightarrow> mset (col_values c xs) \<subseteq># mset (col_values c ys)"
  unfolding col_values_map_filter by (rule map_filter_mono)

lemma filter_col_absent:
  "v \<noteq> JNull \<Longrightarrow> v \<notin> set (col_values c rs) \<Longrightarrow> filter (\<lambda>r. col r c = Some v) rs = []"
  by (induction rs) (auto split: option.splits if_splits)

lemma unique_col_at_most_one:
  "distinct (col_values c rs) \<Longrightarrow> v \<noteq> JNull \<Longrightarrow> length (filter (\<lambda>r. col r c = Some v) rs) \<le> 1"
proof (induction rs)
  case Nil
  then show ?case by simp
next
  case (Cons r rs)
  show ?case
  proof (cases "col r c = Some v")
    case True
    with Cons.prems have "v \<notin> set (col_values c rs)" by simp
    with Cons.prems(2) True show ?thesis by (simp add: filter_col_absent)
  next
    case False
    with Cons show ?thesis by (simp split: option.splits if_splits)
  qed
qed

lemma db_insert_Inr:
  "db_insert db t r = Inr (out, db') \<longleftrightarrow>
     t = ''contents'' \<and> \<not> unique_violation db r \<and> \<not> fk_violation db r \<and>
     out = [(''id'', JInt (next_id db)) # (''created_at'', JInt (clock db)) # r] \<and>
     db' = db\<lparr>contents := contents db @ [(''id'', JInt (next_id db)) # (''created_at'', JInt (clock db)) # r],
              next_id := next_id db + 1\<rparr>"
  by (auto simp: db_insert_def Let_def)

lemma fk_violation_categories:
  "categories d = categories d' \<Longrightarrow> fk_violation d r = fk_violation d' r"
  by (simp add: fk_violation_def split: option.split json.split)

lemma db_insert_slug_unique:
  assumes "distinct (col_values ''slug'' (contents db))" and "slug_unique db"
    and "db_insert db t r = Inr (out, db')"
  shows "distinct (col_values ''slug'' (contents db'))"
  using assms by (auto simp: db_insert_Inr unique_violation_def split: option.splits json.splits)

end
