(* ===== verification/Web_Env.thy ===== *)
theory Web_Env
  imports Datastore
begin

text \<open>
  The world the request handlers of \<open>src/app.py\<close> act on, and the primitive effects
  they perform. Flask supplies the request (\<open>request.method\<close>, \<open>request.url\<close>,
  \<open>request.form\<close>, \<open>request.files\<close>), the session's flash queue (\<open>flash\<close>) and the
  responses (\<open>render_template\<close>, \<open>redirect\<close>, \<open>abort\<close>, and the 500 page of an
  uncaught exception). The two remote services are the datastore (theory
  \<open>Datastore\<close>) and the image host ImgBB, reached with \<open>requests.post\<close>.
  \<^item> \<open>world\<close> holds the datastore, the images stored at the host, the log of remote
    calls in the order they were made, the flash queue and the process's standard
    output;
  \<^item> \<open>ext\<close> is what the environment decides during one request: whether the datastore
    is reachable, and how the image host answers an upload;
  \<^item> \<open>config\<close> is the module-level configuration read from the environment and
    \<open>app\<close> what the module keeps of it (theory \<open>Startup\<close> builds them, lines 1 to 20);
  \<^item> \<open>supabase_execute\<close> and \<open>imgbb_post\<close> are the two remote calls, \<open>flash\<close> and
    \<open>py_print\<close> the two local effects.
  The Bengali literals of the flash messages are named by the constructors of
  \<open>flash_msg\<close>.
\<close>

section \<open>Requests and responses\<close>

record file_storage =
  filename :: string
  file_bytes :: string

datatype http_method = GET | HEAD | POST | OPTIONS | OtherMethod string

record request =
  req_method :: http_method
  req_path :: string
  req_url :: string
  req_form :: "(string \<times> string) list"
  req_files :: "(string \<times> file_storage) list"

text \<open>\<open>request.form.get(k)\<close>, \<open>request.files.get(k)\<close>: a \<open>MultiDict\<close> answers the
  first value sent under the key, or \<open>None\<close>.\<close>

definition form_get :: "request \<Rightarrow> string \<Rightarrow> string option" where
  "form_get rq k = map_of (req_form rq) k"

definition files_get :: "request \<Rightarrow> string \<Rightarrow> file_storage option" where
  "files_get rq k = map_of (req_files rq) k"

text \<open>\<open>not file\<close>: \<open>None\<close> is false, and werkzeug's \<open>FileStorage.__bool__\<close> is
  \<open>bool(self.filename)\<close>, so a file part sent with an empty file name is false too.\<close>

fun file_truthy :: "file_storage option \<Rightarrow> bool" where
  "file_truthy None = False"
| "file_truthy (Some f) = (filename f \<noteq> [])"

datatype response =
    Render string "(string \<times> json) list"   \<comment> \<open>\<open>render_template(name, **ctx)\<close>\<close>
  | Redirect string                          \<comment> \<open>\<open>redirect(url)\<close>, status 302\<close>
  | PermRedirect string                      \<comment> \<open>werkzeug's \<open>RequestRedirect\<close>, status 308\<close>
  | SendStatic string                        \<comment> \<open>\<open>send_static_file(filename)\<close>\<close>
  | HttpError nat                            \<comment> \<open>\<open>abort(n)\<close>, or 500 on an uncaught exception\<close>
  | Allow "string list"                      \<comment> \<open>Flask's automatic answer to \<open>OPTIONS\<close>\<close>

datatype flash_cat = FlashError | FlashSuccess

datatype flash_msg =
    MsgChooseFile               \<comment> \<open>"please choose a file" (line 58)\<close>
  | MsgUploadProblem            \<comment> \<open>"there was a problem uploading the image" (line 71)\<close>
  | MsgUploaded                 \<comment> \<open>"content uploaded successfully" (line 87)\<close>
  | MsgErrorOccurred string     \<comment> \<open>"an error occurred: {str(e)}" (line 91)\<close>

section \<open>The image host\<close>

text \<open>A reply of \<open>requests.post\<close>: the status code and the body, \<open>None\<close> when the
  body is not JSON (so that \<open>.json()\<close> raises).\<close>

record http_reply =
  status_code :: nat
  reply_body :: "json option"

definition resp_json :: "http_reply \<Rightarrow> json py_result" where
  "resp_json r =
     (case reply_body r of
        None \<Rightarrow> Inl (JSONDecodeError ''Expecting value: line 1 column 1 (char 0)'')
      | Some j \<Rightarrow> Inr j)"

text \<open>The host's contract: it has stored the image at URL \<open>u\<close> exactly when its reply
  says so, with status 200, a true \<open>success\<close> and \<open>data.url = u\<close>.\<close>

definition hosted_url :: "http_reply \<Rightarrow> json option" where
  "hosted_url r =
     (if status_code r \<noteq> 200 then None
      else case reply_body r of
        None \<Rightarrow> None
      | Some j \<Rightarrow>
          (case (py_getitem j ''success'', py_getitem j ''data'') of
             (Inr s, Inr d) \<Rightarrow>
               (if py_truthy s then (case py_getitem d ''url'' of Inr u \<Rightarrow> Some u | Inl _ \<Rightarrow> None)
                else None)
           | _ \<Rightarrow> None))"

section \<open>World, environment, configuration\<close>

datatype ext_call =
    ImgbbPost "string option" string   \<comment> \<open>API key sent (\<open>None\<close>: dropped), image bytes\<close>
  | DbSelect query
  | DbInsert string row

record world =
  db :: db_state
  hosted :: "(json \<times> string) list"      \<comment> \<open>images stored at the host: URL, bytes\<close>
  calls :: "ext_call list"              \<comment> \<open>remote calls, oldest first\<close>
  flashes :: "(flash_cat \<times> flash_msg) list"
  stdout :: "string list"

record ext =
  db_fault :: "py_exc option"   \<comment> \<open>the datastore call of this request raises this\<close>
  host_reply :: "string option \<Rightarrow> string \<Rightarrow> http_reply py_result"

record config =
  env_secret_key :: "string option"     \<comment> \<open>\<open>FLASK_SECRET_KEY\<close>\<close>
  env_supabase_url :: "string option"
  env_supabase_key :: "string option"
  env_imgbb_key :: "string option"

record app =
  secret_key :: string
  imgbb_key :: "string option"

section \<open>Effects\<close>

definition flash :: "flash_msg \<Rightarrow> flash_cat \<Rightarrow> world \<Rightarrow> world" where
  "flash m c w = w\<lparr>flashes := flashes w @ [(c, m)]\<rparr>"

definition py_print :: "string \<Rightarrow> world \<Rightarrow> world" where
  "py_print s w = w\<lparr>stdout := stdout w @ [s]\<rparr>"

definition log_call :: "ext_call \<Rightarrow> world \<Rightarrow> world" where
  "log_call c w = w\<lparr>calls := calls w @ [c]\<rparr>"

text \<open>\<open>supabase.table(...)....execute()\<close>: the call goes out (and is logged), then
  either the transport fails or the datastore answers.\<close>

definition supabase_execute :: "ext \<Rightarrow> ext_call \<Rightarrow> world \<Rightarrow> row list py_result \<times> world" where
  "supabase_execute e c w =
     (let w1 = log_call c w in
      case db_fault e of
        Some x \<Rightarrow> (Inl x, w1)
      | None \<Rightarrow>
          (case c of
             DbSelect q \<Rightarrow> (db_select (db w1) q, w1)
           | DbInsert t r \<Rightarrow>
               (case db_insert (db w1) t r of
                  Inl x \<Rightarrow> (Inl x, w1)
                | Inr (out, d') \<Rightarrow> (Inr out, w1\<lparr>db := d'\<rparr>))
           | ImgbbPost _ _ \<Rightarrow> (Inl (RequestException ''not a datastore call''), w1)))"

text \<open>\<open>requests.post(IMGBB_UPLOAD_URL, params={'key': key}, files={'image': bytes})\<close>:
  \<open>requests\<close> drops a parameter whose value is \<open>None\<close>; the host answers (or the
  transport raises) and keeps the image when its reply says it did.\<close>

definition imgbb_post :: "app \<Rightarrow> ext \<Rightarrow> string \<Rightarrow> world \<Rightarrow> http_reply py_result \<times> world" where
  "imgbb_post a e bytes w =
     (let w1 = log_call (ImgbbPost (imgbb_key a) bytes) w in
      case host_reply e (imgbb_key a) bytes of
        Inl x \<Rightarrow> (Inl x, w1)
      | Inr r \<Rightarrow>
          (case hosted_url r of
             None \<Rightarrow> (Inr r, w1)
           | Some u \<Rightarrow> (Inr r, w1\<lparr>hosted := hosted w1 @ [(u, bytes)]\<rparr>)))"

section \<open>Frame lemmas of the effects\<close>

lemma effect_fields [world_simps, simp]:
  "db (flash m c w) = db w" "hosted (flash m c w) = hosted w" "calls (flash m c w) = calls w"
  "flashes (flash m c w) = flashes w @ [(c, m)]" "stdout (flash m c w) = stdout w"
  "db (py_print s w) = db w" "hosted (py_print s w) = hosted w" "calls (py_print s w) = calls w"
  "flashes (py_print s w) = flashes w" "stdout (py_print s w) = stdout w @ [s]"
  "db (log_call k w) = db w" "hosted (log_call k w) = hosted w" "calls (log_call k w) = calls w @ [k]"
  "flashes (log_call k w) = flashes w" "stdout (log_call k w) = stdout w"
  by (simp_all add: flash_def py_print_def log_call_def)

lemma supabase_execute_fault [simp]:
  "db_fault e = Some x \<Longrightarrow> supabase_execute e c w = (Inl x, log_call c w)"
  by (simp add: supabase_execute_def Let_def)

lemma supabase_execute_select [simp]:
  "db_fault e = None \<Longrightarrow> supabase_execute e (DbSelect q) w = (db_select (db w) q, log_call (DbSelect q) w)"
  by (simp add: supabase_execute_def Let_def)

lemma supabase_execute_insert:
  "db_fault e = None \<Longrightarrow>
   supabase_execute e (DbInsert t r) w =
     (case db_insert (db w) t r of
        Inl x \<Rightarrow> (Inl x, log_call (DbInsert t r) w)
      | Inr (out, d') \<Rightarrow> (Inr out, (log_call (DbInsert t r) w)\<lparr>db := d'\<rparr>))"
  by (simp add: supabase_execute_def Let_def)

text \<open>Whatever the datastore answers, the call is logged and nothing but the datastore
  changes; a failed call changes nothing but the log.\<close>

lemma supabase_execute_frame:
  assumes "supabase_execute e c w = (res, w')"
  shows "hosted w' = hosted w \<and> calls w' = calls w @ [c] \<and> flashes w' = flashes w \<and>
         stdout w' = stdout w \<and> (\<forall>x. res = Inl x \<longrightarrow> db w' = db w)"
  using assms
  by (auto simp: supabase_execute_def log_call_def Let_def split: option.splits ext_call.splits sum.splits prod.splits)

lemma supabase_execute_select_db:
  "supabase_execute e (DbSelect q) w = (res, w') \<Longrightarrow> db w' = db w"
  by (auto simp: supabase_execute_def log_call_def Let_def split: option.splits)

lemma imgbb_post_frame:
  assumes "imgbb_post a e b w = (res, w')"
  shows "db w' = db w \<and> calls w' = calls w @ [ImgbbPost (imgbb_key a) b] \<and>
         flashes w' = flashes w \<and> stdout w' = stdout w"
  using assms
  by (auto simp: imgbb_post_def log_call_def Let_def split: sum.splits option.splits)

lemma imgbb_post_hosted:
  assumes "imgbb_post a e b w = (res, w')"
  shows "hosted w' = hosted w @ (case res of Inr r \<Rightarrow> (case hosted_url r of Some u \<Rightarrow> [(u, b)] | None \<Rightarrow> []) | Inl _ \<Rightarrow> [])"
  using assms
  by (auto simp: imgbb_post_def log_call_def Let_def split: sum.splits option.splits)

lemma imgbb_post_Inr:
  "host_reply e (imgbb_key a) b = Inr r \<Longrightarrow>
   imgbb_post a e b w =
     (Inr r, (log_call (ImgbbPost (imgbb_key a) b) w)\<lparr>hosted := hosted w @ (case hosted_url r of Some u \<Rightarrow> [(u, b)] | None \<Rightarrow> [])\<rparr>)"
  by (simp add: imgbb_post_def log_call_def Let_def split: option.split)

lemma imgbb_post_Inl:
  "host_reply e (imgbb_key a) b = Inl x \<Longrightarrow>
   imgbb_post a e b w = (Inl x, log_call (ImgbbPost (imgbb_key a) b) w)"
  by (simp add: imgbb_post_def)

end
