(* ===== verification/Examples.thy ===== *)
theory Examples
  imports Web_Env
begin

text \<open>
  Concrete values used to instantiate the theorems of the development: a datastore
  with one category and an empty \<open>contents\<close> table, the replies ImgBB gives to an
  accepted upload, to a request with a bad key (status 400, no \<open>success\<close> field) and
  from a failing gateway (status 502, an HTML body), and requests to the three routes (two uploads with different slugs).
\<close>

definition ex_db :: db_state where
  "ex_db = \<lparr>contents = [], categories = [[(''id'', JStr ''c1''), (''name_bn'', JStr ''kobita'')]],
            next_id = 1, clock = 100, slug_unique = True\<rparr>"

definition ex_world :: world where
  "ex_world = \<lparr>db = ex_db, hosted = [], calls = [], flashes = [], stdout = []\<rparr>"

definition ex_url :: json where
  "ex_url = JStr ''https://i.ibb.co/abc/photo.png''"

definition ex_ok_body :: json where
  "ex_ok_body = JObj [(''data'', JObj [(''url'', ex_url)]), (''success'', JBool True), (''status'', JInt 200)]"

definition ex_ok_reply :: http_reply where
  "ex_ok_reply = \<lparr>status_code = 200, reply_body = Some ex_ok_body\<rparr>"

definition ex_bad_key_reply :: http_reply where
  "ex_bad_key_reply =
     \<lparr>status_code = 400,
      reply_body = Some (JObj [(''status_code'', JInt 400),
                               (''error'', JObj [(''message'', JStr ''Invalid API v1 key.'')]),
                               (''status_txt'', JStr ''Bad Request'')])\<rparr>"

definition ex_gateway_reply :: http_reply where
  "ex_gateway_reply = \<lparr>status_code = 502, reply_body = None\<rparr>"

definition ex_env :: "http_reply \<Rightarrow> ext" where
  "ex_env r = \<lparr>db_fault = None, host_reply = (\<lambda>k b. Inr r)\<rparr>"

definition ex_env_db_down :: ext where
  "ex_env_db_down = \<lparr>db_fault = Some (APIError ''connection refused''), host_reply = (\<lambda>k b. Inr ex_ok_reply)\<rparr>"

definition ex_app :: app where
  "ex_app = \<lparr>secret_key = ''change-me'', imgbb_key = Some ''KEY''\<rparr>"

definition ex_file :: file_storage where
  "ex_file = \<lparr>filename = ''photo.png'', file_bytes = ''PNGDATA''\<rparr>"

definition ex_post :: request where
  "ex_post =
     \<lparr>req_method = POST, req_path = ''/upload'', req_url = ''http://localhost:5000/upload'',
      req_form = [(''title'', ''Brishti''), (''description'', ''A poem''), (''slug'', ''brishti''),
                  (''alt_text'', ''rain''), (''category_id'', ''c1'')],
      req_files = [(''file'', ex_file)]\<rparr>"

definition ex_post_megh :: request where
  "ex_post_megh =
     ex_post\<lparr>req_form := [(''title'', ''Megh''), (''description'', ''A song''), (''slug'', ''megh''),
                           (''alt_text'', ''cloud''), (''category_id'', ''c1'')]\<rparr>"

definition ex_post_unknown_category :: request where
  "ex_post_unknown_category =
     ex_post\<lparr>req_form := [(''title'', ''Brishti''), (''description'', ''A poem''), (''slug'', ''brishti''),
                           (''alt_text'', ''rain''), (''category_id'', ''c9'')]\<rparr>"

definition ex_post_no_file :: request where
  "ex_post_no_file = ex_post\<lparr>req_files := [(''file'', \<lparr>filename = [], file_bytes = []\<rparr>)]\<rparr>"

definition ex_get :: "string \<Rightarrow> request" where
  "ex_get p = \<lparr>req_method = GET, req_path = p, req_url = ''http://localhost:5000'' @ p,
               req_form = [], req_files = []\<rparr>"

definition ex_new_content :: row where
  "ex_new_content =
     [(''user_id'', JStr ''DEFAULT_USER_ID''), (''title'', JStr ''Brishti''),
      (''description'', JStr ''A poem''), (''slug'', JStr ''brishti''), (''alt_text'', JStr ''rain''),
      (''category_id'', JStr ''c1''), (''file_url'', ex_url), (''is_approved'', JBool True)]"

definition ex_row :: row where
  "ex_row = (''id'', JInt 1) # (''created_at'', JInt 100) # ex_new_content"

text \<open>The world after \<open>ex_post\<close> is served with the host accepting the image.\<close>

definition ex_world_published :: world where
  "ex_world_published =
     \<lparr>db = ex_db\<lparr>contents := [ex_row], next_id := 2\<rparr>, hosted = [(ex_url, ''PNGDATA'')],
      calls = [ImgbbPost (Some ''KEY'') ''PNGDATA'', DbInsert ''contents'' ex_new_content],
      flashes = [(FlashSuccess, MsgUploaded)], stdout = []\<rparr>"

lemmas ex_defs = ex_db_def ex_world_def ex_url_def ex_ok_body_def ex_ok_reply_def ex_bad_key_reply_def
  ex_gateway_reply_def ex_env_def ex_env_db_down_def ex_app_def ex_file_def ex_post_def ex_post_megh_def ex_post_unknown_category_def ex_post_no_file_def ex_get_def ex_new_content_def ex_row_def
  ex_world_published_def

end
