(* ===== verification/Handlers.thy ===== *)
theory Handlers
  imports Examples
begin

text \<open>
  The three request handlers of \<open>src/app.py\<close> and Flask's routing to them. Each
  handler takes the application (its configuration), the environment's decisions for
  this request, the request and the world, and returns the response with the new
  world. Every statement of the source that changes state is an effect of the model,
  in the source's order: \<open>flash\<close>, \<open>print\<close>, the call to the image host, the
  datastore calls. An exception caught by the source's \<open>except\<close> is a branch of the
  model; one that the source does not catch is Flask's 500 response.
  \<^item> \<open>index\<close>: the listing route \<open>/\<close> (lines 24 to 34);
  \<^item> \<open>single_content\<close>: \<open>/content/<slug>\<close> (lines 37 to 44);
  \<^item> \<open>upload_content\<close>: \<open>/upload\<close> (lines 47 to 96), split as the source is into the
    form fields read (\<open>read_submission\<close>), the record built (\<open>new_content\<close>), the
    body of the \<open>try\<close> (\<open>upload_try\<close>: the post to the host, then
    \<open>upload_after_host\<close>), its \<open>except\<close> (\<open>upload_except\<close>), the submission branch
    (\<open>upload_post\<close>) and the form page (\<open>upload_form\<close>);
  \<^item> \<open>dispatch\<close>: the URL map (\<open>match_path\<close>: the three \<open>@app.route\<close> rules and
    Flask's static rule), werkzeug's matcher with its merging of double slashes, and
    \<open>route\<close> for the methods.
  The theorems give the outcome of every branch, errors included (C1 to C7, C11 to C15,
  C18, C19, C24, C27 to C29, C33, C34).
\<close>

section \<open>Listing: \<open>index\<close>\<close>

definition listing_query :: query where
  "listing_query =
     sb_order ''created_at'' True
       (sb_eq ''is_approved'' (JBool True)
         (sb_select (SelStarEmbed ''categories'' [''name_bn'']) (sb_table ''contents'')))"

definition index :: "ext \<Rightarrow> world \<Rightarrow> response \<times> world" where
  "index e w =
     (case supabase_execute e (DbSelect listing_query) w of
        (Inr rows, w1) \<Rightarrow> (Render ''index.html'' [(''contents'', JList (map JObj rows))], w1)
      | (Inl x, w1) \<Rightarrow>
          (Render ''index.html'' [(''contents'', JList [])],
           py_print (''Database Error: '' @ exc_str x) w1))"

section \<open>Detail: \<open>single_content\<close>\<close>

definition slug_query :: "string \<Rightarrow> query" where
  "slug_query slug =
     sb_eq ''slug'' (JStr slug)
       (sb_select (SelStarEmbed ''categories'' [''name_bn'']) (sb_table ''contents''))"

definition single_content :: "ext \<Rightarrow> string \<Rightarrow> world \<Rightarrow> response \<times> world" where
  "single_content e slug w =
     (case supabase_execute e (DbSelect (slug_query slug)) w of
        (Inl _, w1) \<Rightarrow> (HttpError 500, w1)
      | (Inr [], w1) \<Rightarrow> (HttpError 404, w1)
      | (Inr (c # _), w1) \<Rightarrow> (Render ''single.html'' [(''content'', JObj c)], w1))"

section \<open>Upload: \<open>upload_content\<close>\<close>

record submission =
  s_title :: "string option"
  s_description :: "string option"
  s_slug :: "string option"
  s_alt_text :: "string option"
  s_category_id :: "string option"

definition read_submission :: "request \<Rightarrow> submission" where
  "read_submission rq =
     \<lparr>s_title = form_get rq ''title'', s_description = form_get rq ''description'',
      s_slug = form_get rq ''slug'', s_alt_text = form_get rq ''alt_text'',
      s_category_id = form_get rq ''category_id''\<rparr>"

definition new_content :: "submission \<Rightarrow> json \<Rightarrow> row" where
  "new_content s file_url =
     [(''user_id'', JStr ''DEFAULT_USER_ID''),
      (''title'', opt_json (s_title s)),
      (''description'', opt_json (s_description s)),
      (''slug'', opt_json (s_slug s)),
      (''alt_text'', opt_json (s_alt_text s)),
      (''category_id'', opt_json (s_category_id s)),
      (''file_url'', file_url),
      (''is_approved'', JBool True)]"

text \<open>\<open>imgbb_response.status_code == 200 and imgbb_data['success']\<close>: the index is
  evaluated only when the status is 200, and may raise.\<close>

definition upload_accepted :: "http_reply \<Rightarrow> json \<Rightarrow> bool py_result" where
  "upload_accepted r d =
     (if status_code r = 200
      then (case py_getitem d ''success'' of Inl x \<Rightarrow> Inl x | Inr v \<Rightarrow> Inr (py_truthy v))
      else Inr False)"

text \<open>\<open>imgbb_data['data']['url']\<close>.\<close>

definition reply_url :: "json \<Rightarrow> json py_result" where
  "reply_url d = (case py_getitem d ''data'' of Inl x \<Rightarrow> Inl x | Inr d' \<Rightarrow> py_getitem d' ''url'')"

text \<open>The body of the \<open>try\<close> after \<open>requests.post\<close> returned (lines 66 to 88): decode
  the reply, test it, extract the URL, insert the record. \<open>Inl\<close> is an exception that
  escapes the body, to be caught at line 90; \<open>Inr\<close> is a response returned from inside
  it.\<close>

definition upload_after_host ::
  "ext \<Rightarrow> request \<Rightarrow> submission \<Rightarrow> http_reply \<Rightarrow> world \<Rightarrow> response py_result \<times> world" where
  "upload_after_host e rq s r w1 =
     (case resp_json r of
        Inl x \<Rightarrow> (Inl x, w1)
      | Inr d \<Rightarrow>
          (case upload_accepted r d of
             Inl x \<Rightarrow> (Inl x, w1)
           | Inr False \<Rightarrow> (Inr (Redirect (req_url rq)), flash MsgUploadProblem FlashError w1)
           | Inr True \<Rightarrow>
               (case reply_url d of
                  Inl x \<Rightarrow> (Inl x, w1)
                | Inr u \<Rightarrow>
                    (case supabase_execute e (DbInsert ''contents'' (new_content s u)) w1 of
                       (Inl x, w2) \<Rightarrow> (Inl x, w2)
                     | (Inr _, w2) \<Rightarrow> (Inr (Redirect ''/''), flash MsgUploaded FlashSuccess w2)))))"

text \<open>The whole body of the \<open>try\<close> (lines 63 to 88): the post to the image host, then the
  rest.\<close>

definition upload_try ::
  "app \<Rightarrow> ext \<Rightarrow> request \<Rightarrow> submission \<Rightarrow> file_storage \<Rightarrow> world \<Rightarrow> response py_result \<times> world" where
  "upload_try a e rq s f w =
     (case imgbb_post a e (file_bytes f) w of
        (Inl x, w1) \<Rightarrow> (Inl x, w1)
      | (Inr r, w1) \<Rightarrow> upload_after_host e rq s r w1)"

text \<open>\<open>except Exception as e\<close> (lines 90 to 92): an exception that escaped the body is
  flashed with its message and the client is sent back to the form.\<close>

definition upload_except :: "request \<Rightarrow> response py_result \<times> world \<Rightarrow> response \<times> world" where
  "upload_except rq rw =
     (case rw of
        (Inl x, w1) \<Rightarrow> (Redirect (req_url rq), flash (MsgErrorOccurred (exc_str x)) FlashError w1)
      | (Inr resp, w1) \<Rightarrow> (resp, w1))"

definition upload_post :: "app \<Rightarrow> ext \<Rightarrow> request \<Rightarrow> world \<Rightarrow> response \<times> world" where
  "upload_post a e rq w =
     (let s = read_submission rq;
          file = files_get rq ''file''
      in if \<not> file_truthy file
         then (Redirect (req_url rq), flash MsgChooseFile FlashError w)
         else upload_except rq (upload_try a e rq s (the file) w))"

definition upload_form :: "ext \<Rightarrow> world \<Rightarrow> response \<times> world" where
  "upload_form e w =
     (case supabase_execute e (DbSelect (sb_select SelStar (sb_table ''categories''))) w of
        (Inl _, w1) \<Rightarrow> (HttpError 500, w1)
      | (Inr cats, w1) \<Rightarrow> (Render ''upload.html'' [(''categories'', JList (map JObj cats))], w1))"

definition upload_content :: "app \<Rightarrow> ext \<Rightarrow> request \<Rightarrow> world \<Rightarrow> response \<times> world" where
  "upload_content a e rq w =
     (if req_method rq = POST then upload_post a e rq w else upload_form e w)"

section \<open>Routing\<close>

text \<open>The URL map of the application: \<open>Flask(__name__)\<close> (line 10) registers the
  rule \<open>/static/<path:filename>\<close> of its static folder, and the decorators add
  \<open>/\<close> (line 24), \<open>/content/<slug>\<close> (line 37) and \<open>/upload\<close> (line 47). The
  default converter of \<open><slug>\<close> matches a non-empty segment without \<open>/\<close>; the
  \<open>path\<close> converter matches a non-empty rest of the path that does not start with
  \<open>/\<close>. A rule without a trailing slash does not match a path with one.\<close>

datatype url_rule = RIndex | RContent string | RUpload | RStatic string

definition slug_segment :: "string \<Rightarrow> bool" where
  "slug_segment s = (s \<noteq> [] \<and> CHR ''/'' \<notin> set s)"

definition static_filename :: "string \<Rightarrow> bool" where
  "static_filename f = (f \<noteq> [] \<and> hd f \<noteq> CHR ''/'')"

definition match_path :: "string \<Rightarrow> url_rule option" where
  "match_path p =
     (let cpre = ''/content/''; spre = ''/static/'' in
      if p = ''/'' then Some RIndex
      else if take (length cpre) p = cpre \<and> slug_segment (drop (length cpre) p)
      then Some (RContent (drop (length cpre) p))
      else if p = ''/upload'' then Some RUpload
      else if take (length spre) p = spre \<and> static_filename (drop (length spre) p)
      then Some (RStatic (drop (length spre) p))
      else None)"

text \<open>\<open>methods=['GET', 'POST']\<close> on \<open>/upload\<close>, \<open>GET\<close> elsewhere; werkzeug adds
  \<open>HEAD\<close> to a rule with \<open>GET\<close>.\<close>

fun rule_methods :: "url_rule \<Rightarrow> http_method list" where
  "rule_methods RUpload = [GET, HEAD, POST]"
| "rule_methods _ = [GET, HEAD]"

text \<open>The view of each rule. The static view \<open>send_static_file\<close> answers the file of
  the static folder, which is not in the repository, so the model ends at the file
  name, as it ends at the template name for \<open>render_template\<close>.\<close>

definition serve_rule :: "app \<Rightarrow> ext \<Rightarrow> request \<Rightarrow> world \<Rightarrow> url_rule \<Rightarrow> response \<times> world" where
  "serve_rule a e rq w r =
     (case r of
        RIndex \<Rightarrow> index e w
      | RContent s \<Rightarrow> single_content e s w
      | RUpload \<Rightarrow> upload_content a e rq w
      | RStatic f \<Rightarrow> (SendStatic f, w))"

text \<open>Flask answers \<open>OPTIONS\<close> itself with the allowed methods (\<open>HEAD\<close> is served by
  the view, its body dropped); a method the rule does not accept is 405.\<close>

definition route :: "http_method list \<Rightarrow> http_method \<Rightarrow> world \<Rightarrow> (response \<times> world) \<Rightarrow> response \<times> world" where
  "route ms m w view =
     (if m \<in> set ms then view
      else if m = OPTIONS then (Allow (if POST \<in> set ms then [''GET'', ''HEAD'', ''OPTIONS'', ''POST'']
                                   else [''GET'', ''HEAD'', ''OPTIONS'']), w)
      else (HttpError 405, w))"

text \<open>werkzeug's \<open>merge_slashes\<close>: when no rule matches, the matcher retries with
  \<open>re.sub("/{2,}?", "/", path)\<close>, which replaces each pair of slashes, from the left,
  by one.\<close>

fun merge_slashes :: "string \<Rightarrow> string" where
  "merge_slashes (CHR ''/'' # CHR ''/'' # p) = CHR ''/'' # merge_slashes p"
| "merge_slashes (c # p) = c # merge_slashes p"
| "merge_slashes [] = []"

text \<open>The matcher (\<open>werkzeug.routing.StateMachineMatcher.match\<close>): a rule that
  matches the path is routed by its methods; otherwise, if a rule matches the merged
  path and accepts the method (its methods include \<open>OPTIONS\<close>), the client is
  redirected there with 308, and if it refuses it the answer is 405; a path no rule
  matches either way is 404.\<close>

definition dispatch :: "app \<Rightarrow> ext \<Rightarrow> request \<Rightarrow> world \<Rightarrow> response \<times> world" where
  "dispatch a e rq w =
     (let p = req_path rq; m = req_method rq in
      case match_path p of
        Some r \<Rightarrow> route (rule_methods r) m w (serve_rule a e rq w r)
      | None \<Rightarrow>
          (case match_path (merge_slashes p) of
             Some r \<Rightarrow>
               (if m \<in> set (rule_methods r) \<or> m = OPTIONS then (PermRedirect (merge_slashes p), w)
                else (HttpError 405, w))
           | None \<Rightarrow> (HttpError 404, w)))"

section \<open>Helper lemmas\<close>

lemmas request_defs = files_get_def form_get_def read_submission_def

lemma matches_single [simp]: "matches [(c, v)] = (\<lambda>r. col r c = Some v)"
  by (simp add: matches_def fun_eq_iff)

lemma listing_query_fields:
  "q_table listing_query = ''contents''"
  "q_select listing_query = SelStarEmbed ''categories'' [''name_bn'']"
  "q_eqs listing_query = [(''is_approved'', JBool True)]"
  "q_order listing_query = Some (''created_at'', True)"
  by (simp_all add: listing_query_def sb_order_def sb_eq_def sb_select_def sb_table_def)

lemma slug_query_fields [simp]:
  "q_table (slug_query s) = ''contents''"
  "q_select (slug_query s) = SelStarEmbed ''categories'' [''name_bn'']"
  "q_eqs (slug_query s) = [(''slug'', JStr s)]"
  "q_order (slug_query s) = None"
  by (simp_all add: slug_query_def sb_eq_def sb_select_def sb_table_def)

lemma col_embedded_other [simp]:
  "c \<noteq> ''categories'' \<Longrightarrow> col (r @ [(''categories'', v)]) c = col r c"
  by simp

lemma hosted_url_accepted:
  assumes "status_code r = 200" "reply_body r = Some d" "py_getitem d ''success'' = Inr s"
    "py_truthy s" "reply_url d = Inr u"
  shows "hosted_url r = Some u"
  using assms by (auto simp: hosted_url_def reply_url_def split: sum.splits)

lemma hosted_url_rejected:
  "reply_body r = Some d \<Longrightarrow> upload_accepted r d = Inr False \<Longrightarrow> hosted_url r = None"
  by (auto simp: hosted_url_def upload_accepted_def split: sum.splits if_splits)

lemma hosted_url_reply:
  assumes "hosted_url r = Some u"
  shows "\<exists>d. resp_json r = Inr d \<and> upload_accepted r d = Inr True \<and> reply_url d = Inr u"
  using assms
  by (auto simp: hosted_url_def resp_json_def upload_accepted_def reply_url_def
           split: if_splits option.splits sum.splits prod.splits)

lemma upload_try_effects:
  assumes "upload_try a e rq s f w = (res, w1)"
  shows "stdout w1 = stdout w \<and>
    (calls w1 = calls w @ [ImgbbPost (imgbb_key a) (file_bytes f)] \<and> db w1 = db w \<or>
     (\<exists>u. calls w1 = calls w @ [ImgbbPost (imgbb_key a) (file_bytes f), DbInsert ''contents'' (new_content s u)])) \<and>
    length (flashes w1) = length (flashes w) + (case res of Inl _ \<Rightarrow> 0 | Inr _ \<Rightarrow> 1) \<and>
    (\<forall>x. res = Inl x \<longrightarrow> db w1 = db w)"
proof -
  obtain hr wa where post: "imgbb_post a e (file_bytes f) w = (hr, wa)" by fastforce
  note fa = imgbb_post_frame [OF post]
  show ?thesis
  proof (cases hr)
    case (Inl x)
    with assms post fa show ?thesis by (auto simp: upload_try_def upload_after_host_def)
  next
    case (Inr r)
    show ?thesis
    proof (cases "resp_json r")
      case (Inl x)
      with assms post fa \<open>hr = Inr r\<close> show ?thesis by (auto simp: upload_try_def upload_after_host_def)
    next
      case (Inr d)
      show ?thesis
      proof (cases "upload_accepted r d")
        case (Inl x)
        with assms post fa \<open>hr = Inr r\<close> \<open>resp_json r = Inr d\<close> show ?thesis
          by (auto simp: upload_try_def upload_after_host_def)
      next
        case (Inr b)
        show ?thesis
        proof (cases "b \<and> (\<exists>u. reply_url d = Inr u)")
          case True
          then obtain u where b: b and u: "reply_url d = Inr u" by blast
          obtain ir wb where ins: "supabase_execute e (DbInsert ''contents'' (new_content s u)) wa = (ir, wb)"
            by fastforce
          note fb = supabase_execute_frame [OF ins]
          from assms post fa fb ins \<open>hr = Inr r\<close> \<open>resp_json r = Inr d\<close> \<open>upload_accepted r d = Inr b\<close> b u
          show ?thesis by (cases ir) (auto simp: upload_try_def upload_after_host_def)
        next
          case False
          with assms post fa \<open>hr = Inr r\<close> \<open>resp_json r = Inr d\<close> \<open>upload_accepted r d = Inr b\<close>
          show ?thesis by (cases b) (auto simp: upload_try_def upload_after_host_def split: sum.splits)
        qed
      qed
    qed
  qed
qed


lemma match_path_content:
  "slug_segment s \<Longrightarrow> match_path (''/content/'' @ s) = Some (RContent s)"
  by (simp add: match_path_def slug_segment_def)

lemma match_path_static:
  "static_filename f \<Longrightarrow> match_path (''/static/'' @ f) = Some (RStatic f)"
  by (simp add: match_path_def static_filename_def)

lemma prefix_forall_iff: "(\<forall>s. p = u @ s \<longrightarrow> \<not> P s) \<longleftrightarrow> \<not> (take (length u) p = u \<and> P (drop (length u) p))"
  by (metis append_eq_conv_conj append_take_drop_id)

lemma match_path_None_iff:
  "match_path q = None \<longleftrightarrow>
   q \<noteq> ''/'' \<and> q \<noteq> ''/upload'' \<and> (\<forall>s. q = ''/content/'' @ s \<longrightarrow> \<not> slug_segment s) \<and>
   (\<forall>f. q = ''/static/'' @ f \<longrightarrow> \<not> static_filename f)"
  by (simp only: prefix_forall_iff) (simp add: match_path_def Let_def)

lemma options_not_rule_method [simp]: "OPTIONS \<notin> set (rule_methods r)"
  by (cases r) simp_all

lemma dispatch_index:
  "req_path rq = ''/'' \<Longrightarrow> dispatch a e rq w = route [GET, HEAD] (req_method rq) w (index e w)"
  by (simp add: dispatch_def Let_def match_path_def serve_rule_def)

lemma dispatch_content:
  "req_path rq = ''/content/'' @ s \<Longrightarrow> slug_segment s \<Longrightarrow>
   dispatch a e rq w = route [GET, HEAD] (req_method rq) w (single_content e s w)"
proof -
  assume p: "req_path rq = ''/content/'' @ s" and s: "slug_segment s"
  then have "match_path (req_path rq) = Some (RContent s)" by (simp only: match_path_content)
  then show ?thesis by (simp add: dispatch_def Let_def serve_rule_def)
qed

lemma dispatch_upload:
  "req_path rq = ''/upload'' \<Longrightarrow>
   dispatch a e rq w = route [GET, HEAD, POST] (req_method rq) w (upload_content a e rq w)"
  by (simp add: dispatch_def Let_def match_path_def serve_rule_def)



text \<open>A request either leaves the world as it was or is the run of one of the three
  views of the source, the upload view only on \<open>/upload\<close>.\<close>

lemma dispatch_view:
  assumes "dispatch a e rq w = (resp, w')"
  shows "w' = w \<or> index e w = (resp, w') \<or> (\<exists>s. single_content e s w = (resp, w')) \<or>
    (req_path rq = ''/upload'' \<and> upload_content a e rq w = (resp, w'))"
proof (cases "match_path (req_path rq)")
  case None
  with assms show ?thesis by (auto simp: dispatch_def Let_def split: option.splits if_splits)
next
  case (Some r)
  then have "r = RUpload \<Longrightarrow> req_path rq = ''/upload''"
    by (auto simp: match_path_def Let_def split: if_splits)
  with Some assms show ?thesis
    by (cases r) (auto simp: dispatch_def Let_def route_def serve_rule_def split: if_splits)
qed

lemma upload_post_branch:
  "req_method rq = POST \<Longrightarrow> files_get rq ''file'' = Some f \<Longrightarrow> filename f \<noteq> [] \<Longrightarrow>
   upload_content a e rq w =
     (case upload_try a e rq (read_submission rq) f w of
        (Inl x, w1) \<Rightarrow> (Redirect (req_url rq), flash (MsgErrorOccurred (exc_str x)) FlashError w1)
      | (Inr resp, w1) \<Rightarrow> (resp, w1))"
  by (simp add: upload_content_def upload_post_def upload_except_def Let_def)

section \<open>Listing and detail\<close>

lemma index_select:
  assumes "db_fault e = None"
  shows "index e w =
    (Render ''index.html''
       [(''contents'', JList (map JObj
          (map (\<lambda>r. r @ [(''categories'', embed_one (categories (db w)) ''category_id'' [''name_bn''] r)])
             (order_rows (Some (''created_at'', True))
               (filter (\<lambda>r. col r ''is_approved'' = Some (JBool True)) (contents (db w)))))))],
     log_call (DbSelect listing_query) w)"
  using assms by (simp only: index_def supabase_execute_select db_select_embed listing_query_fields
                             matches_single prod.case sum.case)

lemma single_content_select:
  assumes "db_fault e = None"
  shows "single_content e slug w =
    (case filter (\<lambda>r. col r ''slug'' = Some (JStr slug)) (contents (db w)) of
       [] \<Rightarrow> (HttpError 404, log_call (DbSelect (slug_query slug)) w)
     | c # _ \<Rightarrow> (Render ''single.html''
                   [(''content'', JObj (c @ [(''categories'', embed_one (categories (db w)) ''category_id'' [''name_bn''] c)]))],
                 log_call (DbSelect (slug_query slug)) w))"
  using assms by (simp add: single_content_def db_select_embed order_rows_def split: list.split)

text \<open>
  C4. With the datastore reachable, the listing page renders exactly the approved rows,
  each joined with its category name, as a permutation of them sorted by created_at in
  descending order; the only effect is the one select call.
\<close>

theorem index_lists_approved:
  assumes "db_fault e = None"
  shows "\<exists>rows. index e w = (Render ''index.html'' [(''contents'', JList (map JObj rows))],
                              log_call (DbSelect listing_query) w) \<and>
     mset rows = mset (map (\<lambda>r. r @ [(''categories'', embed_one (categories (db w)) ''category_id'' [''name_bn''] r)])
                        (filter (\<lambda>r. col r ''is_approved'' = Some (JBool True)) (contents (db w)))) \<and>
     sorted_wrt (\<ge>) (map (\<lambda>r. sort_int (col r ''created_at'')) rows)"
proof -
  let ?emb = "\<lambda>r. r @ [(''categories'', embed_one (categories (db w)) ''category_id'' [''name_bn''] r)]"
  let ?sel = "order_rows (Some (''created_at'', True)) (filter (\<lambda>r. col r ''is_approved'' = Some (JBool True)) (contents (db w)))"
  have q: "q_table listing_query = ''contents''"
    "q_select listing_query = SelStarEmbed ''categories'' [''name_bn'']"
    "q_eqs listing_query = [(''is_approved'', JBool True)]"
    "q_order listing_query = Some (''created_at'', True)"
    by (simp_all add: listing_query_def sb_order_def sb_eq_def sb_select_def sb_table_def)
  show ?thesis
  proof (rule exI [of _ "map ?emb ?sel"], intro conjI)
    show "index e w = (Render ''index.html'' [(''contents'', JList (map JObj (map ?emb ?sel)))],
                       log_call (DbSelect listing_query) w)"
      using assms by (simp only: index_def supabase_execute_select db_select_embed [OF q(1,2)] q(3,4)
                                  matches_single prod.case sum.case)
    show "mset (map ?emb ?sel) = mset (map ?emb (filter (\<lambda>r. col r ''is_approved'' = Some (JBool True)) (contents (db w))))"
      by simp
    show "sorted_wrt (\<ge>) (map (\<lambda>r. sort_int (col r ''created_at'')) (map ?emb ?sel))"
      using sorted_order_rows_desc by (simp add: comp_def)
  qed
qed

text \<open>
  C5. If the listing query raises, the listing page still renders, with no rows, and the
  error is printed to standard output; nothing else changes.
\<close>

theorem index_db_error:
  assumes "db_fault e = Some x"
  shows "index e w = (Render ''index.html'' [(''contents'', JList [])],
                      py_print (''Database Error: '' @ exc_str x) (log_call (DbSelect listing_query) w))"
  using assms by (simp add: index_def)

text \<open>
  C6. For a slug that no row has, the detail route responds 404 and renders nothing.
\<close>

theorem single_content_not_found:
  assumes "db_fault e = None" and "\<forall>r\<in>set (contents (db w)). col r ''slug'' \<noteq> Some (JStr slug)"
  shows "single_content e slug w = (HttpError 404, log_call (DbSelect (slug_query slug)) w)"
proof -
  have "filter (\<lambda>r. col r ''slug'' = Some (JStr slug)) (contents (db w)) = []"
    using assms(2) by (simp add: filter_empty_conv)
  then show ?thesis
    using single_content_select [OF assms(1)] by simp
qed

text \<open>
  C7. For a slug that matches rows, the detail page renders the first matching row in
  the table order, joined with its category name.
\<close>

theorem single_content_found:
  assumes "db_fault e = None" and "filter (\<lambda>r. col r ''slug'' = Some (JStr slug)) (contents (db w)) = c # cs"
  shows "single_content e slug w =
    (Render ''single.html''
       [(''content'', JObj (c @ [(''categories'', embed_one (categories (db w)) ''category_id'' [''name_bn''] c)]))],
     log_call (DbSelect (slug_query slug)) w)"
  using single_content_select [OF assms(1)] assms(2) by simp

text \<open>
  C15. If the datastore query of the detail route raises, the exception is not caught:
  Flask answers 500.
\<close>

theorem single_content_db_error:
  assumes "db_fault e = Some x"
  shows "single_content e slug w = (HttpError 500, log_call (DbSelect (slug_query slug)) w)"
  using assms by (simp add: single_content_def)

section \<open>Upload\<close>

text \<open>
  C18. A GET of the upload form renders the form with all categories, in table order,
  after one select call.
\<close>

theorem upload_form_lists_categories:
  assumes "req_method rq \<noteq> POST" and "db_fault e = None"
  shows "upload_content a e rq w =
    (Render ''upload.html'' [(''categories'', JList (map JObj (categories (db w))))],
     log_call (DbSelect (sb_select SelStar (sb_table ''categories''))) w)"
  using assms
  by (simp add: upload_content_def upload_form_def db_select_star db_table_def
                sb_select_def sb_table_def order_rows_def matches_def)

text \<open>
  C34. The form page does not catch a datastore failure (line 95 has no try): a GET or
  HEAD of /upload whose categories select raises is answered 500 by Flask, with no flash
  and no other effect than the select call.
\<close>

theorem upload_form_db_error:
  assumes "req_path rq = ''/upload''" and "req_method rq \<in> {GET, HEAD}" and "db_fault e = Some x"
  shows "dispatch a e rq w = (HttpError 500, log_call (DbSelect (sb_select SelStar (sb_table ''categories''))) w)"
  using assms by (auto simp: dispatch_upload route_def upload_content_def upload_form_def)

text \<open>
  C2. A POST to the upload form without a usable file (no file part, or one sent with an
  empty file name, which werkzeug treats as false) makes no call to the image host or
  the datastore: it only flashes the missing-file notice and redirects back to the form.
\<close>

theorem upload_without_file:
  assumes "req_method rq = POST" and "\<not> file_truthy (files_get rq ''file'')"
  shows "upload_content a e rq w = (Redirect (req_url rq), flash MsgChooseFile FlashError w)"
  using assms by (simp add: upload_content_def upload_post_def upload_except_def Let_def)

lemma upload_content_accepted:
  assumes post: "req_method rq = POST" and fl: "files_get rq ''file'' = Some f" "filename f \<noteq> []"
    and host: "host_reply e (imgbb_key a) (file_bytes f) = Inr r" "status_code r = 200"
      "reply_body r = Some d" "py_getitem d ''success'' = Inr s" "py_truthy s" "reply_url d = Inr u"
    and dbok: "db_fault e = None" "\<not> unique_violation (db w) (new_content (read_submission rq) u)"
      "\<not> fk_violation (db w) (new_content (read_submission rq) u)"
  shows "upload_content a e rq w =
    (Redirect ''/'',
     w\<lparr>db := (db w)\<lparr>contents := contents (db w) @
                       [(''id'', JInt (next_id (db w))) # (''created_at'', JInt (clock (db w))) #
                        new_content (read_submission rq) u],
                     next_id := next_id (db w) + 1\<rparr>,
       hosted := hosted w @ [(u, file_bytes f)],
       calls := calls w @ [ImgbbPost (imgbb_key a) (file_bytes f),
                           DbInsert ''contents'' (new_content (read_submission rq) u)],
       flashes := flashes w @ [(FlashSuccess, MsgUploaded)]\<rparr>)"
proof -
  have hu: "hosted_url r = Some u" using host(2-6) by (rule hosted_url_accepted)
  have acc: "upload_accepted r d = Inr True" using host by (simp add: upload_accepted_def)
  show ?thesis
    using post fl host dbok hu acc
    by (simp add: upload_post_branch upload_try_def upload_after_host_def imgbb_post_Inr resp_json_def
                  supabase_execute_insert db_insert_def Let_def flash_def log_call_def)
qed

text \<open>
  C1. Submitting the upload form with a file that the image host accepts (status 200, a
  true success field, data.url = u), with the datastore reachable, no unique-slug
  conflict and a category that exists (or none), redirects to the listing and changes exactly this: one content row is
  appended, made of the form values, the URL u, the placeholder user and is_approved
  true, with the next id and the current time; the image is stored at the host; the
  image host is called before the datastore insert; one success notice is flashed.
\<close>

theorem upload_success:
  assumes route: "req_path rq = ''/upload''" "req_method rq = POST"
    and fl: "files_get rq ''file'' = Some f" "filename f \<noteq> []"
    and host: "host_reply e (imgbb_key a) (file_bytes f) = Inr r" "status_code r = 200"
      "reply_body r = Some d" "py_getitem d ''success'' = Inr s" "py_truthy s" "reply_url d = Inr u"
    and dbok: "db_fault e = None" "\<not> unique_violation (db w) (new_content (read_submission rq) u)"
      "\<not> fk_violation (db w) (new_content (read_submission rq) u)"
  shows "dispatch a e rq w =
    (Redirect ''/'',
     w\<lparr>db := (db w)\<lparr>contents := contents (db w) @
                       [(''id'', JInt (next_id (db w))) # (''created_at'', JInt (clock (db w))) #
                        new_content (read_submission rq) u],
                     next_id := next_id (db w) + 1\<rparr>,
       hosted := hosted w @ [(u, file_bytes f)],
       calls := calls w @ [ImgbbPost (imgbb_key a) (file_bytes f),
                           DbInsert ''contents'' (new_content (read_submission rq) u)],
       flashes := flashes w @ [(FlashSuccess, MsgUploaded)]\<rparr>)"
proof -
  have hu: "hosted_url r = Some u" using host(2-6) by (rule hosted_url_accepted)
  have acc: "upload_accepted r d = Inr True" using host by (simp add: upload_accepted_def)
  have "dispatch a e rq w = upload_content a e rq w"
    using route by (simp add: dispatch_upload route_def)
  also have "\<dots> = (Redirect ''/'',
     w\<lparr>db := (db w)\<lparr>contents := contents (db w) @
                       [(''id'', JInt (next_id (db w))) # (''created_at'', JInt (clock (db w))) #
                        new_content (read_submission rq) u],
                     next_id := next_id (db w) + 1\<rparr>,
       hosted := hosted w @ [(u, file_bytes f)],
       calls := calls w @ [ImgbbPost (imgbb_key a) (file_bytes f),
                           DbInsert ''contents'' (new_content (read_submission rq) u)],
       flashes := flashes w @ [(FlashSuccess, MsgUploaded)]\<rparr>)"
    using route(2) fl host dbok hu acc
    by (simp add: upload_post_branch upload_try_def upload_after_host_def imgbb_post_Inr resp_json_def
                  supabase_execute_insert db_insert_def Let_def flash_def log_call_def)
  finally show ?thesis .
qed

text \<open>
  C3. When the image host answers with a JSON body and either a status other than 200 or
  a false success field, no datastore insert is made and nothing is stored: the handler
  flashes the upload-problem notice and redirects back to the form, after one call to
  the host.
\<close>

theorem upload_host_rejects:
  assumes post: "req_method rq = POST" and fl: "files_get rq ''file'' = Some f" "filename f \<noteq> []"
    and host: "host_reply e (imgbb_key a) (file_bytes f) = Inr r" "reply_body r = Some d"
      "status_code r \<noteq> 200 \<or> (\<exists>s. py_getitem d ''success'' = Inr s \<and> \<not> py_truthy s)"
  shows "upload_content a e rq w =
    (Redirect (req_url rq),
     flash MsgUploadProblem FlashError (log_call (ImgbbPost (imgbb_key a) (file_bytes f)) w))"
proof -
  have acc: "upload_accepted r d = Inr False"
    using host(3) by (auto simp: upload_accepted_def)
  have hu: "hosted_url r = None" using host(2) acc by (rule hosted_url_rejected)
  show ?thesis
    using post fl host acc hu
    by (simp add: upload_post_branch upload_try_def upload_after_host_def imgbb_post_Inr resp_json_def log_call_def)
qed

text \<open>
  C14. When the image host answers with a body that is not JSON (an HTML error page of a
  gateway, say), the handler does not give the upload-problem notice, whatever the
  status code: response.json() raises first, and the generic error notice with the
  decoder message is flashed.
\<close>

theorem upload_reply_not_json:
  assumes post: "req_method rq = POST" and fl: "files_get rq ''file'' = Some f" "filename f \<noteq> []"
    and host: "host_reply e (imgbb_key a) (file_bytes f) = Inr r" "reply_body r = None"
  shows "upload_content a e rq w =
    (Redirect (req_url rq),
     flash (MsgErrorOccurred ''Expecting value: line 1 column 1 (char 0)'') FlashError
       (log_call (ImgbbPost (imgbb_key a) (file_bytes f)) w))"
proof -
  have hu: "hosted_url r = None" using host(2) by (simp add: hosted_url_def)
  show ?thesis
    using post fl host hu
    by (simp add: upload_post_branch upload_try_def upload_after_host_def imgbb_post_Inr resp_json_def log_call_def)
qed

text \<open>
  C11. When the image host accepts the image but the datastore insert raises, the image
  stays stored at the host while no row refers to it (no compensation); the user sees
  the exception text and is sent back to the form.
\<close>

theorem upload_insert_fails_orphan:
  assumes post: "req_method rq = POST" and fl: "files_get rq ''file'' = Some f" "filename f \<noteq> []"
    and host: "host_reply e (imgbb_key a) (file_bytes f) = Inr r" "status_code r = 200"
      "reply_body r = Some d" "py_getitem d ''success'' = Inr s" "py_truthy s" "reply_url d = Inr u"
    and fail: "db_fault e = Some x"
  shows "upload_content a e rq w =
    (Redirect (req_url rq),
     flash (MsgErrorOccurred (exc_str x)) FlashError
       (w\<lparr>hosted := hosted w @ [(u, file_bytes f)],
          calls := calls w @ [ImgbbPost (imgbb_key a) (file_bytes f),
                              DbInsert ''contents'' (new_content (read_submission rq) u)]\<rparr>))"
proof -
  have hu: "hosted_url r = Some u" using host(2-6) by (rule hosted_url_accepted)
  have acc: "upload_accepted r d = Inr True" using host by (simp add: upload_accepted_def)
  show ?thesis
    using post fl host fail hu acc
    by (simp add: upload_post_branch upload_try_def upload_after_host_def imgbb_post_Inr resp_json_def log_call_def)
qed

text \<open>
  C27. The application does not check that the submitted category exists; the
  datastore's foreign key refuses the insert, but only after the host has stored the
  image: the client is sent back to the form with the datastore's message, no row is
  added, and the image stays at the host with no record referring to it.
\<close>

theorem upload_unknown_category:
  assumes post: "req_method rq = POST" and fl: "files_get rq ''file'' = Some f" "filename f \<noteq> []"
    and host: "host_reply e (imgbb_key a) (file_bytes f) = Inr r" "hosted_url r = Some u"
    and dbok: "db_fault e = None" "\<not> unique_violation (db w) (new_content (read_submission rq) u)"
    and cat: "form_get rq ''category_id'' = Some c" "JStr c \<notin> set (col_values ''id'' (categories (db w)))"
  shows "upload_content a e rq w =
    (Redirect (req_url rq),
     flash (MsgErrorOccurred ''insert or update on table contents violates foreign key constraint'') FlashError
       (w\<lparr>hosted := hosted w @ [(u, file_bytes f)],
          calls := calls w @ [ImgbbPost (imgbb_key a) (file_bytes f),
                              DbInsert ''contents'' (new_content (read_submission rq) u)]\<rparr>))"
proof -
  from hosted_url_reply [OF host(2)] obtain d where d: "resp_json r = Inr d"
    "upload_accepted r d = Inr True" "reply_url d = Inr u" by blast
  have fk: "fk_violation (db w) (new_content (read_submission rq) u)"
    using cat by (simp add: fk_violation_def new_content_def read_submission_def)
  show ?thesis
    using post fl host dbok d fk
    by (simp add: upload_post_branch upload_try_def upload_after_host_def imgbb_post_Inr
                  supabase_execute_insert db_insert_def log_call_def)
qed

text \<open>
  C13. Every upload submission, whatever its outcome, flashes exactly one notice.
\<close>

theorem upload_post_one_flash:
  assumes "req_method rq = POST" and "upload_content a e rq w = (resp, w')"
  shows "length (flashes w') = Suc (length (flashes w))"
proof (cases "file_truthy (files_get rq ''file'')")
  case False
  with assms show ?thesis by (auto simp: upload_content_def upload_post_def upload_except_def Let_def)
next
  case True
  then obtain f where f: "files_get rq ''file'' = Some f" "filename f \<noteq> []"
    by (cases "files_get rq ''file''") auto
  obtain res w1 where t: "upload_try a e rq (read_submission rq) f w = (res, w1)" by fastforce
  from upload_try_effects [OF t] assms f t show ?thesis
    by (cases res) (auto simp: upload_post_branch)
qed

text \<open>
  C12. Every upload submission makes, in this order, at most one call to the image host
  and then at most one datastore insert, and the insert only ever follows a call to the
  host.
\<close>

theorem upload_post_calls:
  assumes "req_method rq = POST" and "upload_content a e rq w = (resp, w')"
  shows "calls w' = calls w \<or>
         (\<exists>b. calls w' = calls w @ [ImgbbPost (imgbb_key a) b]) \<or>
         (\<exists>b u. calls w' = calls w @ [ImgbbPost (imgbb_key a) b,
                                      DbInsert ''contents'' (new_content (read_submission rq) u)])"
proof (cases "file_truthy (files_get rq ''file'')")
  case False
  with assms show ?thesis by (auto simp: upload_content_def upload_post_def upload_except_def Let_def)
next
  case True
  then obtain f where f: "files_get rq ''file'' = Some f" "filename f \<noteq> []"
    by (cases "files_get rq ''file''") auto
  obtain res w1 where t: "upload_try a e rq (read_submission rq) f w = (res, w1)" by fastforce
  from assms f t have "calls w' = calls w1"
    by (cases res) (auto simp: upload_post_branch)
  with upload_try_effects [OF t] show ?thesis by auto
qed

section \<open>Routing\<close>

text \<open>
  C19. A GET of /content/s, for a non-empty segment s without a slash, is served by the
  detail handler with slug s.
\<close>

theorem dispatch_content_slug:
  assumes "req_path rq = ''/content/'' @ s" and "slug_segment s" and "req_method rq = GET"
  shows "dispatch a e rq w = single_content e s w"
  using assms by (simp add: dispatch_content route_def)

text \<open>
  C28. The router answers 404 for every method, without running any view or changing
  the world, exactly when neither the path nor the path with its double slashes merged
  is one of the rules: /, /upload, /content/ followed by a non-empty segment without a
  slash, and Flask's /static/ followed by a file name.
\<close>

theorem dispatch_unknown_path:
  "(\<forall>m. dispatch a e (rq\<lparr>req_method := m\<rparr>) w = (HttpError 404, w)) \<longleftrightarrow>
   (\<forall>q\<in>{req_path rq, merge_slashes (req_path rq)}.
      q \<noteq> ''/'' \<and> q \<noteq> ''/upload'' \<and> (\<forall>s. q = ''/content/'' @ s \<longrightarrow> \<not> slug_segment s) \<and>
      (\<forall>f. q = ''/static/'' @ f \<longrightarrow> \<not> static_filename f))"
proof
  assume all: "\<forall>m. dispatch a e (rq\<lparr>req_method := m\<rparr>) w = (HttpError 404, w)"
  then have "dispatch a e (rq\<lparr>req_method := OPTIONS\<rparr>) w = (HttpError 404, w)" ..
  then have "match_path (req_path rq) = None \<and> match_path (merge_slashes (req_path rq)) = None"
    by (auto simp: dispatch_def Let_def route_def split: option.splits if_splits)
  then show "\<forall>q\<in>{req_path rq, merge_slashes (req_path rq)}.
      q \<noteq> ''/'' \<and> q \<noteq> ''/upload'' \<and> (\<forall>s. q = ''/content/'' @ s \<longrightarrow> \<not> slug_segment s) \<and>
      (\<forall>f. q = ''/static/'' @ f \<longrightarrow> \<not> static_filename f)"
    by (simp add: match_path_None_iff)
next
  assume "\<forall>q\<in>{req_path rq, merge_slashes (req_path rq)}.
      q \<noteq> ''/'' \<and> q \<noteq> ''/upload'' \<and> (\<forall>s. q = ''/content/'' @ s \<longrightarrow> \<not> slug_segment s) \<and>
      (\<forall>f. q = ''/static/'' @ f \<longrightarrow> \<not> static_filename f)"
  then have "match_path (req_path rq) = None" "match_path (merge_slashes (req_path rq)) = None"
    by (simp_all add: match_path_None_iff)
  then show "\<forall>m. dispatch a e (rq\<lparr>req_method := m\<rparr>) w = (HttpError 404, w)"
    by (simp add: dispatch_def Let_def)
qed


text \<open>
  C33. Flask's static rule, registered by Flask(__name__) although the source never
  names it: /static/f, for a file name f, is sent to send_static_file on GET and HEAD,
  OPTIONS lists GET, HEAD and OPTIONS, and any other method (POST included) is 405;
  the world is unchanged.
\<close>

theorem dispatch_static:
  assumes "req_path rq = ''/static/'' @ f" and "static_filename f"
  shows "dispatch a e rq w =
    (if req_method rq \<in> {GET, HEAD} then (SendStatic f, w)
     else if req_method rq = OPTIONS then (Allow [''GET'', ''HEAD'', ''OPTIONS''], w)
     else (HttpError 405, w))"
proof -
  from assms have "match_path (req_path rq) = Some (RStatic f)" by (simp only: match_path_static)
  then show ?thesis by (simp add: dispatch_def Let_def serve_rule_def route_def)
qed

text \<open>
  C29. A known route called with a method it does not accept (anything but GET and
  HEAD on / and /content/s, anything but GET, HEAD and POST on /upload; OPTIONS apart)
  is answered 405 without running the view: nothing in the world changes.
\<close>

theorem dispatch_method_not_allowed:
  assumes "req_method rq \<noteq> OPTIONS"
    and "(req_path rq = ''/'' \<and> req_method rq \<notin> {GET, HEAD}) \<or>
         (req_path rq = ''/upload'' \<and> req_method rq \<notin> {GET, HEAD, POST}) \<or>
         (\<exists>s. req_path rq = ''/content/'' @ s \<and> slug_segment s \<and> req_method rq \<notin> {GET, HEAD})"
  shows "dispatch a e rq w = (HttpError 405, w)"
  using assms by (auto simp: dispatch_index dispatch_content dispatch_upload route_def)

section \<open>Witnesses\<close>

theorem upload_success_witness:
  "fst (dispatch ex_app (ex_env ex_ok_reply) ex_post ex_world) = Redirect ''/'' \<and>
   length (contents (db (snd (dispatch ex_app (ex_env ex_ok_reply) ex_post ex_world)))) = 1"
proof -
  have h: "req_path ex_post = ''/upload''" "req_method ex_post = POST"
    "files_get ex_post ''file'' = Some ex_file" "filename ex_file \<noteq> []"
    "host_reply (ex_env ex_ok_reply) (imgbb_key ex_app) (file_bytes ex_file) = Inr ex_ok_reply"
    "status_code ex_ok_reply = 200" "reply_body ex_ok_reply = Some ex_ok_body"
    "py_getitem ex_ok_body ''success'' = Inr (JBool True)" "py_truthy (JBool True)"
    "reply_url ex_ok_body = Inr ex_url" "db_fault (ex_env ex_ok_reply) = None"
    "\<not> unique_violation (db ex_world) (new_content (read_submission ex_post) ex_url)"
    "\<not> fk_violation (db ex_world) (new_content (read_submission ex_post) ex_url)"
    by (simp_all add: ex_defs request_defs reply_url_def unique_violation_def fk_violation_def col_values_def new_content_def)
  show ?thesis using upload_success [OF h] by (simp add: ex_world_def ex_db_def)
qed

theorem upload_without_file_witness:
  "upload_content ex_app (ex_env ex_ok_reply) ex_post_no_file ex_world =
     (Redirect ''http://localhost:5000/upload'', flash MsgChooseFile FlashError ex_world)"
proof -
  have h: "req_method ex_post_no_file = POST" "\<not> file_truthy (files_get ex_post_no_file ''file'')"
    by (simp_all add: ex_defs request_defs)
  show ?thesis using upload_without_file [OF h] by (simp add: ex_defs)
qed

theorem upload_host_rejects_witness:
  "fst (upload_content ex_app (ex_env ex_bad_key_reply) ex_post ex_world) = Redirect ''http://localhost:5000/upload'' \<and>
   flashes (snd (upload_content ex_app (ex_env ex_bad_key_reply) ex_post ex_world)) = [(FlashError, MsgUploadProblem)]"
proof -
  obtain d where d: "reply_body ex_bad_key_reply = Some d" by (simp add: ex_bad_key_reply_def)
  have h: "req_method ex_post = POST" "files_get ex_post ''file'' = Some ex_file" "filename ex_file \<noteq> []"
    "host_reply (ex_env ex_bad_key_reply) (imgbb_key ex_app) (file_bytes ex_file) = Inr ex_bad_key_reply"
    "status_code ex_bad_key_reply \<noteq> 200 \<or> (\<exists>s. py_getitem d ''success'' = Inr s \<and> \<not> py_truthy s)"
    by (simp_all add: ex_defs request_defs)
  show ?thesis using upload_host_rejects [OF h(1-4) d h(5)] by (simp add: ex_defs)
qed

theorem upload_reply_not_json_witness:
  "flashes (snd (upload_content ex_app (ex_env ex_gateway_reply) ex_post ex_world)) =
     [(FlashError, MsgErrorOccurred ''Expecting value: line 1 column 1 (char 0)'')]"
proof -
  have h: "req_method ex_post = POST" "files_get ex_post ''file'' = Some ex_file" "filename ex_file \<noteq> []"
    "host_reply (ex_env ex_gateway_reply) (imgbb_key ex_app) (file_bytes ex_file) = Inr ex_gateway_reply"
    "reply_body ex_gateway_reply = None"
    by (simp_all add: ex_defs request_defs)
  show ?thesis using upload_reply_not_json [OF h] by (simp add: ex_defs)
qed

theorem upload_insert_fails_orphan_witness:
  "hosted (snd (upload_content ex_app ex_env_db_down ex_post ex_world)) = [(ex_url, ''PNGDATA'')] \<and>
   contents (db (snd (upload_content ex_app ex_env_db_down ex_post ex_world))) = []"
proof -
  have h: "req_method ex_post = POST" "files_get ex_post ''file'' = Some ex_file" "filename ex_file \<noteq> []"
    "host_reply ex_env_db_down (imgbb_key ex_app) (file_bytes ex_file) = Inr ex_ok_reply"
    "status_code ex_ok_reply = 200" "reply_body ex_ok_reply = Some ex_ok_body"
    "py_getitem ex_ok_body ''success'' = Inr (JBool True)" "py_truthy (JBool True)"
    "reply_url ex_ok_body = Inr ex_url" "db_fault ex_env_db_down = Some (APIError ''connection refused'')"
    by (simp_all add: ex_defs request_defs reply_url_def)
  show ?thesis using upload_insert_fails_orphan [OF h] by (simp add: ex_world_def ex_db_def ex_file_def)
qed

theorem upload_unknown_category_witness:
  "fst (upload_content ex_app (ex_env ex_ok_reply) ex_post_unknown_category ex_world) =
     Redirect ''http://localhost:5000/upload'' \<and>
   contents (db (snd (upload_content ex_app (ex_env ex_ok_reply) ex_post_unknown_category ex_world))) = [] \<and>
   hosted (snd (upload_content ex_app (ex_env ex_ok_reply) ex_post_unknown_category ex_world)) = [(ex_url, ''PNGDATA'')]"
proof -
  have h: "req_method ex_post_unknown_category = POST"
    "files_get ex_post_unknown_category ''file'' = Some ex_file" "filename ex_file \<noteq> []"
    "host_reply (ex_env ex_ok_reply) (imgbb_key ex_app) (file_bytes ex_file) = Inr ex_ok_reply"
    "hosted_url ex_ok_reply = Some ex_url" "db_fault (ex_env ex_ok_reply) = None"
    "\<not> unique_violation (db ex_world) (new_content (read_submission ex_post_unknown_category) ex_url)"
    "form_get ex_post_unknown_category ''category_id'' = Some ''c9''"
    "JStr ''c9'' \<notin> set (col_values ''id'' (categories (db ex_world)))"
    by (simp_all add: ex_defs request_defs hosted_url_def unique_violation_def col_values_def new_content_def)
  show ?thesis using upload_unknown_category [OF h] by (simp add: ex_defs)
qed

theorem upload_post_one_flash_witness:
  "length (flashes (snd (upload_content ex_app (ex_env ex_gateway_reply) ex_post ex_world))) = 1"
proof -
  have h: "req_method ex_post = POST" by (simp add: ex_post_def)
  obtain resp w' where eq: "upload_content ex_app (ex_env ex_gateway_reply) ex_post ex_world = (resp, w')"
    by fastforce
  have "length (flashes w') = Suc (length (flashes ex_world))"
    using h eq by (rule upload_post_one_flash)
  with eq show ?thesis by (simp add: ex_world_def)
qed

theorem upload_post_calls_witness:
  "calls (snd (upload_content ex_app ex_env_db_down ex_post ex_world)) = [] \<or>
   (\<exists>b. calls (snd (upload_content ex_app ex_env_db_down ex_post ex_world)) = [ImgbbPost (Some ''KEY'') b]) \<or>
   (\<exists>b u. calls (snd (upload_content ex_app ex_env_db_down ex_post ex_world)) =
          [ImgbbPost (Some ''KEY'') b, DbInsert ''contents'' (new_content (read_submission ex_post) u)])"
proof -
  have h: "req_method ex_post = POST" by (simp add: ex_post_def)
  obtain resp w' where eq: "upload_content ex_app ex_env_db_down ex_post ex_world = (resp, w')"
    by fastforce
  have "calls w' = calls ex_world \<or>
         (\<exists>b. calls w' = calls ex_world @ [ImgbbPost (imgbb_key ex_app) b]) \<or>
         (\<exists>b u. calls w' = calls ex_world @ [ImgbbPost (imgbb_key ex_app) b,
                                      DbInsert ''contents'' (new_content (read_submission ex_post) u)])"
    using h eq by (rule upload_post_calls)
  with eq show ?thesis by (simp add: ex_world_def ex_app_def)
qed

theorem upload_form_lists_categories_witness:
  "fst (upload_content ex_app (ex_env ex_ok_reply) (ex_get ''/upload'') ex_world) =
     Render ''upload.html'' [(''categories'', JList [JObj [(''id'', JStr ''c1''), (''name_bn'', JStr ''kobita'')]])]"
proof -
  have h: "req_method (ex_get ''/upload'') \<noteq> POST" "db_fault (ex_env ex_ok_reply) = None"
    by (simp_all add: ex_defs)
  show ?thesis using upload_form_lists_categories [OF h] by (simp add: ex_world_def ex_db_def)
qed

theorem upload_form_db_error_witness:
  "dispatch ex_app ex_env_db_down (ex_get ''/upload'') ex_world =
     (HttpError 500, log_call (DbSelect (sb_select SelStar (sb_table ''categories''))) ex_world)"
proof -
  have h: "req_path (ex_get ''/upload'') = ''/upload''" "req_method (ex_get ''/upload'') \<in> {GET, HEAD}"
    "db_fault ex_env_db_down = Some (APIError ''connection refused'')"
    by (simp_all add: ex_get_def ex_env_db_down_def)
  show ?thesis using upload_form_db_error [OF h] .
qed

theorem index_lists_approved_witness:
  "fst (index (ex_env ex_ok_reply) ex_world) = Render ''index.html'' [(''contents'', JList [])]"
proof -
  have h: "db_fault (ex_env ex_ok_reply) = None" by (simp add: ex_env_def)
  from index_lists_approved [OF h, of ex_world] obtain rows where
    "index (ex_env ex_ok_reply) ex_world = (Render ''index.html'' [(''contents'', JList (map JObj rows))],
                              log_call (DbSelect listing_query) ex_world)"
    and "mset rows = mset (map (\<lambda>r. r @ [(''categories'', embed_one (categories (db ex_world)) ''category_id'' [''name_bn''] r)])
                        (filter (\<lambda>r. col r ''is_approved'' = Some (JBool True)) (contents (db ex_world))))"
    by blast
  then show ?thesis by (simp add: ex_world_def ex_db_def)
qed

theorem index_db_error_witness:
  "stdout (snd (index ex_env_db_down ex_world)) = [''Database Error: connection refused'']"
proof -
  have h: "db_fault ex_env_db_down = Some (APIError ''connection refused'')" by (simp add: ex_env_db_down_def)
  show ?thesis using index_db_error [OF h, of ex_world] by (simp add: ex_world_def)
qed

theorem single_content_not_found_witness:
  "fst (single_content (ex_env ex_ok_reply) ''brishti'' ex_world) = HttpError 404"
proof -
  have h: "db_fault (ex_env ex_ok_reply) = None"
    "\<forall>r\<in>set (contents (db ex_world)). col r ''slug'' \<noteq> Some (JStr ''brishti'')"
    by (simp_all add: ex_defs)
  show ?thesis using single_content_not_found [OF h] by simp
qed

theorem single_content_found_witness:
  "fst (single_content (ex_env ex_ok_reply) ''brishti''
          (ex_world\<lparr>db := ex_db\<lparr>contents := [[(''slug'', JStr ''brishti''), (''category_id'', JStr ''c1'')]]\<rparr>\<rparr>)) =
   Render ''single.html''
     [(''content'', JObj [(''slug'', JStr ''brishti''), (''category_id'', JStr ''c1''),
                          (''categories'', JObj [(''name_bn'', JStr ''kobita'')])])]"
proof -
  have h: "db_fault (ex_env ex_ok_reply) = None"
    "filter (\<lambda>r. col r ''slug'' = Some (JStr ''brishti''))
       (contents (db (ex_world\<lparr>db := ex_db\<lparr>contents := [[(''slug'', JStr ''brishti''), (''category_id'', JStr ''c1'')]]\<rparr>\<rparr>)))
     = [(''slug'', JStr ''brishti''), (''category_id'', JStr ''c1'')] # []"
    by (simp_all add: ex_defs)
  show ?thesis
    using single_content_found [OF h]
    by (simp add: ex_db_def embed_one_def project_def)
qed

theorem single_content_db_error_witness:
  "fst (single_content ex_env_db_down ''brishti'' ex_world) = HttpError 500"
proof -
  have h: "db_fault ex_env_db_down = Some (APIError ''connection refused'')" by (simp add: ex_env_db_down_def)
  show ?thesis using single_content_db_error [OF h] by simp
qed

theorem dispatch_content_slug_witness:
  "dispatch ex_app (ex_env ex_ok_reply) (ex_get ''/content/brishti'') ex_world =
   single_content (ex_env ex_ok_reply) ''brishti'' ex_world"
proof -
  have h: "req_path (ex_get ''/content/brishti'') = ''/content/'' @ ''brishti''" "slug_segment ''brishti''"
    "req_method (ex_get ''/content/brishti'') = GET"
    by (simp_all add: ex_get_def slug_segment_def)
  show ?thesis using dispatch_content_slug [OF h] .
qed

theorem dispatch_unknown_path_witness:
  "(\<forall>m. dispatch ex_app (ex_env ex_ok_reply) ((ex_get ''//about'')\<lparr>req_method := m\<rparr>) ex_world =
        (HttpError 404, ex_world)) \<and>
   \<not> (\<forall>m. dispatch ex_app (ex_env ex_ok_reply) ((ex_get ''//upload'')\<lparr>req_method := m\<rparr>) ex_world =
        (HttpError 404, ex_world))"
proof -
  have "\<forall>q\<in>{req_path (ex_get ''//about''), merge_slashes (req_path (ex_get ''//about''))}.
      q \<noteq> ''/'' \<and> q \<noteq> ''/upload'' \<and> (\<forall>s. q = ''/content/'' @ s \<longrightarrow> \<not> slug_segment s) \<and>
      (\<forall>f. q = ''/static/'' @ f \<longrightarrow> \<not> static_filename f)"
    by (simp add: ex_get_def)
  moreover have "\<not> (\<forall>q\<in>{req_path (ex_get ''//upload''), merge_slashes (req_path (ex_get ''//upload''))}.
      q \<noteq> ''/'' \<and> q \<noteq> ''/upload'' \<and> (\<forall>s. q = ''/content/'' @ s \<longrightarrow> \<not> slug_segment s) \<and>
      (\<forall>f. q = ''/static/'' @ f \<longrightarrow> \<not> static_filename f))"
    by (simp add: ex_get_def)
  ultimately show ?thesis
    using dispatch_unknown_path [of ex_app "ex_env ex_ok_reply" "ex_get ''//about''" ex_world]
          dispatch_unknown_path [of ex_app "ex_env ex_ok_reply" "ex_get ''//upload''" ex_world]
    by blast
qed


theorem dispatch_static_witness:
  "dispatch ex_app (ex_env ex_ok_reply) (ex_get ''/static/style.css'') ex_world = (SendStatic ''style.css'', ex_world) \<and>
   dispatch ex_app (ex_env ex_ok_reply) ((ex_get ''/static/style.css'')\<lparr>req_method := POST\<rparr>) ex_world =
     (HttpError 405, ex_world)"
proof -
  have h: "req_path (ex_get ''/static/style.css'') = ''/static/'' @ ''style.css''" "static_filename ''style.css''"
    by (simp_all add: ex_get_def static_filename_def)
  have h2: "req_path ((ex_get ''/static/style.css'')\<lparr>req_method := POST\<rparr>) = ''/static/'' @ ''style.css''"
    by (simp add: ex_get_def)
  show ?thesis
    using dispatch_static [OF h, of ex_app "ex_env ex_ok_reply" ex_world]
          dispatch_static [OF h2 h(2), of ex_app "ex_env ex_ok_reply" ex_world]
    by (simp add: ex_get_def)
qed

theorem dispatch_method_not_allowed_witness:
  "dispatch ex_app (ex_env ex_ok_reply) ((ex_get ''/'')\<lparr>req_method := POST\<rparr>) ex_world = (HttpError 405, ex_world)"
proof -
  have h: "req_method ((ex_get ''/'')\<lparr>req_method := POST\<rparr>) \<noteq> OPTIONS"
    "(req_path ((ex_get ''/'')\<lparr>req_method := POST\<rparr>) = ''/'' \<and>
      req_method ((ex_get ''/'')\<lparr>req_method := POST\<rparr>) \<notin> {GET, HEAD}) \<or>
     (req_path ((ex_get ''/'')\<lparr>req_method := POST\<rparr>) = ''/upload'' \<and>
      req_method ((ex_get ''/'')\<lparr>req_method := POST\<rparr>) \<notin> {GET, HEAD, POST}) \<or>
     (\<exists>s. req_path ((ex_get ''/'')\<lparr>req_method := POST\<rparr>) = ''/content/'' @ s \<and> slug_segment s \<and>
          req_method ((ex_get ''/'')\<lparr>req_method := POST\<rparr>) \<notin> {GET, HEAD})"
    by (simp_all add: ex_get_def)
  show ?thesis using dispatch_method_not_allowed [OF h] .
qed

end
