(* ===== verification/Catalogue.thy ===== *)
theory Catalogue
  imports Handlers
begin

text \<open>
  The abstract specification of the site: what a visitor can see is a catalogue of
  items (title, description, slug, alt text, category, image), the approved rows of the
  \<open>contents\<close> table seen through \<open>catalogue\<close>. The one abstract operation is
  \<open>publish\<close>: a submitted item, with the image the host stored, is appended. The
  lemmas relate an insert of the datastore to it; the refinement theorems of the root
  theory lift them to requests and to concurrent runs.
\<close>

text \<open>What a visitor can see: the approved items with their text, category and image.\<close>

record item =
  it_title :: json
  it_description :: json
  it_slug :: json
  it_alt_text :: json
  it_category :: json
  it_image :: json

definition cell :: "row \<Rightarrow> string \<Rightarrow> json" where
  "cell r c = (case col r c of Some v \<Rightarrow> v | None \<Rightarrow> JNull)"

definition row_item :: "row \<Rightarrow> item" where
  "row_item r =
     \<lparr>it_title = cell r ''title'', it_description = cell r ''description'', it_slug = cell r ''slug'',
      it_alt_text = cell r ''alt_text'', it_category = cell r ''category_id'', it_image = cell r ''file_url''\<rparr>"

definition catalogue :: "db_state \<Rightarrow> item list" where
  "catalogue d = map row_item (filter (\<lambda>r. col r ''is_approved'' = Some (JBool True)) (contents d))"

text \<open>The abstract operation of a successful upload: the submitted item, with the image
  the host stored, is appended to the catalogue.\<close>

definition submitted_item :: "submission \<Rightarrow> json \<Rightarrow> item" where
  "submitted_item s u =
     \<lparr>it_title = opt_json (s_title s), it_description = opt_json (s_description s),
      it_slug = opt_json (s_slug s), it_alt_text = opt_json (s_alt_text s),
      it_category = opt_json (s_category_id s), it_image = u\<rparr>"

definition publish :: "item list \<Rightarrow> submission \<Rightarrow> json \<Rightarrow> item list" where
  "publish items s u = items @ [submitted_item s u]"

lemma row_item_inserted:
  "row_item ((''id'', JInt i) # (''created_at'', JInt t) # new_content s u) = submitted_item s u"
  by (simp add: row_item_def cell_def new_content_def submitted_item_def)

lemma catalogue_insert:
  assumes "db_insert d ''contents'' (new_content s u) = Inr (out, d')"
  shows "catalogue d' = publish (catalogue d) s u"
proof -
  let ?new = "(''id'', JInt (next_id d)) # (''created_at'', JInt (clock d)) # new_content s u"
  from assms have "contents d' = contents d @ [?new]" by (simp add: db_insert_Inr)
  moreover have "col ?new ''is_approved'' = Some (JBool True)" by (simp add: new_content_def)
  ultimately show ?thesis
    by (simp add: catalogue_def publish_def row_item_inserted)
qed


end
