(* ===== verification/App_Run.thy ===== *)
theory App_Run
  imports Handlers
begin

text \<open>
  Runs of the application. The handlers share no process state, so what persists
  between requests is the world: the datastore, the images at the host, the session's
  flash queue. A step of the system is one request served by \<open>dispatch\<close> (with any
  decisions of the environment), the datastore's clock moving forward, or the
  categories table edited outside the application (the spec: categories are managed
  elsewhere). The reachable worlds start from an empty \<open>contents\<close> table.
  \<open>world_inv\<close> is what every reachable world satisfies: each published row is
  approved, belongs to the placeholder user, has an image stored at the host, an
  \<open>id\<close> below the sequence and a \<open>created_at\<close> not after the clock; ids are
  distinct, and slugs are distinct when the schema declares them unique.
\<close>

inductive app_step :: "app \<Rightarrow> world \<Rightarrow> world \<Rightarrow> bool" for a :: app where
  serve: "app_step a w (snd (dispatch a e rq w))"
| tick: "0 \<le> d \<Longrightarrow> app_step a w (w\<lparr>db := (db w)\<lparr>clock := clock (db w) + d\<rparr>\<rparr>)"
| edit_categories: "app_step a w (w\<lparr>db := (db w)\<lparr>categories := cs\<rparr>\<rparr>)"

inductive reachable :: "app \<Rightarrow> world \<Rightarrow> bool" for a :: app where
  init: "contents (db w) = [] \<Longrightarrow> reachable a w"
| step: "reachable a w \<Longrightarrow> app_step a w w' \<Longrightarrow> reachable a w'"

definition row_inv :: "world \<Rightarrow> row \<Rightarrow> bool" where
  "row_inv w r =
     (col r ''is_approved'' = Some (JBool True) \<and>
      col r ''user_id'' = Some (JStr ''DEFAULT_USER_ID'') \<and>
      (case col r ''file_url'' of Some u \<Rightarrow> u \<in> fst ` set (hosted w) | None \<Rightarrow> False) \<and>
      (case col r ''id'' of Some (JInt i) \<Rightarrow> i < next_id (db w) | _ \<Rightarrow> False) \<and>
      (case col r ''created_at'' of Some (JInt t) \<Rightarrow> t \<le> clock (db w) | _ \<Rightarrow> False))"

definition world_inv :: "world \<Rightarrow> bool" where
  "world_inv w =
     ((\<forall>r\<in>set (contents (db w)). row_inv w r) \<and>
      distinct (col_values ''id'' (contents (db w))) \<and>
      (slug_unique (db w) \<longrightarrow> distinct (col_values ''slug'' (contents (db w)))))"

text \<open>After the host's reply the body touches the images at the host no more; it either
  leaves the datastore as it was or inserts the record for the URL the host has stored.\<close>

lemma upload_after_host_db:
  assumes "upload_after_host e rq s r w = (res, w1)"
  shows "hosted w1 = hosted w \<and>
    (db w1 = db w \<or>
     (\<exists>u out. hosted_url r = Some u \<and> db_insert (db w) ''contents'' (new_content s u) = Inr (out, db w1) \<and>
               res = Inr (Redirect ''/'')))"
proof (cases "\<exists>d u. resp_json r = Inr d \<and> upload_accepted r d = Inr True \<and> reply_url d = Inr u")
  case True
  then obtain d u where d: "resp_json r = Inr d" and acc: "upload_accepted r d = Inr True"
    and u: "reply_url d = Inr u" by blast
  from d acc u have h: "hosted_url r = Some u"
    by (auto simp: resp_json_def upload_accepted_def hosted_url_def reply_url_def
             split: option.splits sum.splits if_splits)
  obtain ir wb where ins: "supabase_execute e (DbInsert ''contents'' (new_content s u)) w = (ir, wb)"
    by fastforce
  note fb = supabase_execute_frame [OF ins]
  have res: "(res, w1) = (case ir of Inl x \<Rightarrow> (Inl x, wb) | Inr _ \<Rightarrow> (Inr (Redirect ''/''), flash MsgUploaded FlashSuccess wb))"
    using assms d acc u ins by (simp add: upload_after_host_def)
  show ?thesis
  proof (cases ir)
    case (Inl x)
    with res fb show ?thesis by auto
  next
    case (Inr out)
    with ins have "db_insert (db w) ''contents'' (new_content s u) = Inr (out, db wb)"
      by (auto simp: supabase_execute_def Let_def split: option.splits sum.splits)
    with res fb h Inr show ?thesis by auto
  qed
next
  case False
  then have "w1 = w \<or> w1 = flash MsgUploadProblem FlashError w"
    using assms by (auto simp: upload_after_host_def split: sum.splits bool.splits)
  then show ?thesis by auto
qed

lemma upload_try_db:
  assumes "upload_try a e rq s f w = (res, w1)"
  shows "(\<exists>hs. hosted w1 = hosted w @ hs) \<and>
    (db w1 = db w \<or>
     (\<exists>u out. u \<in> fst ` set (hosted w1) \<and> db_insert (db w) ''contents'' (new_content s u) = Inr (out, db w1) \<and>
               res = Inr (Redirect ''/'')))"
proof -
  obtain hr wa where post: "imgbb_post a e (file_bytes f) w = (hr, wa)" by fastforce
  note fa = imgbb_post_frame [OF post] and ha = imgbb_post_hosted [OF post]
  show ?thesis
  proof (cases hr)
    case (Inl x)
    with assms post fa ha show ?thesis by (simp add: upload_try_def)
  next
    case (Inr r)
    with assms post have after: "upload_after_host e rq s r wa = (res, w1)" by (simp add: upload_try_def)
    note h = upload_after_host_db [OF after]
    from h fa ha Inr show ?thesis by (auto split: option.splits)
  qed
qed

lemma upload_except_db [simp]: "db (snd (upload_except rq rw)) = db (snd rw)"
  by (simp add: upload_except_def split: prod.split sum.split)

lemma upload_except_hosted [simp]: "hosted (snd (upload_except rq rw)) = hosted (snd rw)"
  by (simp add: upload_except_def split: prod.split sum.split)

text \<open>The submission branch, whatever happens, leaves the datastore as it was or has
  inserted the record of its form.\<close>

lemma upload_post_db:
  "db (snd (upload_post a e rq w)) = db w \<or>
   (\<exists>u out. db_insert (db w) ''contents'' (new_content (read_submission rq) u) =
              Inr (out, db (snd (upload_post a e rq w))))"
proof (cases "file_truthy (files_get rq ''file'')")
  case True
  obtain res w1 where t: "upload_try a e rq (read_submission rq) (the (files_get rq ''file'')) w = (res, w1)"
    by fastforce
  have "db (snd (upload_post a e rq w)) = db w1"
    using True t by (simp add: upload_post_def Let_def)
  with upload_try_db [OF t] show ?thesis by auto
next
  case False
  then show ?thesis by (simp add: upload_post_def Let_def)
qed

text \<open>Once the host has stored the image, the contents table is left as it was exactly
  when the insert fails: the datastore is unreachable, the slug is taken, or the
  category does not exist.\<close>

lemma upload_after_host_contents:
  assumes aft: "upload_after_host e rq s r w = (res, w1)" and u: "hosted_url r = Some u"
  shows "contents (db w1) = contents (db w) \<longleftrightarrow>
    (db_fault e \<noteq> None \<or> unique_violation (db w) (new_content s u) \<or> fk_violation (db w) (new_content s u))"
proof -
  from hosted_url_reply [OF u] obtain d where d: "resp_json r = Inr d"
    "upload_accepted r d = Inr True" "reply_url d = Inr u" by blast
  show ?thesis
  proof (cases "db_fault e")
    case (Some x)
    with aft d show ?thesis by (auto simp: upload_after_host_def)
  next
    case None
    with aft d show ?thesis
      by (auto simp: upload_after_host_def supabase_execute_insert db_insert_def Let_def split: if_splits)
  qed
qed

lemma select_handler_frame:
  assumes "supabase_execute e (DbSelect q) w = (res, w1)"
  shows "db w1 = db w \<and> hosted w1 = hosted w \<and> flashes w1 = flashes w"
  using supabase_execute_select_db [OF assms] supabase_execute_frame [OF assms] by simp

lemma index_frame:
  "index e w = (resp, w') \<Longrightarrow> db w' = db w \<and> hosted w' = hosted w \<and> flashes w' = flashes w"
  by (cases "supabase_execute e (DbSelect listing_query) w")
     (auto simp: index_def dest: select_handler_frame split: sum.splits)

lemma single_content_frame:
  "single_content e s w = (resp, w') \<Longrightarrow> db w' = db w \<and> hosted w' = hosted w \<and> flashes w' = flashes w"
  by (cases "supabase_execute e (DbSelect (slug_query s)) w")
     (auto simp: single_content_def dest: select_handler_frame split: sum.splits list.splits)

lemma upload_form_frame:
  "upload_form e w = (resp, w') \<Longrightarrow> db w' = db w \<and> hosted w' = hosted w \<and> flashes w' = flashes w"
  by (cases "supabase_execute e (DbSelect (sb_select SelStar (sb_table ''categories''))) w")
     (auto simp: upload_form_def dest: select_handler_frame split: sum.splits)

lemma upload_content_db:
  assumes "upload_content a e rq w = (resp, w')"
  shows "(\<exists>hs. hosted w' = hosted w @ hs) \<and>
    (db w' = db w \<or>
     (\<exists>u out. u \<in> fst ` set (hosted w') \<and>
        db_insert (db w) ''contents'' (new_content (read_submission rq) u) = Inr (out, db w') \<and>
        resp = Redirect ''/''))"
proof (cases "req_method rq = POST \<and> file_truthy (files_get rq ''file'')")
  case True
  then obtain f where f: "req_method rq = POST" "files_get rq ''file'' = Some f" "filename f \<noteq> []"
    by (cases "files_get rq ''file''") auto
  obtain res w1 where t: "upload_try a e rq (read_submission rq) f w = (res, w1)" by fastforce
  from assms f t have "(w' = w1 \<and> res = Inr resp) \<or> (\<exists>x. res = Inl x \<and> w' = flash (MsgErrorOccurred (exc_str x)) FlashError w1)"
    by (cases res) (auto simp: upload_post_branch)
  with upload_try_db [OF t] show ?thesis by fastforce
next
  case False
  with assms show ?thesis
    by (cases "req_method rq = POST")
       (auto simp: upload_content_def upload_post_def upload_except_def Let_def dest: upload_form_frame)
qed

lemma dispatch_db:
  assumes "dispatch a e rq w = (resp, w')"
  shows "(\<exists>hs. hosted w' = hosted w @ hs) \<and>
    (db w' = db w \<or>
     (\<exists>u out. u \<in> fst ` set (hosted w') \<and>
        db_insert (db w) ''contents'' (new_content (read_submission rq) u) = Inr (out, db w') \<and>
        resp = Redirect ''/''))"
  using dispatch_view [OF assms]
  by (auto dest!: index_frame single_content_frame upload_content_db)


text \<open>The remote calls of a request: the read-only handlers make one select; every post
  to the image host carries the key the application was started with.\<close>

lemma select_handler_calls:
  "supabase_execute e (DbSelect q) w = (res, w1) \<Longrightarrow> calls w1 = calls w @ [DbSelect q]"
  by (drule supabase_execute_frame) simp

lemma index_calls: "index e w = (resp, w') \<Longrightarrow> calls w' = calls w @ [DbSelect listing_query]"
  by (cases "supabase_execute e (DbSelect listing_query) w")
     (auto simp: index_def dest: select_handler_calls split: sum.splits)

lemma single_content_calls:
  "single_content e s w = (resp, w') \<Longrightarrow> calls w' = calls w @ [DbSelect (slug_query s)]"
  by (cases "supabase_execute e (DbSelect (slug_query s)) w")
     (auto simp: single_content_def dest: select_handler_calls split: sum.splits list.splits)

lemma upload_form_calls:
  "upload_form e w = (resp, w') \<Longrightarrow> calls w' = calls w @ [DbSelect (sb_select SelStar (sb_table ''categories''))]"
  by (cases "supabase_execute e (DbSelect (sb_select SelStar (sb_table ''categories''))) w")
     (auto simp: upload_form_def dest: select_handler_calls split: sum.splits)

lemma upload_content_host_key:
  assumes "upload_content a e rq w = (resp, w')"
  shows "\<exists>new. calls w' = calls w @ new \<and> (\<forall>k b. ImgbbPost k b \<in> set new \<longrightarrow> k = imgbb_key a)"
proof (cases "req_method rq = POST \<and> file_truthy (files_get rq ''file'')")
  case True
  then obtain f where f: "req_method rq = POST" "files_get rq ''file'' = Some f" "filename f \<noteq> []"
    by (cases "files_get rq ''file''") auto
  obtain res w1 where t: "upload_try a e rq (read_submission rq) f w = (res, w1)" by fastforce
  from assms f t have "calls w' = calls w1"
    by (cases res) (auto simp: upload_post_branch)
  with upload_try_effects [OF t] show ?thesis by auto
next
  case False
  with assms show ?thesis
    by (cases "req_method rq = POST")
       (auto simp: upload_content_def upload_post_def Let_def dest: upload_form_calls)
qed

lemma dispatch_host_key:
  assumes "dispatch a e rq w = (resp, w')"
  shows "\<exists>new. calls w' = calls w @ new \<and> (\<forall>k b. ImgbbPost k b \<in> set new \<longrightarrow> k = imgbb_key a)"
  using dispatch_view [OF assms]
  by (auto dest!: index_calls single_content_calls upload_content_host_key)

lemma row_inv_mono:
  assumes "row_inv w r" and "set (hosted w) \<subseteq> set (hosted w')"
    and "next_id (db w) \<le> next_id (db w')" and "clock (db w) \<le> clock (db w')"
  shows "row_inv w' r"
  using assms
  by (auto simp: row_inv_def split: option.splits json.splits)

lemma id_fresh:
  "\<forall>r\<in>set rs. (case col r c of Some (JInt i) \<Rightarrow> i < n | _ \<Rightarrow> False) \<Longrightarrow> JInt n \<notin> set (col_values c rs)"
  by (induction rs) (auto split: option.splits json.splits if_splits)

lemma new_row_inv:
  assumes "u \<in> fst ` set (hosted w')" and "next_id (db w') = next_id (db w) + 1"
    and "clock (db w') = clock (db w)"
  shows "row_inv w' ((''id'', JInt (next_id (db w))) # (''created_at'', JInt (clock (db w))) # new_content s u)"
  using assms by (simp add: row_inv_def new_content_def)

lemma world_inv_same_db:
  "world_inv w \<Longrightarrow> db w' = db w \<Longrightarrow> set (hosted w) \<subseteq> set (hosted w') \<Longrightarrow> world_inv w'"
  by (auto simp: world_inv_def intro: row_inv_mono)

lemma world_inv_insert:
  assumes inv: "world_inv w" and hw: "set (hosted w) \<subseteq> set (hosted w')"
    and u: "u \<in> fst ` set (hosted w')"
    and ins: "db_insert (db w) ''contents'' (new_content s u) = Inr (out, db w')"
  shows "world_inv w'"
proof -
  let ?new = "(''id'', JInt (next_id (db w))) # (''created_at'', JInt (clock (db w))) # new_content s u"
  from ins have c: "contents (db w') = contents (db w) @ [?new]"
    and n: "next_id (db w') = next_id (db w) + 1" and k: "clock (db w') = clock (db w)"
    and su: "slug_unique (db w') = slug_unique (db w)"
    by (auto simp: db_insert_Inr)
  have old: "\<forall>r\<in>set (contents (db w)). row_inv w' r"
    using inv hw n k by (auto simp: world_inv_def intro: row_inv_mono)
  have new: "row_inv w' ?new" using u n k by (rule new_row_inv)
  have "\<forall>r\<in>set (contents (db w)). (case col r ''id'' of Some (JInt i) \<Rightarrow> i < next_id (db w) | _ \<Rightarrow> False)"
    using inv by (auto simp: world_inv_def row_inv_def)
  then have "JInt (next_id (db w)) \<notin> set (col_values ''id'' (contents (db w)))"
    by (rule id_fresh)
  then have ids: "distinct (col_values ''id'' (contents (db w')))"
    using inv c by (simp add: world_inv_def)
  have slugs: "slug_unique (db w') \<longrightarrow> distinct (col_values ''slug'' (contents (db w')))"
    using inv ins su db_insert_slug_unique [of "db w"] by (auto simp: world_inv_def)
  show ?thesis
    using old new ids slugs c by (simp add: world_inv_def)
qed

lemma dispatch_world_inv:
  assumes "world_inv w" and "dispatch a e rq w = (resp, w')"
  shows "world_inv w'"
proof -
  from dispatch_db [OF assms(2)] obtain hs where hs: "hosted w' = hosted w @ hs"
    and d: "db w' = db w \<or>
            (\<exists>u out. u \<in> fst ` set (hosted w') \<and>
               db_insert (db w) ''contents'' (new_content (read_submission rq) u) = Inr (out, db w') \<and>
               resp = Redirect ''/'')"
    by blast
  have sub: "set (hosted w) \<subseteq> set (hosted w')" using hs by auto
  from d show ?thesis
  proof
    assume "db w' = db w"
    from assms(1) this sub show ?thesis by (rule world_inv_same_db)
  next
    assume "\<exists>u out. u \<in> fst ` set (hosted w') \<and>
      db_insert (db w) ''contents'' (new_content (read_submission rq) u) = Inr (out, db w') \<and>
      resp = Redirect ''/''"
    with assms(1) sub show ?thesis by (blast intro: world_inv_insert)
  qed
qed

lemma app_step_world_inv: "app_step a w w' \<Longrightarrow> world_inv w \<Longrightarrow> world_inv w'"
proof (induction rule: app_step.induct)
  case (serve w e rq)
  then show ?case
    by (cases "dispatch a e rq w") (auto intro: dispatch_world_inv)
next
  case (tick d w)
  then show ?case
    by (auto simp: world_inv_def intro: row_inv_mono)
next
  case (edit_categories w cs)
  then show ?case
    by (auto simp: world_inv_def intro: row_inv_mono)
qed

text \<open>
  C8. Every reachable world satisfies the invariant: each published row is approved,
  owned by the placeholder user, has its image stored at the host, an id below the
  sequence and a creation time not after the clock; ids are distinct; and slugs are
  distinct whenever the schema declares them unique.
\<close>

theorem reachable_world_inv: "reachable a w \<Longrightarrow> world_inv w"
proof (induction rule: reachable.induct)
  case (init w)
  then show ?case by (simp add: world_inv_def)
next
  case (step w w')
  then show ?case by (blast intro: app_step_world_inv)
qed


lemma single_filter_unique:
  assumes "length xs \<le> 1" and "r \<in> set xs"
  shows "xs = [r]"
  using assms by (cases xs) auto

lemma reachable_all_approved:
  "reachable a w \<Longrightarrow> filter (\<lambda>r. col r ''is_approved'' = Some (JBool True)) (contents (db w)) = contents (db w)"
  by (auto dest!: reachable_world_inv simp: world_inv_def row_inv_def)

text \<open>
  C16. In every reachable world the listing shows every published row: all rows are
  approved, so the listing is the whole contents table joined with the category names,
  as a permutation sorted by created_at in descending order.
\<close>

theorem reachable_listing_complete:
  assumes "reachable a w" and "db_fault e = None"
  shows "\<exists>rows. fst (index e w) = Render ''index.html'' [(''contents'', JList (map JObj rows))] \<and>
     mset rows = mset (map (\<lambda>r. r @ [(''categories'', embed_one (categories (db w)) ''category_id'' [''name_bn''] r)])
                        (contents (db w))) \<and>
     sorted_wrt (\<ge>) (map (\<lambda>r. sort_int (col r ''created_at'')) rows)"
proof -
  let ?emb = "\<lambda>r. r @ [(''categories'', embed_one (categories (db w)) ''category_id'' [''name_bn''] r)]"
  let ?sel = "order_rows (Some (''created_at'', True)) (contents (db w))"
  have "fst (index e w) = Render ''index.html'' [(''contents'', JList (map JObj (map ?emb ?sel)))]"
    using index_select [OF assms(2), of w] reachable_all_approved [OF assms(1)] by simp
  moreover have "mset (map ?emb ?sel) = mset (map ?emb (contents (db w)))" by simp
  moreover have "sorted_wrt (\<ge>) (map (\<lambda>r. sort_int (col r ''created_at'')) (map ?emb ?sel))"
    using sorted_order_rows_desc by (simp add: comp_def)
  ultimately show ?thesis by blast
qed

text \<open>
  C17. When the schema declares slugs unique, in every reachable world the detail page of
  a slug shows the one row that has it: the detail handler's "first matching row" is the
  only one.
\<close>

theorem reachable_detail_unique:
  assumes "reachable a w" and "slug_unique (db w)" and "db_fault e = None"
    and "r \<in> set (contents (db w))" and "col r ''slug'' = Some (JStr s)"
  shows "fst (single_content e s w) =
    Render ''single.html''
      [(''content'', JObj (r @ [(''categories'', embed_one (categories (db w)) ''category_id'' [''name_bn''] r)]))]"
proof -
  have "distinct (col_values ''slug'' (contents (db w)))"
    using reachable_world_inv [OF assms(1)] assms(2) by (simp add: world_inv_def)
  then have "length (filter (\<lambda>r. col r ''slug'' = Some (JStr s)) (contents (db w))) \<le> 1"
    by (rule unique_col_at_most_one) simp
  moreover have "r \<in> set (filter (\<lambda>r. col r ''slug'' = Some (JStr s)) (contents (db w)))"
    using assms(4,5) by simp
  ultimately have "filter (\<lambda>r. col r ''slug'' = Some (JStr s)) (contents (db w)) = [r]"
    by (rule single_filter_unique)
  then show ?thesis
    using single_content_select [OF assms(3), of s w] by simp
qed


text \<open>
  C23. Requests other than a POST are read-only: whatever the route and the
  environment, they change neither the datastore, nor the images at the host, nor the
  session's flash queue (HEAD and OPTIONS included).
\<close>

theorem non_post_requests_read_only:
  assumes "req_method rq \<noteq> POST" and "dispatch a e rq w = (resp, w')"
  shows "db w' = db w \<and> hosted w' = hosted w \<and> flashes w' = flashes w"
  using dispatch_view [OF assms(2)] assms(1)
  by (auto simp: upload_content_def dest!: index_frame single_content_frame upload_form_frame)

section \<open>Witnesses\<close>

lemma ex_publish_run:
  "dispatch ex_app (ex_env ex_ok_reply) ex_post ex_world = (Redirect ''/'', ex_world_published)"
proof -
  have h: "req_method ex_post = POST"
    "files_get ex_post ''file'' = Some ex_file" "filename ex_file \<noteq> []"
    "host_reply (ex_env ex_ok_reply) (imgbb_key ex_app) (file_bytes ex_file) = Inr ex_ok_reply"
    "status_code ex_ok_reply = 200" "reply_body ex_ok_reply = Some ex_ok_body"
    "py_getitem ex_ok_body ''success'' = Inr (JBool True)" "py_truthy (JBool True)"
    "reply_url ex_ok_body = Inr ex_url" "db_fault (ex_env ex_ok_reply) = None"
    "\<not> unique_violation (db ex_world) (new_content (read_submission ex_post) ex_url)"
    "\<not> fk_violation (db ex_world) (new_content (read_submission ex_post) ex_url)"
    by (simp_all add: ex_defs request_defs reply_url_def unique_violation_def fk_violation_def col_values_def new_content_def)
  have "dispatch ex_app (ex_env ex_ok_reply) ex_post ex_world = upload_content ex_app (ex_env ex_ok_reply) ex_post ex_world"
    by (simp add: dispatch_upload route_def ex_post_def)
  also have "\<dots> = (Redirect ''/'', ex_world_published)"
    using upload_content_accepted [OF h]
    by (simp add: ex_defs request_defs new_content_def)
  finally show ?thesis .
qed

lemma ex_published_reachable: "reachable ex_app ex_world_published"
proof -
  have "reachable ex_app ex_world" by (rule reachable.init) (simp add: ex_world_def ex_db_def)
  then have "reachable ex_app (snd (dispatch ex_app (ex_env ex_ok_reply) ex_post ex_world))"
    by (rule reachable.step) (rule app_step.serve)
  then show ?thesis by (simp add: ex_publish_run)
qed

theorem reachable_world_inv_witness: "world_inv ex_world_published"
  using ex_published_reachable by (rule reachable_world_inv)

theorem reachable_listing_complete_witness:
  "fst (index (ex_env ex_ok_reply) ex_world_published) =
   Render ''index.html''
     [(''contents'', JList [JObj (ex_row @ [(''categories'', JObj [(''name_bn'', JStr ''kobita'')])])])]"
proof -
  have h: "db_fault (ex_env ex_ok_reply) = None" by (simp add: ex_env_def)
  from reachable_listing_complete [OF ex_published_reachable h] obtain rows where
    "fst (index (ex_env ex_ok_reply) ex_world_published) = Render ''index.html'' [(''contents'', JList (map JObj rows))]"
    and "mset rows = mset (map (\<lambda>r. r @ [(''categories'', embed_one (categories (db ex_world_published)) ''category_id'' [''name_bn''] r)])
                        (contents (db ex_world_published)))"
    by blast
  then show ?thesis
    by (simp add: ex_world_published_def ex_db_def ex_row_def ex_new_content_def embed_one_def project_def)
qed

theorem reachable_detail_unique_witness:
  "fst (single_content (ex_env ex_ok_reply) ''brishti'' ex_world_published) =
   Render ''single.html'' [(''content'', JObj (ex_row @ [(''categories'', JObj [(''name_bn'', JStr ''kobita'')])]))]"
proof -
  have h: "slug_unique (db ex_world_published)" "db_fault (ex_env ex_ok_reply) = None"
    "ex_row \<in> set (contents (db ex_world_published))" "col ex_row ''slug'' = Some (JStr ''brishti'')"
    by (simp_all add: ex_defs)
  show ?thesis
    using reachable_detail_unique [OF ex_published_reachable h]
    by (simp add: ex_world_published_def ex_db_def ex_row_def ex_new_content_def embed_one_def project_def)
qed

theorem non_post_requests_read_only_witness:
  "db (snd (dispatch ex_app ex_env_db_down (ex_get ''/'') ex_world_published)) = db ex_world_published"
proof -
  have h: "req_method (ex_get ''/'') \<noteq> POST" by (simp add: ex_get_def)
  obtain resp w' where eq: "dispatch ex_app ex_env_db_down (ex_get ''/'') ex_world_published = (resp, w')"
    by fastforce
  from non_post_requests_read_only [OF h eq] eq show ?thesis by simp
qed

end
