(* ===== verification/Published.thy ===== *)
theory Published
  imports App_Run
begin

text \<open>
  What the site publishes, seen through its own pages. The rows of \<open>contents\<close> are
  only ever written by the upload handler, so every reachable row has the shape of the
  table's schema (\<open>row_typed\<close>: each column once, integer \<open>id\<close> and
  \<open>created_at\<close>, a boolean approval flag, the placeholder user as text, the form's
  fields as text or null). And what one request inserts, the next ones read back: the
  detail page of its slug shows exactly the inserted row (under the unique slug
  constraint), and the listing contains it.
\<close>

section \<open>The schema of the contents table\<close>

definition contents_columns :: "string list" where
  "contents_columns =
     [''id'', ''created_at'', ''user_id'', ''title'', ''description'', ''slug'', ''alt_text'',
      ''category_id'', ''file_url'', ''is_approved'']"

fun is_jint :: "json \<Rightarrow> bool" where
  "is_jint (JInt _) = True"
| "is_jint _ = False"

fun is_jbool :: "json \<Rightarrow> bool" where
  "is_jbool (JBool _) = True"
| "is_jbool _ = False"

fun is_jstr :: "json \<Rightarrow> bool" where
  "is_jstr (JStr _) = True"
| "is_jstr _ = False"

fun text_or_null :: "json \<Rightarrow> bool" where
  "text_or_null JNull = True"
| "text_or_null (JStr _) = True"
| "text_or_null _ = False"

text \<open>The type of each column's value; \<open>file_url\<close> holds whatever the host answered as
  \<open>data.url\<close>.\<close>

definition col_typed :: "string \<Rightarrow> json \<Rightarrow> bool" where
  "col_typed c v =
     (if c = ''id'' \<or> c = ''created_at'' then is_jint v
      else if c = ''is_approved'' then is_jbool v
      else if c = ''user_id'' then is_jstr v
      else if c = ''file_url'' then True
      else text_or_null v)"

definition row_typed :: "row \<Rightarrow> bool" where
  "row_typed r = (mset (map fst r) = mset contents_columns \<and> list_all (\<lambda>(c, v). col_typed c v) r)"

text \<open>The row the datastore stores for a record, and the row the pages show for it.\<close>

abbreviation inserted_row :: "db_state \<Rightarrow> row \<Rightarrow> row" where
  "inserted_row d r \<equiv> (''id'', JInt (next_id d)) # (''created_at'', JInt (clock d)) # r"

abbreviation shown_row :: "db_state \<Rightarrow> row \<Rightarrow> row" where
  "shown_row d r \<equiv> r @ [(''categories'', embed_one (categories d) ''category_id'' [''name_bn''] r)]"

section \<open>Lemmas\<close>

lemma text_or_null_opt_json [simp]: "text_or_null (opt_json x) = True"
  by (cases x) simp_all

text \<open>A request that changed the table inserted the record of its form, stamped, with
  an image the host stores, and was redirected to the listing.\<close>

lemma dispatch_inserted:
  assumes "dispatch a e rq w = (resp, w1)" and "contents (db w1) \<noteq> contents (db w)"
  obtains u where "u \<in> fst ` set (hosted w1)" and "resp = Redirect ''/''"
    and "\<not> unique_violation (db w) (new_content (read_submission rq) u)"
    and "contents (db w1) = contents (db w) @ [inserted_row (db w) (new_content (read_submission rq) u)]"
    and "categories (db w1) = categories (db w)"
proof -
  from dispatch_db [OF assms(1)] assms(2) obtain u out where "u \<in> fst ` set (hosted w1)"
    and "db_insert (db w) ''contents'' (new_content (read_submission rq) u) = Inr (out, db w1)"
    and "resp = Redirect ''/''"
    by auto
  with that show ?thesis by (auto simp: db_insert_Inr)
qed

section \<open>Properties\<close>

text \<open>
  C30. Every row of the contents table in a reachable world has the type of the table's
  schema: each of its ten columns exactly once, integer id and created_at, a boolean
  approval flag, the user id as text, and title, description, slug, alt text and
  category id as text or null.
\<close>

theorem reachable_rows_typed: "reachable a w \<Longrightarrow> list_all row_typed (contents (db w))"
proof (induction rule: reachable.induct)
  case (init w)
  then show ?case by simp
next
  case (step w w')
  from step.hyps(2) show ?case
  proof (cases rule: app_step.cases)
    case (serve e rq)
    obtain resp w1 where d: "dispatch a e rq w = (resp, w1)" by fastforce
    with serve have w': "w' = w1" by simp
    show ?thesis
    proof (cases "contents (db w1) = contents (db w)")
      case True
      with step.IH w' show ?thesis by simp
    next
      case False
      with d obtain u where
        "contents (db w1) = contents (db w) @ [inserted_row (db w) (new_content (read_submission rq) u)]"
        by (rule dispatch_inserted)
      with step.IH w' show ?thesis
        by (simp add: row_typed_def contents_columns_def new_content_def col_typed_def)
    qed
  qed (use step.IH in simp_all)
qed

text \<open>
  C31. Round trip of an upload through the detail page: when a request changed the
  table and slugs are unique, a GET of /content/s for the slug s of its form (a valid
  path segment) renders exactly the row it inserted, stamped with the id and time the
  datastore gave it and joined with its category, the image being stored at the host.
\<close>

theorem upload_then_detail:
  assumes up: "dispatch a e rq w = (resp, w1)" and changed: "contents (db w1) \<noteq> contents (db w)"
    and uniq: "slug_unique (db w)" and slug: "form_get rq ''slug'' = Some s" "slug_segment s"
    and get: "req_path rq2 = ''/content/'' @ s" "req_method rq2 = GET" and dbok: "db_fault e2 = None"
  shows "\<exists>u. u \<in> fst ` set (hosted w1) \<and>
    fst (dispatch a e2 rq2 w1) =
      Render ''single.html''
        [(''content'', JObj (shown_row (db w) (inserted_row (db w) (new_content (read_submission rq) u))))]"
proof -
  from up changed obtain u where hu: "u \<in> fst ` set (hosted w1)"
    and nv: "\<not> unique_violation (db w) (new_content (read_submission rq) u)"
    and c1: "contents (db w1) = contents (db w) @ [inserted_row (db w) (new_content (read_submission rq) u)]"
    and cats: "categories (db w1) = categories (db w)"
    by (rule dispatch_inserted)
  have sl: "col (new_content (read_submission rq) u) ''slug'' = Some (JStr s)"
    using slug by (simp add: new_content_def read_submission_def)
  with nv uniq have "JStr s \<notin> set (col_values ''slug'' (contents (db w)))"
    by (simp add: unique_violation_def)
  then have "filter (\<lambda>r. col r ''slug'' = Some (JStr s)) (contents (db w1)) =
             [inserted_row (db w) (new_content (read_submission rq) u)]"
    using c1 sl by (simp add: filter_col_absent)
  moreover have "dispatch a e2 rq2 w1 = single_content e2 s w1"
    using get slug(2) by (simp add: dispatch_content route_def)
  ultimately show ?thesis
    using hu cats single_content_select [OF dbok, of s w1] by auto
qed

text \<open>
  C32. Round trip of an upload through the listing: when a request changed the table,
  the listing page, with the datastore reachable, contains the row it inserted, joined
  with its category, the image being stored at the host.
\<close>

theorem upload_then_listing:
  assumes up: "dispatch a e rq w = (resp, w1)" and changed: "contents (db w1) \<noteq> contents (db w)"
    and get: "req_path rq2 = ''/''" "req_method rq2 = GET" and dbok: "db_fault e2 = None"
  shows "\<exists>u rows. u \<in> fst ` set (hosted w1) \<and>
    fst (dispatch a e2 rq2 w1) = Render ''index.html'' [(''contents'', JList rows)] \<and>
    JObj (shown_row (db w) (inserted_row (db w) (new_content (read_submission rq) u))) \<in> set rows"
proof -
  from up changed obtain u where hu: "u \<in> fst ` set (hosted w1)"
    and c1: "contents (db w1) = contents (db w) @ [inserted_row (db w) (new_content (read_submission rq) u)]"
    and cats: "categories (db w1) = categories (db w)"
    by (rule dispatch_inserted)
  have "dispatch a e2 rq2 w1 = index e2 w1"
    using get by (simp add: dispatch_index route_def)
  with hu c1 cats show ?thesis
    by (auto simp: index_select [OF dbok] new_content_def)
qed

section \<open>Witnesses\<close>

theorem reachable_rows_typed_witness: "list_all row_typed (contents (db ex_world_published))"
  using ex_published_reachable by (rule reachable_rows_typed)

theorem upload_then_detail_witness:
  "\<exists>u. u \<in> fst ` set (hosted ex_world_published) \<and>
    fst (dispatch ex_app (ex_env ex_ok_reply) (ex_get ''/content/brishti'') ex_world_published) =
      Render ''single.html''
        [(''content'', JObj (shown_row ex_db (inserted_row ex_db (new_content (read_submission ex_post) u))))]"
proof -
  have h: "contents (db ex_world_published) \<noteq> contents (db ex_world)" "slug_unique (db ex_world)"
    "form_get ex_post ''slug'' = Some ''brishti''" "slug_segment ''brishti''"
    "req_path (ex_get ''/content/brishti'') = ''/content/'' @ ''brishti''"
    "req_method (ex_get ''/content/brishti'') = GET" "db_fault (ex_env ex_ok_reply) = None"
    by (simp_all add: ex_defs form_get_def slug_segment_def)
  from upload_then_detail [OF ex_publish_run h] show ?thesis by (simp add: ex_world_def)
qed

theorem upload_then_listing_witness:
  "\<exists>u rows. u \<in> fst ` set (hosted ex_world_published) \<and>
    fst (dispatch ex_app (ex_env ex_ok_reply) (ex_get ''/'') ex_world_published) =
      Render ''index.html'' [(''contents'', JList rows)] \<and>
    JObj (shown_row ex_db (inserted_row ex_db (new_content (read_submission ex_post) u))) \<in> set rows"
proof -
  have h: "contents (db ex_world_published) \<noteq> contents (db ex_world)"
    "req_path (ex_get ''/'') = ''/''" "req_method (ex_get ''/'') = GET" "db_fault (ex_env ex_ok_reply) = None"
    by (simp_all add: ex_defs)
  from upload_then_listing [OF ex_publish_run h] show ?thesis by (simp add: ex_world_def)
qed

end
