(* ===== verification/Concurrency.thy ===== *)
theory Concurrency
  imports App_Run
begin

text \<open>
  Concurrent uploads. The hosting runtime serves requests in a pool of processes or
  threads, and the handlers take no lock: an upload (\<open>upload_content\<close>, POST) makes two
  remote calls, the post to the image host and the insert into the datastore, and the
  calls of other uploads may come between them. Each remote call is atomic at its
  service; the code between them touches no shared state. So one upload is two
  atomic steps of a per-request program counter (\<open>upload_pc\<close>):
  \<^item> \<open>upload_begin\<close>: lines 49 to 65, reading the form, the file test, and the post to
    the host; it stops at the host's reply (\<open>AtReply\<close>) or returns;
  \<^item> \<open>upload_finish\<close>: lines 66 to 92, the rest of the \<open>try\<close> body with the insert,
    under the \<open>except\<close>.
  \<open>conc_step\<close> runs one step of any request of a list; a run is any sequence of such
  steps, so every interleaving of the requests' remote calls is a run.
\<close>

section \<open>One upload as two atomic steps\<close>

datatype upload_pc = AtStart | AtReply http_reply | Returned response

definition upload_begin :: "app \<Rightarrow> ext \<Rightarrow> request \<Rightarrow> world \<Rightarrow> upload_pc \<times> world" where
  "upload_begin a e rq w =
     (let file = files_get rq ''file''
      in if \<not> file_truthy file
         then (Returned (Redirect (req_url rq)), flash MsgChooseFile FlashError w)
         else
           (case imgbb_post a e (file_bytes (the file)) w of
              (Inl x, w1) \<Rightarrow> (case upload_except rq (Inl x, w1) of (resp, w2) \<Rightarrow> (Returned resp, w2))
            | (Inr r, w1) \<Rightarrow> (AtReply r, w1)))"

definition upload_finish :: "ext \<Rightarrow> request \<Rightarrow> http_reply \<Rightarrow> world \<Rightarrow> upload_pc \<times> world" where
  "upload_finish e rq r w =
     (case upload_except rq (upload_after_host e rq (read_submission rq) r w) of
        (resp, w1) \<Rightarrow> (Returned resp, w1))"

type_synonym job = "ext \<times> request"
type_synonym conc_state = "upload_pc list \<times> world"

fun job_step :: "app \<Rightarrow> job \<Rightarrow> upload_pc \<Rightarrow> world \<Rightarrow> upload_pc \<times> world" where
  "job_step a (e, rq) AtStart w = upload_begin a e rq w"
| "job_step a (e, rq) (AtReply r) w = upload_finish e rq r w"
| "job_step a (e, rq) (Returned resp) w = (Returned resp, w)"

fun is_returned :: "upload_pc \<Rightarrow> bool" where
  "is_returned (Returned _) = True"
| "is_returned _ = False"

section \<open>Interleaved runs\<close>

inductive conc_step :: "app \<Rightarrow> job list \<Rightarrow> conc_state \<Rightarrow> conc_state \<Rightarrow> bool" for a js where
  step: "i < length js \<Longrightarrow> i < length pcs \<Longrightarrow>
    conc_step a js (pcs, w)
      (pcs[i := fst (job_step a (js ! i) (pcs ! i) w)], snd (job_step a (js ! i) (pcs ! i) w))"

definition conc_start :: "job list \<Rightarrow> world \<Rightarrow> conc_state" where
  "conc_start js w = (map (\<lambda>_. AtStart) js, w)"

text \<open>A schedule names, step by step, the request that moves; it is how the runtime's
  interleaving is written down for a concrete run.\<close>

fun sched_run :: "app \<Rightarrow> job list \<Rightarrow> nat list \<Rightarrow> conc_state \<Rightarrow> conc_state" where
  "sched_run a js [] st = st"
| "sched_run a js (i # is) (pcs, w) =
     (if i < length js \<and> i < length pcs
      then sched_run a js is (pcs[i := fst (job_step a (js ! i) (pcs ! i) w)], snd (job_step a (js ! i) (pcs ! i) w))
      else sched_run a js is (pcs, w))"

section \<open>Jobs whose remote calls succeed\<close>

definition job_reply :: "app \<Rightarrow> job \<Rightarrow> http_reply option" where
  "job_reply a j =
     (case files_get (snd j) ''file'' of
        None \<Rightarrow> None
      | Some f \<Rightarrow> (case host_reply (fst j) (imgbb_key a) (file_bytes f) of Inl _ \<Rightarrow> None | Inr r \<Rightarrow> Some r))"

text \<open>The record an upload publishes when the host stores its image: the row of
  \<open>new_content\<close> for the URL the host answers.\<close>

definition job_record :: "app \<Rightarrow> job \<Rightarrow> row option" where
  "job_record a j =
     (case job_reply a j of
        None \<Rightarrow> None
      | Some r \<Rightarrow> map_option (new_content (read_submission (snd j))) (hosted_url r))"

definition upload_good :: "app \<Rightarrow> job \<Rightarrow> bool" where
  "upload_good a j =
     (db_fault (fst j) = None \<and> file_truthy (files_get (snd j) ''file'') \<and> job_record a j \<noteq> None)"

definition completed :: "job list \<Rightarrow> upload_pc list \<Rightarrow> job list" where
  "completed js pcs = map fst (filter (is_returned \<circ> snd) (zip js pcs))"

text \<open>What an interleaved run keeps: the invariant of the world, and for each upload
  waiting after the host's reply, the image that reply names is stored at the host.\<close>

definition pc_hosted :: "world \<Rightarrow> upload_pc \<Rightarrow> bool" where
  "pc_hosted w pc =
     (case pc of
        AtReply r \<Rightarrow> (case hosted_url r of Some u \<Rightarrow> u \<in> fst ` set (hosted w) | None \<Rightarrow> True)
      | _ \<Rightarrow> True)"

definition conc_inv :: "conc_state \<Rightarrow> bool" where
  "conc_inv st = (world_inv (snd st) \<and> list_all (pc_hosted (snd st)) (fst st))"

text \<open>What a run of uploads that all succeed keeps: each request is at its start,
  waiting on its host's reply, or redirected to the listing; the table holds the first
  rows followed by rows stamped with \<open>id\<close> and \<open>created_at\<close> whose records are, as a
  multiset, those of the finished uploads.\<close>

definition good_pc :: "app \<Rightarrow> job \<Rightarrow> upload_pc \<Rightarrow> bool" where
  "good_pc a j pc =
     (case pc of
        AtStart \<Rightarrow> True
      | AtReply r \<Rightarrow> job_reply a j = Some r
      | Returned resp \<Rightarrow> resp = Redirect ''/'')"

definition stamped :: "row \<Rightarrow> bool" where
  "stamped r = (map fst (take 2 r) = [''id'', ''created_at''])"

definition run_inv :: "app \<Rightarrow> job list \<Rightarrow> world \<Rightarrow> conc_state \<Rightarrow> bool" where
  "run_inv a js w0 st =
     (case st of (pcs, w) \<Rightarrow>
        list_all2 (good_pc a) js pcs \<and> slug_unique (db w) = slug_unique (db w0) \<and>
        categories (db w) = categories (db w0) \<and>
        take (length (contents (db w0))) (contents (db w)) = contents (db w0) \<and>
        list_all stamped (drop (length (contents (db w0))) (contents (db w))) \<and>
        mset (map (drop 2) (drop (length (contents (db w0))) (contents (db w)))) =
          mset (List.map_filter (job_record a) (completed js pcs)))"

text \<open>Two uploads, of the poem \<open>brishti\<close> and of the song \<open>megh\<close>, both accepted
  by the host, run with the second finishing first.\<close>

definition ex_uploads :: "job list" where
  "ex_uploads = [(ex_env ex_ok_reply, ex_post), (ex_env ex_ok_reply, ex_post_megh)]"

definition ex_interleaved :: conc_state where
  "ex_interleaved = sched_run ex_app ex_uploads [0, 1, 1, 0] (conc_start ex_uploads ex_world)"

section \<open>Lemmas\<close>

lemma upload_except_frame:
  "upload_except rq (res, w1) = (resp, w2) \<Longrightarrow> db w2 = db w1 \<and> hosted w2 = hosted w1"
  by (auto simp: upload_except_def split: sum.splits)

lemma pc_hosted_mono:
  "pc_hosted w pc \<Longrightarrow> set (hosted w) \<subseteq> set (hosted w') \<Longrightarrow> pc_hosted w' pc"
  by (auto simp: pc_hosted_def split: upload_pc.splits option.splits)

lemma list_all_update:
  "list_all P xs \<Longrightarrow> P x \<Longrightarrow> list_all P (xs[i := x])"
  by (auto simp: list_all_iff dest: set_update_subset_insert [THEN subsetD])

lemma upload_begin_frame:
  assumes "upload_begin a e rq w = (pc, w')"
  shows "db w' = db w \<and> (\<exists>hs. hosted w' = hosted w @ hs) \<and> pc_hosted w' pc"
proof (cases "file_truthy (files_get rq ''file'')")
  case True
  obtain hr w1 where post: "imgbb_post a e (file_bytes (the (files_get rq ''file''))) w = (hr, w1)"
    by fastforce
  note fa = imgbb_post_frame [OF post] and ha = imgbb_post_hosted [OF post]
  show ?thesis
  proof (cases hr)
    case (Inl x)
    with assms True post have "pc = Returned (Redirect (req_url rq))"
      and "w' = flash (MsgErrorOccurred (exc_str x)) FlashError w1"
      by (simp_all add: upload_begin_def upload_except_def)
    with fa ha Inl show ?thesis by (simp add: pc_hosted_def)
  next
    case (Inr r)
    with assms True post have "pc = AtReply r" and "w' = w1"
      by (simp_all add: upload_begin_def)
    with fa ha Inr show ?thesis by (auto simp: pc_hosted_def split: option.splits)
  qed
next
  case False
  with assms show ?thesis by (auto simp: upload_begin_def pc_hosted_def)
qed

lemma upload_finish_frame:
  assumes "upload_finish e rq r w = (pc, w')"
  shows "hosted w' = hosted w \<and>
    (db w' = db w \<or>
     (\<exists>u out. hosted_url r = Some u \<and>
        db_insert (db w) ''contents'' (new_content (read_submission rq) u) = Inr (out, db w') \<and>
        pc = Returned (Redirect ''/'')))"
proof -
  obtain res w1 where after: "upload_after_host e rq (read_submission rq) r w = (res, w1)" by fastforce
  obtain resp where exc: "upload_except rq (res, w1) = (resp, w')" and pc: "pc = Returned resp"
    using assms after by (simp add: upload_finish_def split: prod.splits)
  note h = upload_after_host_db [OF after] and x = upload_except_frame [OF exc]
  from exc have "res = Inr (Redirect ''/'') \<Longrightarrow> resp = Redirect ''/''"
    by (simp add: upload_except_def)
  with h x pc show ?thesis by auto
qed

text \<open>Each of the two steps keeps the invariant of the world; the second needs the image
  of the reply it resumes with to be stored at the host, which the first step ensures.\<close>

lemma upload_begin_world_inv:
  assumes "upload_begin a e rq w = (pc', w')" and "world_inv w"
  shows "world_inv w' \<and> set (hosted w) \<subseteq> set (hosted w') \<and> pc_hosted w' pc'"
proof -
  note b = upload_begin_frame [OF assms(1)]
  then have sub: "set (hosted w) \<subseteq> set (hosted w')" by auto
  with assms(2) b show ?thesis by (blast intro: world_inv_same_db)
qed

lemma upload_finish_world_inv:
  assumes fin: "upload_finish e rq r w = (pc', w')" and inv: "world_inv w"
    and hr: "pc_hosted w (AtReply r)"
  shows "world_inv w' \<and> set (hosted w) \<subseteq> set (hosted w') \<and> pc_hosted w' pc'"
proof -
  note f = upload_finish_frame [OF fin]
  have pc': "pc_hosted w' pc'" using fin by (auto simp: upload_finish_def pc_hosted_def split: prod.splits)
  from f have sub: "set (hosted w) \<subseteq> set (hosted w')" by simp
  have "world_inv w'"
  proof (cases "db w' = db w")
    case True
    with inv sub show ?thesis by (blast intro: world_inv_same_db)
  next
    case False
    with f obtain u out where u: "hosted_url r = Some u"
      and ins: "db_insert (db w) ''contents'' (new_content (read_submission rq) u) = Inr (out, db w')"
      by blast
    from hr u f have "u \<in> fst ` set (hosted w')" by (simp add: pc_hosted_def)
    with inv sub ins show ?thesis by (blast intro: world_inv_insert)
  qed
  with sub pc' show ?thesis by simp
qed

lemma conc_step_inv: "conc_step a js st st' \<Longrightarrow> conc_inv st \<Longrightarrow> conc_inv st'"
proof (induction rule: conc_step.induct)
  case (step i pcs w)
  obtain e rq where j: "js ! i = (e, rq)" by fastforce
  obtain pc' w' where st: "job_step a (js ! i) (pcs ! i) w = (pc', w')" by fastforce
  from step.prems have inv: "world_inv w" and pcs: "list_all (pc_hosted w) pcs"
    by (simp_all add: conc_inv_def)
  have "world_inv w' \<and> set (hosted w) \<subseteq> set (hosted w') \<and> pc_hosted w' pc'"
  proof (cases "pcs ! i")
    case AtStart
    with st j upload_begin_world_inv [OF _ inv] show ?thesis by simp
  next
    case (AtReply r)
    from pcs step.hyps(2) have "pc_hosted w (pcs ! i)" by (simp add: list_all_length)
    with st j AtReply upload_finish_world_inv [OF _ inv] show ?thesis by simp
  next
    case (Returned resp)
    with st j pcs inv step.hyps(2) show ?thesis by (auto simp: list_all_length)
  qed
  moreover have "set (hosted w) \<subseteq> set (hosted w') \<longrightarrow> list_all (pc_hosted w') pcs"
    using pcs by (auto simp: list_all_iff intro: pc_hosted_mono)
  ultimately show ?case using st by (simp add: conc_inv_def list_all_update)
qed

text \<open>One step of the pool, on a state given as its pair: some request \<open>i\<close> moves.\<close>

inductive_simps conc_step_pair: "conc_step a js (pcs, w) st'"

lemma sched_run_reach: "(conc_step a js)\<^sup>*\<^sup>* st (sched_run a js is st)"
proof (induction a js "is" st rule: sched_run.induct)
  case (1 a js st)
  then show ?case by simp
next
  case (2 a js i "is" pcs w)
  then show ?case
    by (cases "i < length js \<and> i < length pcs") (auto intro: converse_rtranclp_into_rtranclp conc_step.step)
qed

lemma col_unstamp:
  "stamped r \<Longrightarrow> c \<noteq> ''id'' \<Longrightarrow> c \<noteq> ''created_at'' \<Longrightarrow> col (drop 2 r) c = col r c"
  by (cases r; cases "tl r") (auto simp: stamped_def)

lemma col_values_unstamp:
  "list_all stamped rs \<Longrightarrow> c \<noteq> ''id'' \<Longrightarrow> c \<noteq> ''created_at'' \<Longrightarrow>
   col_values c (map (drop 2) rs) = col_values c rs"
  by (induction rs) (simp_all add: col_unstamp)

lemma zip_update_right:
  "i < length xs \<Longrightarrow> zip xs (ys[i := y]) = (zip xs ys)[i := (xs ! i, y)]"
  by (metis list_update_id zip_update)

lemma completed_update_same:
  "i < length js \<Longrightarrow> i < length pcs \<Longrightarrow> \<not> is_returned (pcs ! i) \<Longrightarrow> \<not> is_returned y \<Longrightarrow>
   completed js (pcs[i := y]) = completed js pcs"
  by (simp add: completed_def zip_update_right filter_update_same)

lemma completed_update_new:
  assumes "i < length js" "i < length pcs" "\<not> is_returned (pcs ! i)" "is_returned y"
  shows "mset (completed js (pcs[i := y])) = add_mset (js ! i) (mset (completed js pcs))"
proof -
  have h: "mset (filter (is_returned \<circ> snd) ((zip js pcs)[i := (js ! i, y)])) =
           add_mset (js ! i, y) (mset (filter (is_returned \<circ> snd) (zip js pcs)))"
    using assms by (intro mset_filter_update_new) simp_all
  show ?thesis
    by (simp only: completed_def zip_update_right [OF assms(1)] mset_map h image_mset_add_mset fst_conv)
qed

lemma completed_add_subseteq:
  assumes "i < length js" "i < length pcs" "\<not> is_returned (pcs ! i)"
  shows "add_mset (js ! i) (mset (completed js pcs)) \<subseteq># mset js"
proof -
  let ?z = "zip js pcs"
  have "add_mset (?z ! i) (mset (filter (is_returned \<circ> snd) ?z)) \<subseteq># mset ?z"
    using assms by (intro mset_filter_add_subseteq) simp_all
  then have "image_mset fst (add_mset (?z ! i) (mset (filter (is_returned \<circ> snd) ?z))) \<subseteq># image_mset fst (mset ?z)"
    by (rule image_mset_subseteq_mono)
  also have "image_mset fst (mset ?z) = mset (take (length pcs) js)"
    by (simp add: map_fst_zip_take min_def flip: mset_map)
  also have "\<dots> \<subseteq># mset js"
    by (metis append_take_drop_id mset_append mset_subset_eq_add_left)
  finally show ?thesis using assms by (simp add: completed_def)
qed

lemma list_all2_update_right:
  "list_all2 P xs ys \<Longrightarrow> i < length xs \<Longrightarrow> P (xs ! i) y \<Longrightarrow> list_all2 P xs (ys[i := y])"
  by (metis list_all2_update_cong list_update_id)

text \<open>The rows a run has added carry, as a multiset, the records of the finished
  uploads; with the slugs of all the uploads distinct and new, an upload that has not
  finished finds its slug free.\<close>

lemma fresh_slug:
  assumes dist: "distinct (col_values ''slug'' (c0 @ List.map_filter (job_record a) js))"
    and st: "list_all stamped added"
    and ms: "mset (map (drop 2) added) = mset (List.map_filter (job_record a) (completed js pcs))"
    and i: "i < length js" "i < length pcs" "\<not> is_returned (pcs ! i)"
    and rec: "job_record a (js ! i) = Some rec"
    and v: "col rec ''slug'' = Some v" "v \<noteq> JNull"
  shows "v \<notin> set (col_values ''slug'' (c0 @ added))"
proof -
  let ?done = "List.map_filter (job_record a) (completed js pcs)"
  have "mset (List.map_filter (job_record a) (js ! i # completed js pcs)) \<subseteq># mset (List.map_filter (job_record a) js)"
    using completed_add_subseteq [OF i] by (intro map_filter_mono) simp
  then have "mset (rec # ?done) \<subseteq># mset (List.map_filter (job_record a) js)"
    using rec by (simp add: List.map_filter_def)
  then have "mset (c0 @ rec # ?done) \<subseteq># mset (c0 @ List.map_filter (job_record a) js)"
    by simp
  then have "mset (col_values ''slug'' (c0 @ rec # ?done)) \<subseteq># mset (col_values ''slug'' (c0 @ List.map_filter (job_record a) js))"
    by (rule col_values_mono)
  then have "distinct (col_values ''slug'' (c0 @ rec # ?done))"
    using dist by (rule distinct_mset_mono)
  then have free: "v \<notin> set (col_values ''slug'' c0) \<and> v \<notin> set (col_values ''slug'' ?done)"
    using v by simp
  have "mset (col_values ''slug'' added) = mset (col_values ''slug'' ?done)"
    using col_values_unstamp [OF st, of "''slug''"] col_values_mset_eq [OF ms, of "''slug''"] by simp
  then have "set (col_values ''slug'' added) = set (col_values ''slug'' ?done)"
    by (metis set_mset_mset)
  with free show ?thesis by simp
qed

lemma upload_begin_good:
  assumes "upload_good a (e, rq)" and "job_reply a (e, rq) = Some r"
  shows "fst (upload_begin a e rq w) = AtReply r \<and> db (snd (upload_begin a e rq w)) = db w"
proof -
  from assms obtain f where f: "files_get rq ''file'' = Some f" "filename f \<noteq> []"
    and h: "host_reply e (imgbb_key a) (file_bytes f) = Inr r"
    by (auto simp: upload_good_def job_reply_def split: option.splits sum.splits)
  then show ?thesis by (simp add: upload_begin_def imgbb_post_Inr)
qed

lemma upload_finish_good:
  assumes "upload_good a (e, rq)" and "job_reply a (e, rq) = Some r"
    and "job_record a (e, rq) = Some rec" and "\<not> unique_violation (db w) rec"
    and "\<not> fk_violation (db w) rec"
  shows "fst (upload_finish e rq r w) = Returned (Redirect ''/'') \<and>
    contents (db (snd (upload_finish e rq r w))) =
      contents (db w) @ [(''id'', JInt (next_id (db w))) # (''created_at'', JInt (clock (db w))) # rec] \<and>
    slug_unique (db (snd (upload_finish e rq r w))) = slug_unique (db w) \<and>
    categories (db (snd (upload_finish e rq r w))) = categories (db w)"
proof -
  from assms(2,3) obtain u where u: "hosted_url r = Some u" and rec: "rec = new_content (read_submission rq) u"
    by (auto simp: job_record_def)
  from hosted_url_reply [OF u] obtain d where d: "resp_json r = Inr d" "upload_accepted r d = Inr True"
    "reply_url d = Inr u" by blast
  from assms(1) have "db_fault e = None" by (simp add: upload_good_def)
  with d rec assms(4,5) show ?thesis
    by (simp add: upload_finish_def upload_after_host_def upload_except_def supabase_execute_insert db_insert_def Let_def)
qed

text \<open>The first step of a good upload posts the image and leaves the datastore alone:
  the invariant of the run is kept.\<close>

lemma run_inv_begin:
  assumes good: "list_all (upload_good a) js" and i: "i < length js" "i < length pcs"
    and at: "pcs ! i = AtStart" and inv: "run_inv a js w0 (pcs, w)"
  shows "run_inv a js w0 (pcs[i := fst (job_step a (js ! i) (pcs ! i) w)], snd (job_step a (js ! i) (pcs ! i) w))"
proof -
  obtain e rq where j: "js ! i = (e, rq)" by fastforce
  have gj: "upload_good a (e, rq)" using good i(1) j by (metis list_all_length)
  from gj obtain rec where "job_record a (e, rq) = Some rec" by (auto simp: upload_good_def)
  then obtain r where r: "job_reply a (e, rq) = Some r" by (auto simp: job_record_def split: option.splits)
  note b = upload_begin_good [OF gj r, of w]
  from inv have la: "list_all2 (good_pc a) js pcs" by (simp add: run_inv_def)
  have "completed js (pcs[i := AtReply r]) = completed js pcs"
    using i at by (simp add: completed_update_same)
  moreover have "list_all2 (good_pc a) js (pcs[i := AtReply r])"
    using la i(1) r j by (intro list_all2_update_right) (simp_all add: good_pc_def)
  ultimately show ?thesis using at j b inv by (simp add: run_inv_def)
qed

text \<open>An upload about to insert finds neither its slug taken nor its category missing:
  the slugs of the run are distinct and new, and the categories never change.\<close>

lemma run_inv_insert_ok:
  assumes fresh: "slug_unique (db w0) \<longrightarrow>
                distinct (col_values ''slug'' (contents (db w0) @ List.map_filter (job_record a) js))"
    and cats: "list_all (\<lambda>rec. \<not> fk_violation (db w0) rec) (List.map_filter (job_record a) js)"
    and i: "i < length js" "i < length pcs" "\<not> is_returned (pcs ! i)"
    and rec: "job_record a (js ! i) = Some rec" and inv: "run_inv a js w0 (pcs, w)"
  shows "\<not> unique_violation (db w) rec \<and> \<not> fk_violation (db w) rec"
proof
  let ?added = "drop (length (contents (db w0))) (contents (db w))"
  from inv have su: "slug_unique (db w) = slug_unique (db w0)"
    and cs: "categories (db w) = categories (db w0)"
    and pre: "take (length (contents (db w0))) (contents (db w)) = contents (db w0)"
    and sta: "list_all stamped ?added"
    and ms: "mset (map (drop 2) ?added) = mset (List.map_filter (job_record a) (completed js pcs))"
    by (simp_all add: run_inv_def)
  have split: "contents (db w) = contents (db w0) @ ?added" using pre by (metis append_take_drop_id)
  show "\<not> unique_violation (db w) rec"
  proof (cases "slug_unique (db w)")
    case True
    with fresh su have dist: "distinct (col_values ''slug'' (contents (db w0) @ List.map_filter (job_record a) js))"
      by simp
    have "v \<notin> set (col_values ''slug'' (contents (db w)))" if "col rec ''slug'' = Some v" "v \<noteq> JNull" for v
      using fresh_slug [OF dist sta ms i rec that] split by simp
    then show ?thesis by (auto simp: unique_violation_def split: option.splits json.splits)
  next
    case False
    then show ?thesis by (simp add: unique_violation_def)
  qed
  have "rec \<in> set (List.map_filter (job_record a) js)"
    using i(1) rec by (metis nth_mem map_filter_in)
  with cats have "\<not> fk_violation (db w0) rec" by (auto simp: list_all_iff)
  then show "\<not> fk_violation (db w) rec" by (simp add: fk_violation_categories [OF cs])
qed

text \<open>The second step of a good upload inserts its record after the rows already
  there: the invariant of the run is kept.\<close>

lemma run_inv_finish:
  assumes good: "list_all (upload_good a) js"
    and fresh: "slug_unique (db w0) \<longrightarrow>
                distinct (col_values ''slug'' (contents (db w0) @ List.map_filter (job_record a) js))"
    and cats: "list_all (\<lambda>rec. \<not> fk_violation (db w0) rec) (List.map_filter (job_record a) js)"
    and i: "i < length js" "i < length pcs" and at: "pcs ! i = AtReply r'"
    and inv: "run_inv a js w0 (pcs, w)"
  shows "run_inv a js w0 (pcs[i := fst (job_step a (js ! i) (pcs ! i) w)], snd (job_step a (js ! i) (pcs ! i) w))"
proof -
  obtain e rq where j: "js ! i = (e, rq)" by fastforce
  have gj: "upload_good a (e, rq)" using good i(1) j by (metis list_all_length)
  from gj obtain rec where rec: "job_record a (e, rq) = Some rec" by (auto simp: upload_good_def)
  then obtain r where r: "job_reply a (e, rq) = Some r" by (auto simp: job_record_def split: option.splits)
  let ?n = "length (contents (db w0))"
  from inv have la: "list_all2 (good_pc a) js pcs"
    and pre: "take ?n (contents (db w)) = contents (db w0)" by (simp_all add: run_inv_def)
  have "good_pc a (js ! i) (pcs ! i)" using la i(1) by (rule list_all2_nthD)
  with at j r have r': "r' = r" by (simp add: good_pc_def)
  have ok: "\<not> unique_violation (db w) rec \<and> \<not> fk_violation (db w) rec"
    using run_inv_insert_ok [OF fresh cats i _ _ inv] at j rec by simp
  note f = upload_finish_good [OF gj r rec conjunct1 [OF ok] conjunct2 [OF ok]]
  let ?pcs' = "pcs[i := Returned (Redirect ''/'')]"
  have "mset (completed js ?pcs') = mset (js ! i # completed js pcs)"
    using i at by (simp add: completed_update_new)
  then have "mset (List.map_filter (job_record a) (completed js ?pcs')) = mset (rec # List.map_filter (job_record a) (completed js pcs))"
    using j rec by (simp add: map_filter_mset_eq [of _ "js ! i # completed js pcs"] List.map_filter_def)
  moreover have "list_all2 (good_pc a) js ?pcs'"
    using la i(1) by (intro list_all2_update_right) (simp_all add: good_pc_def)
  moreover have "?n \<le> length (contents (db w))"
    using pre by (metis length_take min.absorb_iff2 nat_le_linear)
  ultimately show ?thesis
    using at r' j f inv by (simp add: run_inv_def stamped_def)
qed

lemma run_inv_step:
  assumes good: "list_all (upload_good a) js"
    and fresh: "slug_unique (db w0) \<longrightarrow>
                distinct (col_values ''slug'' (contents (db w0) @ List.map_filter (job_record a) js))"
    and cats: "list_all (\<lambda>rec. \<not> fk_violation (db w0) rec) (List.map_filter (job_record a) js)"
    and step: "conc_step a js st st'" and inv: "run_inv a js w0 st"
  shows "run_inv a js w0 st'"
  using step inv
proof (induction rule: conc_step.induct)
  case (step i pcs w)
  show ?case
  proof (cases "pcs ! i")
    case AtStart
    with run_inv_begin [OF good step.hyps] step.prems show ?thesis by simp
  next
    case (AtReply r')
    with run_inv_finish [OF good fresh cats step.hyps] step.prems show ?thesis by simp
  next
    case (Returned resp)
    then have "pcs[i := Returned resp] = pcs" by (metis list_update_id)
    with step.prems Returned show ?thesis by (cases "js ! i") simp
  qed
qed

text \<open>The split is the handler: run one after the other, the first step from the start
  and the second from where it stopped give the response and the world of
  \<open>upload_post\<close>.\<close>

lemma job_steps_upload_post:
  "(case job_step a (e, rq) AtStart w of (pc, w1) \<Rightarrow> job_step a (e, rq) pc w1) =
   (case upload_post a e rq w of (resp, w') \<Rightarrow> (Returned resp, w'))"
  by (auto simp: upload_begin_def upload_finish_def upload_post_def upload_try_def upload_except_def Let_def
           split: prod.splits sum.splits)

text \<open>
  C25. However the runtime interleaves the remote calls of concurrent uploads, every
  world of the run satisfies the invariant of the world (\<open>world_inv\<close>: rows approved,
  owned by the placeholder user, their image stored at the host, ids distinct and
  below the sequence, slugs distinct when unique), provided the first world does.
\<close>

theorem concurrent_runs_world_inv:
  assumes "(conc_step a js)\<^sup>*\<^sup>* (conc_start js w0) st" and "world_inv w0"
  shows "world_inv (snd st)"
proof -
  have "conc_inv (conc_start js w0)"
    using assms(2) by (simp add: conc_inv_def conc_start_def list_all_iff pc_hosted_def)
  with assms(1) have "conc_inv st"
    by (induction rule: rtranclp_induct) (auto intro: conc_step_inv)
  then show ?thesis by (simp add: conc_inv_def)
qed

text \<open>
  C26. No upload is lost to concurrency: when uploads whose remote calls succeed run
  interleaved in any order until each has returned (naming categories that exist, and
  with their slugs distinct and new if the schema makes slugs unique), every one was redirected to the listing, the rows
  that were in the table are still its first rows, and the rows after them are, up to
  order and the \<open>id\<close> and \<open>created_at\<close> the datastore stamps, exactly one record per
  upload.
\<close>

theorem concurrent_uploads_all_recorded:
  assumes good: "list_all (upload_good a) js"
    and fresh: "slug_unique (db w0) \<longrightarrow>
                distinct (col_values ''slug'' (contents (db w0) @ List.map_filter (job_record a) js))"
    and cats: "list_all (\<lambda>rec. \<not> fk_violation (db w0) rec) (List.map_filter (job_record a) js)"
    and run: "(conc_step a js)\<^sup>*\<^sup>* (conc_start js w0) (pcs, w)"
    and fin: "list_all is_returned pcs"
  shows "pcs = map (\<lambda>_. Returned (Redirect ''/'')) js \<and>
         take (length (contents (db w0))) (contents (db w)) = contents (db w0) \<and>
         mset (map (drop 2) (drop (length (contents (db w0))) (contents (db w)))) =
           mset (List.map_filter (job_record a) js)"
proof -
  have start: "run_inv a js w0 (conc_start js w0)"
    by (simp add: run_inv_def conc_start_def completed_def list_all2_conv_all_nth good_pc_def
                  zip_map2 zip_same_conv_map comp_def)
  have "run_inv a js w0 st" if "(conc_step a js)\<^sup>*\<^sup>* (conc_start js w0) st" for st
    using that start by (induction rule: rtranclp_induct) (auto intro: run_inv_step [OF good fresh cats])
  from this [OF run] have inv: "run_inv a js w0 (pcs, w)" .
  then have la: "list_all2 (good_pc a) js pcs" by (simp add: run_inv_def)
  have pcs: "pcs = map (\<lambda>_. Returned (Redirect ''/'')) js"
  proof (rule nth_equalityI)
    show "length pcs = length (map (\<lambda>_. Returned (Redirect ''/'')) js)"
      using la by (simp add: list_all2_lengthD)
  next
    fix k assume k: "k < length pcs"
    with la have "good_pc a (js ! k) (pcs ! k)" by (simp add: list_all2_conv_all_nth)
    moreover have "is_returned (pcs ! k)" using fin k by (simp add: list_all_length)
    ultimately show "pcs ! k = map (\<lambda>_. Returned (Redirect ''/'')) js ! k"
      using k la by (cases "pcs ! k") (simp_all add: good_pc_def list_all2_lengthD)
  qed
  have "completed js pcs = js"
    by (simp add: pcs completed_def zip_map2 zip_same_conv_map comp_def)
  with inv pcs show ?thesis by (simp add: run_inv_def)
qed

lemma ex_interleaved_run:
  "(conc_step ex_app ex_uploads)\<^sup>*\<^sup>* (conc_start ex_uploads ex_world) (fst ex_interleaved, snd ex_interleaved)"
  unfolding prod.collapse ex_interleaved_def by (rule sched_run_reach)

theorem concurrent_runs_world_inv_witness: "world_inv (snd ex_interleaved)"
proof -
  have "world_inv ex_world" by (simp add: world_inv_def ex_defs)
  from concurrent_runs_world_inv [OF ex_interleaved_run this] show ?thesis by simp
qed

lemma ex_uploads_good: "list_all (upload_good ex_app) ex_uploads"
  by (simp add: ex_uploads_def upload_good_def job_record_def job_reply_def ex_defs request_defs hosted_url_def)

lemma ex_uploads_fresh:
  "slug_unique (db ex_world) \<longrightarrow>
   distinct (col_values ''slug'' (contents (db ex_world) @ List.map_filter (job_record ex_app) ex_uploads))"
  by (simp add: ex_uploads_def job_record_def job_reply_def ex_defs request_defs hosted_url_def
                new_content_def List.map_filter_def)

lemma ex_uploads_categories:
  "list_all (\<lambda>rec. \<not> fk_violation (db ex_world) rec) (List.map_filter (job_record ex_app) ex_uploads)"
  by (simp add: ex_uploads_def job_record_def job_reply_def ex_defs request_defs hosted_url_def
                new_content_def List.map_filter_def fk_violation_def)

lemma ex_interleaved_returned:
  "fst ex_interleaved = [Returned (Redirect ''/''), Returned (Redirect ''/'')]"
  by (simp add: ex_interleaved_def ex_uploads_def conc_start_def upload_begin_def upload_finish_def
                upload_after_host_def upload_except_def imgbb_post_def supabase_execute_def db_insert_def
                unique_violation_def fk_violation_def resp_json_def upload_accepted_def reply_url_def hosted_url_def
                new_content_def ex_defs request_defs Let_def)

theorem concurrent_uploads_all_recorded_witness:
  "fst ex_interleaved = map (\<lambda>_. Returned (Redirect ''/'')) ex_uploads \<and>
   take (length (contents (db ex_world))) (contents (db (snd ex_interleaved))) = contents (db ex_world) \<and>
   mset (map (drop 2) (drop (length (contents (db ex_world))) (contents (db (snd ex_interleaved))))) =
     mset (List.map_filter (job_record ex_app) ex_uploads)"
  using ex_interleaved_returned
  by (intro concurrent_uploads_all_recorded [OF ex_uploads_good ex_uploads_fresh ex_uploads_categories ex_interleaved_run]) simp

end
