(* ===== verification/Conc_Progress.thy ===== *)
theory Conc_Progress
  imports Concurrency
begin

text \<open>
  The measure of concurrent uploads. An upload has at most two atomic steps to take
  (\<open>remaining\<close>: two before the host call, one after the host's reply, none once it
  has returned), and each step of a request that has not returned takes one of them,
  making at most as many remote calls as it uses up: so a run of n uploads makes at
  most two remote calls per request (bounds, C35), however the runtime interleaves
  them.
\<close>

fun remaining :: "upload_pc \<Rightarrow> nat" where
  "remaining AtStart = 2"
| "remaining (AtReply _) = 1"
| "remaining (Returned _) = 0"

definition pending :: "upload_pc list \<Rightarrow> nat" where
  "pending pcs = sum_list (map remaining pcs)"

section \<open>Lemmas\<close>

lemma sum_list_map_update:
  "i < length xs \<Longrightarrow>
   sum_list (map f (xs[i := x])) + f (xs ! i) = sum_list (map f xs) + (f x :: nat)"
proof (induction xs arbitrary: i)
  case Nil
  then show ?case by simp
next
  case (Cons y ys)
  then show ?case by (cases i) simp_all
qed

lemma upload_except_calls [simp]:
  "calls (snd (upload_except rq rw)) = calls (snd rw)"
  by (simp add: upload_except_def split: prod.split sum.split)

lemma upload_after_host_calls:
  "calls (snd (upload_after_host e rq s r w)) = calls w \<or>
   (\<exists>c. calls (snd (upload_after_host e rq s r w)) = calls w @ [c])"
proof (cases "\<exists>d u. resp_json r = Inr d \<and> upload_accepted r d = Inr True \<and> reply_url d = Inr u")
  case True
  then obtain d u where d: "resp_json r = Inr d" "upload_accepted r d = Inr True" "reply_url d = Inr u"
    by blast
  obtain ir w2 where ins: "supabase_execute e (DbInsert ''contents'' (new_content s u)) w = (ir, w2)"
    by fastforce
  from supabase_execute_frame [OF ins] have "calls w2 = calls w @ [DbInsert ''contents'' (new_content s u)]"
    by simp
  with d ins show ?thesis by (cases ir) (simp_all add: upload_after_host_def)
next
  case False
  then have "snd (upload_after_host e rq s r w) = w \<or>
             snd (upload_after_host e rq s r w) = flash MsgUploadProblem FlashError w"
    by (auto simp: upload_after_host_def split: sum.splits bool.splits)
  then show ?thesis by auto
qed

lemma upload_begin_moves: "fst (upload_begin a e rq w) \<noteq> AtStart"
  by (simp add: upload_begin_def upload_except_def Let_def split: prod.split sum.split)

lemma upload_finish_returns: "is_returned (fst (upload_finish e rq r w))"
  by (simp add: upload_finish_def split: prod.split)

text \<open>A step makes at most as many remote calls as it uses up steps.\<close>

lemma job_step_calls:
  "length (calls (snd (job_step a j pc w))) + remaining (fst (job_step a j pc w)) \<le>
   length (calls w) + remaining pc"
proof (cases j)
  case (Pair e rq)
  show ?thesis
  proof (cases pc)
    case AtStart
    obtain hr w1 where post: "imgbb_post a e (file_bytes (the (files_get rq ''file''))) w = (hr, w1)"
      by fastforce
    from imgbb_post_frame [OF post] have "length (calls w1) = Suc (length (calls w))" by simp
    with post Pair AtStart show ?thesis
      by (auto simp: upload_begin_def upload_except_def Let_def split: sum.splits)
  next
    case (AtReply r)
    from upload_after_host_calls [of e rq "read_submission rq" r w]
    have "length (calls (snd (upload_after_host e rq (read_submission rq) r w))) \<le> Suc (length (calls w))"
      by auto
    moreover have "job_step a j pc w =
      (Returned (fst (upload_except rq (upload_after_host e rq (read_submission rq) r w))),
       snd (upload_except rq (upload_after_host e rq (read_submission rq) r w)))"
      using Pair AtReply by (simp add: upload_finish_def split: prod.split)
    ultimately show ?thesis using AtReply by simp
  next
    case (Returned resp)
    with Pair show ?thesis by simp
  qed
qed

lemma conc_step_cases:
  assumes "conc_step a js st st'"
  obtains i where "i < length js" "i < length (fst st)"
    and "fst st' = (fst st)[i := fst (job_step a (js ! i) (fst st ! i) (snd st))]"
    and "snd st' = snd (job_step a (js ! i) (fst st ! i) (snd st))"
  using assms by (cases st) (auto simp: conc_step_pair)

lemma conc_step_calls:
  assumes "conc_step a js st st'"
  shows "length (calls (snd st')) + pending (fst st') \<le> length (calls (snd st)) + pending (fst st)"
proof -
  from assms obtain i where i: "i < length (fst st)"
    and s1: "fst st' = (fst st)[i := fst (job_step a (js ! i) (fst st ! i) (snd st))]"
    and s2: "snd st' = snd (job_step a (js ! i) (fst st ! i) (snd st))"
    by (rule conc_step_cases)
  show ?thesis
    using job_step_calls [of a "js ! i" "fst st ! i" "snd st"]
      sum_list_map_update [OF i, of remaining "fst (job_step a (js ! i) (fst st ! i) (snd st))"]
    by (simp add: pending_def s1 s2)
qed

text \<open>
  C35. However the runtime interleaves them, concurrent uploads make at most two remote
  calls each: a run of n requests adds at most 2n calls to the log.
\<close>

theorem concurrent_calls_bounded:
  assumes "(conc_step a js)\<^sup>*\<^sup>* (conc_start js w0) (pcs, w)"
  shows "length (calls w) \<le> length (calls w0) + 2 * length js"
proof -
  have start: "pending (map (\<lambda>_. AtStart) js) = 2 * length js"
    by (induction js) (simp_all add: pending_def)
  have "length (calls (snd st)) + pending (fst st) \<le> length (calls w0) + 2 * length js"
    if "(conc_step a js)\<^sup>*\<^sup>* (conc_start js w0) st" for st
    using that
  proof (induction rule: rtranclp_induct)
    case base
    then show ?case by (simp add: start conc_start_def)
  next
    case (step st st')
    with conc_step_calls [OF step.hyps(2)] show ?case by linarith
  qed
  from this [OF assms] show ?thesis by simp
qed

section \<open>Witnesses\<close>

theorem concurrent_calls_bounded_witness: "length (calls (snd ex_interleaved)) \<le> 4"
proof -
  have "length (calls (snd ex_interleaved)) \<le> length (calls ex_world) + 2 * length ex_uploads"
    using ex_interleaved_run by (rule concurrent_calls_bounded)
  then show ?thesis by (simp add: ex_world_def ex_uploads_def)
qed

end
