(* ===== verification/Conc_Serial.thy ===== *)
theory Conc_Serial
  imports Conc_Progress
begin

text \<open>
  Serializability of concurrent uploads at the datastore. The handlers take no lock, but
  each upload touches the datastore in one atomic call at most, and what it decides
  before that call depends on its request and on the environment only. So a run of
  concurrent uploads in which every request has returned leaves the datastore exactly
  as running the same uploads one at a time, each by the sequential handler
  \<open>upload_post\<close>, in the order in which they returned (\<open>serial_db\<close>). This holds
  for every behaviour of the environment: failed posts, failed inserts and constraint
  violations included.
\<close>

definition serial_db :: "app \<Rightarrow> job list \<Rightarrow> world \<Rightarrow> nat list \<Rightarrow> db_state" where
  "serial_db a js w0 ps =
     fold (\<lambda>i d. db (snd (upload_post a (fst (js ! i)) (snd (js ! i)) (w0\<lparr>db := d\<rparr>)))) ps (db w0)"

definition serial_inv :: "app \<Rightarrow> job list \<Rightarrow> world \<Rightarrow> conc_state \<Rightarrow> bool" where
  "serial_inv a js w0 st =
     (case st of (pcs, w) \<Rightarrow>
        length pcs = length js \<and>
        (\<forall>i < length js. \<forall>r. pcs ! i = AtReply r \<longrightarrow>
           fst (upload_begin a (fst (js ! i)) (snd (js ! i)) w0) = AtReply r) \<and>
        (\<exists>ps. distinct ps \<and> set ps = {i. i < length js \<and> is_returned (pcs ! i)} \<and>
              db w = serial_db a js w0 ps))"

section \<open>Lemmas\<close>

lemma imgbb_post_result_indep: "fst (imgbb_post a e b w) = fst (imgbb_post a e b w')"
  by (simp add: imgbb_post_def Let_def split: sum.split option.split)

lemma supabase_execute_indep:
  "db w = db w' \<Longrightarrow>
   fst (supabase_execute e c w) = fst (supabase_execute e c w') \<and>
   db (snd (supabase_execute e c w)) = db (snd (supabase_execute e c w'))"
  by (simp add: supabase_execute_def log_call_def Let_def
           split: option.split ext_call.split sum.split prod.split)

text \<open>What the first step of an upload decides does not depend on the world.\<close>

lemma upload_begin_pc_indep: "fst (upload_begin a e rq w) = fst (upload_begin a e rq w')"
proof (cases "file_truthy (files_get rq ''file'')")
  case True
  obtain hr w1 where p: "imgbb_post a e (file_bytes (the (files_get rq ''file''))) w = (hr, w1)"
    by fastforce
  obtain hr' w1' where p': "imgbb_post a e (file_bytes (the (files_get rq ''file''))) w' = (hr', w1')"
    by fastforce
  from p p' imgbb_post_result_indep have "hr' = hr" by (metis fst_conv)
  with True p p' show ?thesis
    by (simp add: upload_begin_def upload_except_def Let_def split: sum.split)
next
  case False
  then show ?thesis by (simp add: upload_begin_def Let_def)
qed

text \<open>The datastore after the rest of an upload depends on the datastore only.\<close>

lemma upload_after_host_db_indep:
  assumes "db w = db w'"
  shows "db (snd (upload_after_host e rq s r w)) = db (snd (upload_after_host e rq s r w'))"
proof (cases "\<exists>d u. resp_json r = Inr d \<and> upload_accepted r d = Inr True \<and> reply_url d = Inr u")
  case True
  then obtain d u where d: "resp_json r = Inr d" "upload_accepted r d = Inr True" "reply_url d = Inr u"
    by blast
  obtain ir w2 where x: "supabase_execute e (DbInsert ''contents'' (new_content s u)) w = (ir, w2)"
    by fastforce
  obtain ir' w2' where x': "supabase_execute e (DbInsert ''contents'' (new_content s u)) w' = (ir', w2')"
    by fastforce
  from supabase_execute_indep [OF assms, of e "DbInsert ''contents'' (new_content s u)"] x x'
  have "ir' = ir" "db w2' = db w2" by simp_all
  with d x x' show ?thesis by (cases ir) (simp_all add: upload_after_host_def)
next
  case False
  then have "snd (upload_after_host e rq s r w) \<in> {w, flash MsgUploadProblem FlashError w}"
    and "snd (upload_after_host e rq s r w') \<in> {w', flash MsgUploadProblem FlashError w'}"
    by (auto simp: upload_after_host_def split: sum.splits bool.splits)
  with assms show ?thesis by auto
qed

text \<open>The sequential handler, seen at the datastore, is its two steps.\<close>

lemma upload_post_db_steps:
  "db (snd (upload_post a e rq w)) =
     (case fst (upload_begin a e rq w) of
        AtReply r \<Rightarrow> db (snd (upload_after_host e rq (read_submission rq) r (snd (upload_begin a e rq w))))
      | _ \<Rightarrow> db (snd (upload_begin a e rq w)))"
  by (auto simp: upload_begin_def upload_post_def upload_try_def upload_except_def Let_def
           split: prod.splits sum.splits)

lemma upload_begin_db: "db (snd (upload_begin a e rq w)) = db w"
  using upload_begin_frame [of a e rq w "fst (upload_begin a e rq w)" "snd (upload_begin a e rq w)"]
  by simp

lemma serial_db_snoc:
  "serial_db a js w0 (ps @ [i]) = db (snd (upload_post a (fst (js ! i)) (snd (js ! i)) (w0\<lparr>db := serial_db a js w0 ps\<rparr>)))"
  by (simp add: serial_db_def)

lemma returned_set_update:
  assumes "i < length pcs" and "\<not> is_returned (pcs ! i)"
  shows "{k. k < n \<and> is_returned (pcs[i := x] ! k)} =
         (if is_returned x \<and> i < n then insert i {k. k < n \<and> is_returned (pcs ! k)}
          else {k. k < n \<and> is_returned (pcs ! k)})"
  using assms by (auto simp: nth_list_update split: if_splits)

lemma replies_update:
  assumes "\<forall>k < n. \<forall>r. pcs ! k = AtReply r \<longrightarrow> P k r" and "i < length pcs"
    and "\<forall>r. x = AtReply r \<longrightarrow> P i r"
  shows "\<forall>k < n. \<forall>r. pcs[i := x] ! k = AtReply r \<longrightarrow> P k r"
proof (intro allI impI)
  fix k r assume "k < n" and "pcs[i := x] ! k = AtReply r"
  with assms show "P k r" by (cases "k = i") simp_all
qed

lemma serial_inv_step:
  assumes "conc_step a js st st'" and "serial_inv a js w0 st"
  shows "serial_inv a js w0 st'"
  using assms
proof (induction rule: conc_step.induct)
  case (step i pcs w)
  obtain e rq where j: "js ! i = (e, rq)" by fastforce
  from step.prems obtain ps where len: "length pcs = length js"
    and replies: "\<forall>k < length js. \<forall>r. pcs ! k = AtReply r \<longrightarrow>
                    fst (upload_begin a (fst (js ! k)) (snd (js ! k)) w0) = AtReply r"
    and ps: "distinct ps" "set ps = {k. k < length js \<and> is_returned (pcs ! k)}"
    and dbw: "db w = serial_db a js w0 ps"
    by (auto simp: serial_inv_def)
  let ?W = "w0\<lparr>db := db w\<rparr>"
  show ?case
  proof (cases "pcs ! i")
    case AtStart
    let ?pc = "fst (upload_begin a e rq w)"
    have pc0: "fst (upload_begin a e rq w0) = ?pc" and pcW: "fst (upload_begin a e rq ?W) = ?pc"
      by (rule upload_begin_pc_indep)+
    have dbw': "db (snd (upload_begin a e rq w)) = db w" by (rule upload_begin_db)
    have nr: "\<not> is_returned (pcs ! i)" using AtStart by simp
    have "?pc \<noteq> AtStart" by (rule upload_begin_moves)
    then consider r where "?pc = AtReply r" | resp where "?pc = Returned resp"
      by (cases ?pc) auto
    then show ?thesis
    proof cases
      case (1 r)
      have st: "job_step a (js ! i) (pcs ! i) w = upload_begin a e rq w" using AtStart j by simp
      have sets: "{k. k < length js \<and> is_returned (pcs[i := ?pc] ! k)} = set ps"
        using returned_set_update [of i pcs, OF _ nr] step.hyps ps(2) 1 by simp
      have reps: "\<forall>k < length js. \<forall>r'. pcs[i := ?pc] ! k = AtReply r' \<longrightarrow>
                    fst (upload_begin a (fst (js ! k)) (snd (js ! k)) w0) = AtReply r'"
        using replies step.hyps(2) pc0 1 j by (intro replies_update) simp_all
      have dbs: "db (snd (upload_begin a e rq w)) = serial_db a js w0 ps" using dbw dbw' by simp
      have ln: "length (pcs[i := ?pc]) = length js" using len by simp
      show ?thesis unfolding st serial_inv_def prod.case using ln reps ps(1) sets dbs by blast
    next
      case (2 resp)
      have i_new: "i \<notin> set ps" using ps(2) nr by simp
      have st: "job_step a (js ! i) (pcs ! i) w = upload_begin a e rq w" using AtStart j by simp
      have sets: "{k. k < length js \<and> is_returned (pcs[i := ?pc] ! k)} = set (ps @ [i])"
        using returned_set_update [of i pcs, OF _ nr] step.hyps ps(2) 2 by simp
      have dbs: "db (snd (upload_begin a e rq w)) = serial_db a js w0 (ps @ [i])"
        using dbw dbw' j pcW 2 upload_begin_db [of a e rq ?W]
        by (simp add: serial_db_snoc upload_post_db_steps)
      have reps: "\<forall>k < length js. \<forall>r'. pcs[i := ?pc] ! k = AtReply r' \<longrightarrow>
                    fst (upload_begin a (fst (js ! k)) (snd (js ! k)) w0) = AtReply r'"
        using replies step.hyps(2) 2 by (intro replies_update) simp_all
      have ds: "distinct (ps @ [i])" using ps(1) i_new by simp
      have ln: "length (pcs[i := ?pc]) = length js" using len by simp
      show ?thesis unfolding st serial_inv_def prod.case using ln reps ds sets dbs by blast
    qed
  next
    case (AtReply r)
    have r0: "fst (upload_begin a e rq w0) = AtReply r" using replies step.hyps(1) AtReply j by auto
    then have rW: "fst (upload_begin a e rq ?W) = AtReply r" by (metis upload_begin_pc_indep)
    have nr: "\<not> is_returned (pcs ! i)" using AtReply by simp
    have i_new: "i \<notin> set ps" using ps(2) nr by simp
    let ?w' = "snd (upload_finish e rq r w)"
    have "db ?w' = db (snd (upload_after_host e rq (read_submission rq) r w))"
      by (simp add: upload_finish_def prod.case_eq_if)
    also have "\<dots> = db (snd (upload_after_host e rq (read_submission rq) r (snd (upload_begin a e rq ?W))))"
      by (rule upload_after_host_db_indep) (simp add: upload_begin_db)
    also have "\<dots> = serial_db a js w0 (ps @ [i])"
      using dbw j rW by (simp add: serial_db_snoc upload_post_db_steps)
    finally have db': "db ?w' = serial_db a js w0 (ps @ [i])" .
    have ret: "is_returned (fst (upload_finish e rq r w))" by (rule upload_finish_returns)
    have st: "job_step a (js ! i) (pcs ! i) w = upload_finish e rq r w" using AtReply j by simp
    have sets: "{k. k < length js \<and> is_returned (pcs[i := fst (upload_finish e rq r w)] ! k)} = set (ps @ [i])"
      using returned_set_update [of i pcs, OF _ nr] step.hyps ps(2) ret by simp
    have reps: "\<forall>k < length js. \<forall>r'. pcs[i := fst (upload_finish e rq r w)] ! k = AtReply r' \<longrightarrow>
                  fst (upload_begin a (fst (js ! k)) (snd (js ! k)) w0) = AtReply r'"
      using replies step.hyps(2) ret by (intro replies_update) (auto elim: is_returned.elims)
    have ds: "distinct (ps @ [i])" using ps(1) i_new by simp
    have ln: "length (pcs[i := fst (upload_finish e rq r w)]) = length js" using len by simp
    show ?thesis unfolding st serial_inv_def prod.case using ln reps ds sets db' by blast
  next
    case (Returned resp)
    then have "pcs[i := Returned resp] = pcs" by (metis list_update_id)
    with step.prems j Returned show ?thesis by simp
  qed
qed

lemma serial_inv_reach:
  assumes "(conc_step a js)\<^sup>*\<^sup>* (conc_start js w0) st"
  shows "serial_inv a js w0 st"
proof -
  have "serial_inv a js w0 (conc_start js w0)"
    by (auto simp: serial_inv_def conc_start_def serial_db_def intro: exI [of _ "[]"])
  with assms show ?thesis by (induction rule: rtranclp_induct) (auto intro: serial_inv_step)
qed

text \<open>
  C38. Refinement of concurrent uploads by sequential ones: whatever the environment
  does, every run of concurrent uploads in which all requests have returned leaves the
  datastore exactly as some sequential run does, handling the same uploads one at a
  time with \<open>upload_post\<close>, each exactly once, in some order.
\<close>

theorem interleaved_uploads_serializable:
  assumes run: "(conc_step a js)\<^sup>*\<^sup>* (conc_start js w0) (pcs, w)" and fin: "list_all is_returned pcs"
  shows "\<exists>ps. mset ps = mset [0..<length js] \<and> db w = serial_db a js w0 ps"
proof -
  from serial_inv_reach [OF run] obtain ps where len: "length pcs = length js" and d: "distinct ps"
    and s: "set ps = {k. k < length js \<and> is_returned (pcs ! k)}" and dbw: "db w = serial_db a js w0 ps"
    by (auto simp: serial_inv_def)
  from fin len s have "set ps = set [0..<length js]" by (auto simp: list_all_length)
  with d have "mset ps = mset [0..<length js]" by (metis set_eq_iff_mset_eq_distinct distinct_upt)
  with dbw show ?thesis by blast
qed

section \<open>Witnesses\<close>

theorem interleaved_uploads_serializable_witness:
  "\<exists>ps. mset ps = mset [0..<length ex_uploads] \<and>
        db (snd ex_interleaved) = serial_db ex_app ex_uploads ex_world ps"
proof -
  have "list_all is_returned (fst ex_interleaved)" by (simp add: ex_interleaved_returned)
  from interleaved_uploads_serializable [OF ex_interleaved_run this] show ?thesis .
qed

end
