(* ===== verification/Startup.thy ===== *)
theory Startup
  imports Web_Env
begin

text \<open>
  Module initialisation of \<open>src/app.py\<close> (lines 1 to 20) and its entry point (lines
  99 to 101). At import the module loads the \<open>.env\<close> file into the process
  environment (\<open>load_dotenv()\<close>, line 8), reads its four settings with
  \<open>os.getenv\<close> (\<open>read_config\<close>, lines 11 to 19), creates the datastore client
  (\<open>create_client\<close>, line 16) and keeps the secret key and the image host's key
  (\<open>app_init\<close>). Run as a script it starts Flask's development server
  (\<open>module_main\<close>); imported by a hosting dispatcher it does not.
  \<^item> The process environment is an association list without repeated keys; the
    \<open>.env\<close> file is the list of its assignments in file order, \<open>None\<close> for a line
    with a key and no \<open>=\<close>. python-dotenv's \<open>load_dotenv()\<close> (its default
    \<open>override=False\<close>) sets each key of the file that the environment does not
    have, to the value of its last assignment, and skips keys without a value.
    Variable interpolation inside values (\<open>${VAR}\<close>) is not modelled: values are
    taken literally.
\<close>

section \<open>The environment and the .env file\<close>

definition dotenv_value :: "(string \<times> string option) list \<Rightarrow> string \<Rightarrow> string option" where
  "dotenv_value dot k = (case map_of (rev dot) k of Some (Some v) \<Rightarrow> Some v | _ \<Rightarrow> None)"

definition load_dotenv :: "(string \<times> string) list \<Rightarrow> (string \<times> string option) list \<Rightarrow> (string \<times> string) list" where
  "load_dotenv env dot =
     env @ List.map_filter
             (\<lambda>k. map_option (Pair k) (if k \<in> set (map fst env) then None else dotenv_value dot k))
             (remdups (map fst dot))"

text \<open>Lines 11, 14, 15 and 19: \<open>os.getenv\<close> of the four settings.\<close>

definition read_config :: "(string \<times> string) list \<Rightarrow> config" where
  "read_config env =
     \<lparr>env_secret_key = map_of env ''FLASK_SECRET_KEY'', env_supabase_url = map_of env ''SUPABASE_URL'',
      env_supabase_key = map_of env ''SUPABASE_KEY'', env_imgbb_key = map_of env ''IMGBB_API_KEY''\<rparr>"

section \<open>Client creation and the module's globals\<close>

text \<open>\<open>create_client(url, key)\<close> of supabase-py refuses an empty or missing URL or
  key and a URL that is not \<open>http(s)://...\<close>; it runs at import time.\<close>

definition valid_supabase_url :: "string \<Rightarrow> bool" where
  "valid_supabase_url u =
     ((take 7 u = ''http://'' \<and> 7 < length u) \<or> (take 8 u = ''https://'' \<and> 8 < length u))"

definition create_client :: "string option \<Rightarrow> string option \<Rightarrow> unit py_result" where
  "create_client url key =
     (case url of
        None \<Rightarrow> Inl (SupabaseException ''supabase_url is required'')
      | Some u \<Rightarrow>
          if u = [] then Inl (SupabaseException ''supabase_url is required'')
          else (case key of
                  None \<Rightarrow> Inl (SupabaseException ''supabase_key is required'')
                | Some k \<Rightarrow>
                    if k = [] then Inl (SupabaseException ''supabase_key is required'')
                    else if \<not> valid_supabase_url u then Inl (SupabaseException ''Invalid URL'')
                    else Inr ()))"

definition app_init :: "config \<Rightarrow> app py_result" where
  "app_init cfg =
     (let secret = (case env_secret_key cfg of None \<Rightarrow> ''sahityik_secret_key_2026'' | Some s \<Rightarrow> s)
      in case create_client (env_supabase_url cfg) (env_supabase_key cfg) of
           Inl e \<Rightarrow> Inl e
         | Inr _ \<Rightarrow> Inr \<lparr>secret_key = secret, imgbb_key = env_imgbb_key cfg\<rparr>)"

text \<open>Lines 8 to 20 in order: load the file, read the settings, create the client.\<close>

definition module_init :: "(string \<times> string) list \<Rightarrow> (string \<times> string option) list \<Rightarrow> app py_result" where
  "module_init env dot = app_init (read_config (load_dotenv env dot))"

section \<open>The entry point\<close>

record dev_server =
  srv_debug :: bool
  srv_port :: nat

text \<open>Lines 100 and 101: the development server, started only when the module runs as
  the main program.\<close>

definition module_main :: "string \<Rightarrow> dev_server option" where
  "module_main name = (if name = ''__main__'' then Some \<lparr>srv_debug = True, srv_port = 5000\<rparr> else None)"

section \<open>Lemmas\<close>

lemma map_of_map_filter_pair:
  "map_of (List.map_filter (\<lambda>k. map_option (Pair k) (g k)) ks) k = (if k \<in> set ks then g k else None)"
  by (induction ks) (auto simp: List.map_filter_def split: option.splits)

lemma dotenv_value_absent:
  assumes "k \<notin> set (map fst dot)"
  shows "dotenv_value dot k = None"
proof -
  from assms have "map_of (rev dot) k = None" by (simp add: map_of_eq_None_iff)
  then show ?thesis by (simp add: dotenv_value_def)
qed

section \<open>Properties\<close>

text \<open>
  C36. After \<open>load_dotenv()\<close> every setting is read from the process environment when
  it is set there, and otherwise from the last assignment of the \<open>.env\<close> file that
  gives it a value: the file never overrides the environment.
\<close>

theorem getenv_after_load_dotenv:
  "map_of (load_dotenv env dot) k =
     (case map_of env k of
        Some v \<Rightarrow> Some v
      | None \<Rightarrow> (case map_of (rev dot) k of Some (Some v) \<Rightarrow> Some v | _ \<Rightarrow> None))"
proof (cases "map_of env k")
  case None
  then have "k \<notin> set (map fst env)" by (simp add: map_of_eq_None_iff)
  then have "map_of (load_dotenv env dot) k = dotenv_value dot k"
    using None by (auto simp: load_dotenv_def map_add_def map_of_map_filter_pair dotenv_value_absent)
  with None show ?thesis by (simp add: dotenv_value_def)
next
  case (Some v)
  then show ?thesis by (simp add: load_dotenv_def)
qed

text \<open>
  C37. Importing the module succeeds exactly when the datastore URL and key, each taken
  from the process environment or else from the \<open>.env\<close> file, are both present and
  non-empty and the URL is an http(s) URL; otherwise the import raises.
\<close>

theorem module_init_succeeds:
  "(\<exists>a. module_init env dot = Inr a) \<longleftrightarrow>
   (case (map_of (load_dotenv env dot) ''SUPABASE_URL'', map_of (load_dotenv env dot) ''SUPABASE_KEY'') of
      (Some u, Some k) \<Rightarrow> u \<noteq> [] \<and> k \<noteq> [] \<and> valid_supabase_url u
    | _ \<Rightarrow> False)"
  by (simp add: module_init_def app_init_def create_client_def read_config_def Let_def
           split: option.split sum.split)

text \<open>
  C21. The key that signs the sessions of the started application is
  \<open>FLASK_SECRET_KEY\<close> as \<open>os.getenv\<close> reads it after \<open>load_dotenv()\<close>, and the
  literal written in the source when neither the environment nor the \<open>.env\<close> file
  sets it.
\<close>

theorem module_init_secret_key:
  assumes "module_init env dot = Inr a"
  shows "secret_key a =
    (case map_of (load_dotenv env dot) ''FLASK_SECRET_KEY'' of
       Some s \<Rightarrow> s
     | None \<Rightarrow> ''sahityik_secret_key_2026'')"
  using assms
  by (auto simp: module_init_def app_init_def read_config_def Let_def split: sum.splits option.split)

section \<open>Witnesses\<close>

theorem module_init_secret_key_witness:
  "secret_key (projr (module_init [(''SUPABASE_URL'', ''https://x.supabase.co''), (''SUPABASE_KEY'', ''anon'')] [])) =
     ''sahityik_secret_key_2026'' \<and>
   secret_key (projr (module_init [(''SUPABASE_URL'', ''https://x.supabase.co''), (''SUPABASE_KEY'', ''anon'')]
                                  [(''FLASK_SECRET_KEY'', Some ''s3cret'')])) = ''s3cret''"
proof -
  let ?env = "[(''SUPABASE_URL'', ''https://x.supabase.co''), (''SUPABASE_KEY'', ''anon'')]"
  let ?d1 = "[] :: (string \<times> string option) list"
  let ?d2 = "[(''FLASK_SECRET_KEY'', Some ''s3cret'')]"
  have i1: "module_init ?env ?d1 = Inr (projr (module_init ?env ?d1))"
    and i2: "module_init ?env ?d2 = Inr (projr (module_init ?env ?d2))"
    by (simp_all add: module_init_def app_init_def create_client_def read_config_def load_dotenv_def
                      valid_supabase_url_def List.map_filter_def dotenv_value_def)
  have k1: "map_of (load_dotenv ?env ?d1) ''FLASK_SECRET_KEY'' = None"
    and k2: "map_of (load_dotenv ?env ?d2) ''FLASK_SECRET_KEY'' = Some ''s3cret''"
    by (simp_all add: load_dotenv_def List.map_filter_def dotenv_value_def)
  show ?thesis using module_init_secret_key [OF i1] module_init_secret_key [OF i2] k1 k2 by simp
qed

end
