(* ===== verification/Spec2Isabelle.thy ===== *)
theory Spec2Isabelle
  imports Catalogue Published Conc_Serial Startup
begin

text \<open>
  Verification of the content-publishing site of \<open>src/app.py\<close> (Flask, with a
  Supabase datastore and the ImgBB image host).

  \<^bold>\<open>The program.\<close> One module, three request handlers and no shared process state.
  At import time (lines 1 to 20) the module loads the \<open>.env\<close> file, reads its
  configuration and creates the datastore client; run as a script (lines 99 to 101) it
  starts the development server. \<open>index\<close> (route \<open>/\<close>) lists the approved contents, newest
  first, joined with their category names, and falls back to an empty list, printing
  the error, when the query raises. \<open>single_content\<close> (\<open>/content/<slug>\<close>) shows the
  first row with the slug, or 404. \<open>upload_content\<close> (\<open>/upload\<close>) shows the form with
  the categories on GET; on POST it reads the form, refuses a missing file, posts the
  image to ImgBB, builds the record (placeholder user, approved) and inserts it,
  flashing one notice on every path and redirecting.

  \<^bold>\<open>Theories.\<close>
  \<^item> \<open>Web_Prelude\<close>: JSON values as Python holds them, Python exceptions and
    \<open>str(e)\<close>, \<open>d[k]\<close> (\<open>py_getitem\<close>), truthiness (\<open>py_truthy\<close>), column access
    on rows; the collections \<open>py_simps\<close> and \<open>world_simps\<close>.
  \<^item> \<open>Datastore\<close>: the external datastore as the application uses it, from the spec's
    contract: the \<open>contents\<close> and \<open>categories\<close> tables (\<open>db_state\<close>), the query
    builder (\<open>sb_table\<close>, \<open>sb_select\<close>, \<open>sb_eq\<close>, \<open>sb_order\<close>), \<open>db_select\<close> with
    equality filters, a stable \<open>ORDER BY\<close> and the many-to-one embedding of
    \<open>categories(name_bn)\<close>, and \<open>db_insert\<close> with the \<open>id\<close> and \<open>created_at\<close>
    defaults, an optional \<open>UNIQUE (slug)\<close> and the foreign key from
    \<open>category_id\<close> to the categories (\<open>fk_violation\<close>). Lemmas: results are permutations of
    the filtered rows, sorted when ordered; the unique constraint is kept by inserts
    and gives at most one row per slug.
  \<^item> \<open>Web_Env\<close>: Flask's request, response and flash queue, the ImgBB reply and the
    host's contract (\<open>hosted_url\<close>), the \<open>world\<close> (datastore, images at the host,
    log of remote calls, flash queue, standard output), the environment's choices for
    one request (\<open>ext\<close>: a datastore failure, the host's answer), the configuration
    records, and the effects
    \<open>supabase_execute\<close>, \<open>imgbb_post\<close>, \<open>flash\<close>, \<open>py_print\<close> with their frame
    lemmas.
  \<^item> \<open>Startup\<close>: module initialisation, \<open>load_dotenv\<close> (python-dotenv without
    override), \<open>read_config\<close> (the \<open>os.getenv\<close> calls), \<open>create_client\<close>,
    \<open>app_init\<close>, \<open>module_init\<close> (lines 8 to 20) and the entry point
    \<open>module_main\<close> (lines 100 and 101): the environment takes precedence over the file
    (C36), the import succeeds exactly when the datastore settings are valid (C37), and
    sessions are signed with \<open>FLASK_SECRET_KEY\<close> as read after \<open>load_dotenv()\<close>,
    the literal of the source when it is set nowhere (C21).
  \<^item> \<open>Examples\<close>: concrete worlds, replies and requests used by the witnesses.
  \<^item> \<open>Handlers\<close>: \<open>index\<close>, \<open>single_content\<close>, \<open>upload_content\<close> (with
    \<open>read_submission\<close>, \<open>new_content\<close>, \<open>upload_accepted\<close>, \<open>reply_url\<close>,
    \<open>upload_after_host\<close>, \<open>upload_try\<close>, \<open>upload_except\<close>, \<open>upload_post\<close>,
    \<open>upload_form\<close>) and \<open>dispatch\<close>: the URL map of \<open>Flask(__name__)\<close> and the
    decorators (\<open>match_path\<close>, with Flask's \<open>/static/<path:filename>\<close> rule),
    werkzeug's matcher with its retry on the path with double slashes merged
    (\<open>merge_slashes\<close>, answered 308), and \<open>route\<close> (Flask's automatic HEAD and
    OPTIONS, 405 otherwise); each statement of the source in its order; the functional
    theorems of every branch (C1 to C7, C11 to C15, C18, C19, C27, C34) and of the router
    (C24, C28, C29, C33).
  \<^item> \<open>App_Run\<close>: runs as a step relation (\<open>app_step\<close>: a request, the clock, the
    categories edited elsewhere), \<open>reachable\<close> worlds from an empty table, the
    invariant \<open>world_inv\<close> by rule induction (C8) and its consequences for the
    listing (C16) and the detail page (C17); requests other than POST are read-only
    (C23).
  \<^item> \<open>Concurrency\<close>: uploads served concurrently by the hosting runtime. An upload is
    two atomic steps (\<open>upload_begin\<close>, lines 49 to 65, up to the host's reply;
    \<open>upload_finish\<close>, lines 66 to 92), and \<open>conc_step\<close> moves any one request, so
    that every interleaving of the remote calls is a run; run in sequence the two steps
    are \<open>upload_post\<close>. Every interleaved run keeps \<open>world_inv\<close> (C25); and
    uploads whose remote calls succeed are never lost, whatever the interleaving: each
    leaves exactly one record (C26).
  \<^item> \<open>Conc_Progress\<close>: the measure of the steps each upload has still to take
    (\<open>remaining\<close>, \<open>pending\<close>), which bounds the remote calls of a run: n uploads
    make at most 2n of them (C35).
  \<^item> \<open>Conc_Serial\<close>: serializability at the datastore. What the first step of an
    upload decides depends on its request and the environment only, and the datastore
    after the second depends on the datastore only; so every complete interleaved run
    leaves the datastore as the sequential handler \<open>upload_post\<close> run on the same
    uploads one at a time, in some order (\<open>serial_db\<close>), for every behaviour of the
    environment (C38).
  \<^item> \<open>Published\<close>: the type of the rows of the contents table (\<open>row_typed\<close>), kept
    in every reachable world (C30), and the round trips of an upload through the
    detail page (C31) and the listing (C32).
  \<^item> \<open>Catalogue\<close>: the abstract specification, the catalogue of approved items a
    visitor sees (\<open>catalogue\<close>, \<open>row_item\<close>) and its one operation \<open>publish\<close>,
    with the lemma that an insert of the datastore publishes the submitted item.
  \<^item> this theory, the properties across components: every request refines "unchanged
    or one item published" (C9), and so does every run of concurrent uploads, each
    finished request publishing its own item at most once, in some order (C39, from the
    serializability of \<open>Conc_Serial\<close>); identical submissions give two records
    (C10); an image is orphaned at the host exactly when the host stored it and the
    insert then failed (C40), and from a world with no row and no image a run of
    requests reaches one (C22); start-up and request
    handling agree on the image host's key, which the import reads but never checks,
    so that without it uploads are posted with no key (C20).

  \<^bold>\<open>Modelling choices.\<close> Python dicts are association lists (first binding wins, as
  \<open>MultiDict.get\<close> and JSON objects without duplicates behave); \<open>request.form.get\<close>
  gives \<open>string option\<close> and \<open>None\<close> is stored as JSON null. The Bengali notices are
  the constructors of \<open>flash_msg\<close>. An exception the source does not catch is
  Flask's 500. Transport failures of the datastore and the image host's answers are
  inputs (\<open>ext\<close>), so every theorem holds for every behaviour of the environment
  that its hypotheses allow. Timestamps are integers; the datastore's clock only moves
  forward. Categories are identified by text ids compared by equality. The flash queue
  of the world is the session of the client making the requests: Flask keeps one per
  client in a signed cookie, and no theorem about concurrent runs reads it.

  \<^bold>\<open>Not modelled.\<close> HTML templates: \<open>index.html\<close>, \<open>single.html\<close> and
  \<open>upload.html\<close> are not in the repository, so the model ends at the template name
  and the context passed to \<open>render_template\<close>; likewise the repository has no
  static folder, so the static view ends at the file name (\<open>SendStatic\<close>);
  Flask's session signing; HTTP transport and the headers of responses; the
  development server itself (the model stops at the decision to start it and its
  settings); variable interpolation in \<open>.env\<close> values; PostgREST type casts of
  inserted values (the schema's column types are not in the repository); row-level
  security. No loop of the program needs fuel: every handler is straight-line code over
  finite data. Everything of \<open>src/app.py\<close> but its imports and comments is the
  source of a definition; what remains outside the model is the code of the libraries
  and services it calls, listed here. The request pool needs no termination argument either: each
  upload is two atomic steps.
\<close>

section \<open>Properties across components\<close>

text \<open>
  C9. Refinement: every request, whatever the environment does, either leaves the
  visible catalogue unchanged or publishes exactly one item, the one submitted with the
  image the host stored; in the second case the response is the redirect to the listing.
\<close>

theorem upload_refines_publish:
  assumes "dispatch a e rq w = (resp, w')"
  shows "catalogue (db w') = catalogue (db w) \<or>
    (\<exists>u. u \<in> fst ` set (hosted w') \<and> resp = Redirect ''/'' \<and>
         catalogue (db w') = publish (catalogue (db w)) (read_submission rq) u)"
  using dispatch_db [OF assms] catalogue_insert by metis

lemma dispatch_upload_accepted:
  assumes "req_path rq = ''/upload''" "req_method rq = POST"
    and "files_get rq ''file'' = Some f" "filename f \<noteq> []"
    and "host_reply e (imgbb_key a) (file_bytes f) = Inr r" "status_code r = 200"
      "reply_body r = Some d" "py_getitem d ''success'' = Inr s" "py_truthy s" "reply_url d = Inr u"
    and "db_fault e = None" "\<not> slug_unique (db w)"
    and "\<not> fk_violation (db w) (new_content (read_submission rq) u)"
  shows "dispatch a e rq w =
    (Redirect ''/'',
     w\<lparr>db := (db w)\<lparr>contents := contents (db w) @
                       [(''id'', JInt (next_id (db w))) # (''created_at'', JInt (clock (db w))) #
                        new_content (read_submission rq) u],
                     next_id := next_id (db w) + 1\<rparr>,
       hosted := hosted w @ [(u, file_bytes f)],
       calls := calls w @ [ImgbbPost (imgbb_key a) (file_bytes f),
                           DbInsert ''contents'' (new_content (read_submission rq) u)],
       flashes := flashes w @ [(FlashSuccess, MsgUploaded)]\<rparr>)"
proof -
  have nv: "\<not> unique_violation (db w) (new_content (read_submission rq) u)"
    using assms(12) by (simp add: unique_violation_def)
  have disp: "dispatch a e rq w = upload_content a e rq w"
    using assms(1,2) by (simp add: dispatch_upload route_def)
  show ?thesis
    unfolding disp using assms(2-11) nv assms(13) by (rule upload_content_accepted)
qed

text \<open>
  C10. No deduplication: without a unique constraint on slugs, submitting the same form
  (naming a category that exists, or none)
  twice, with the host accepting the image both times, creates two records with the same
  fields and different ids, and both requests end in the success redirect.
\<close>

theorem identical_uploads_two_records:
  assumes "req_path rq = ''/upload''" "req_method rq = POST"
    and "files_get rq ''file'' = Some f" "filename f \<noteq> []"
    and "host_reply e (imgbb_key a) (file_bytes f) = Inr r" "status_code r = 200"
      "reply_body r = Some d" "py_getitem d ''success'' = Inr s" "py_truthy s" "reply_url d = Inr u"
    and "db_fault e = None" "\<not> slug_unique (db w)"
    and "\<not> fk_violation (db w) (new_content (read_submission rq) u)"
    and "dispatch a e rq w = (resp1, w1)" and "dispatch a e rq w1 = (resp2, w2)"
  shows "resp1 = Redirect ''/'' \<and> resp2 = Redirect ''/'' \<and>
    contents (db w2) = contents (db w) @
      [(''id'', JInt (next_id (db w))) # (''created_at'', JInt (clock (db w))) # new_content (read_submission rq) u,
       (''id'', JInt (next_id (db w) + 1)) # (''created_at'', JInt (clock (db w))) # new_content (read_submission rq) u]"
proof -
  have first: "resp1 = Redirect ''/''"
    "db w1 = (db w)\<lparr>contents := contents (db w) @
                       [(''id'', JInt (next_id (db w))) # (''created_at'', JInt (clock (db w))) #
                        new_content (read_submission rq) u],
                     next_id := next_id (db w) + 1\<rparr>"
    using dispatch_upload_accepted [OF assms(1-13)] assms(14) by auto
  then have "\<not> slug_unique (db w1)" and "\<not> fk_violation (db w1) (new_content (read_submission rq) u)"
    using assms(12,13) fk_violation_categories [of "db w1" "db w"] by simp_all
  from dispatch_upload_accepted [OF assms(1-11) this] assms(15) first
  show ?thesis by auto
qed



text \<open>A sequential run of uploads, seen through the catalogue, publishes the items of
  some of them, each at most once, in the order they ran.\<close>

lemma serial_db_catalogue:
  assumes "distinct ps"
  shows "\<exists>steps. distinct (map fst steps) \<and> set (map fst steps) \<subseteq> set ps \<and>
    catalogue (serial_db a js w0 ps) =
      fold (\<lambda>(i, u) c. publish c (read_submission (snd (js ! i))) u) steps (catalogue (db w0))"
  using assms
proof (induction ps rule: rev_induct)
  case Nil
  show ?case by (rule exI [of _ "[]"]) (simp add: serial_db_def)
next
  case (snoc x ps)
  then obtain steps where d: "distinct (map fst steps)" and s: "set (map fst steps) \<subseteq> set ps"
    and c: "catalogue (serial_db a js w0 ps) =
              fold (\<lambda>(i, u) c. publish c (read_submission (snd (js ! i))) u) steps (catalogue (db w0))"
    by auto
  from snoc.prems have x: "x \<notin> set ps" by simp
  let ?W = "w0\<lparr>db := serial_db a js w0 ps\<rparr>"
  have step: "serial_db a js w0 (ps @ [x]) = db (snd (upload_post a (fst (js ! x)) (snd (js ! x)) ?W))"
    by (rule serial_db_snoc)
  from upload_post_db [of a "fst (js ! x)" "snd (js ! x)" ?W] show ?case
  proof
    assume "db (snd (upload_post a (fst (js ! x)) (snd (js ! x)) ?W)) = db ?W"
    with step d s c show ?case by (intro exI [of _ steps]) auto
  next
    assume "\<exists>u out. db_insert (db ?W) ''contents'' (new_content (read_submission (snd (js ! x))) u) =
                     Inr (out, db (snd (upload_post a (fst (js ! x)) (snd (js ! x)) ?W)))"
    then obtain u out where "db_insert (serial_db a js w0 ps) ''contents'' (new_content (read_submission (snd (js ! x))) u) =
                     Inr (out, serial_db a js w0 (ps @ [x]))"
      using step by auto
    then have "catalogue (serial_db a js w0 (ps @ [x])) =
               publish (catalogue (serial_db a js w0 ps)) (read_submission (snd (js ! x))) u"
      by (rule catalogue_insert)
    with d s c x show ?case by (intro exI [of _ "steps @ [(x, u)]"]) auto
  qed
qed

text \<open>
  C39. Concurrent uploads refine the abstract catalogue: in every run of concurrent
  uploads, however the runtime interleaves them and whatever the environment does, the
  visible catalogue is the first one with the items of some of the finished requests
  published, each request at most once and with the fields of its own form.
\<close>

theorem concurrent_uploads_refine_catalogue:
  assumes "(conc_step a js)\<^sup>*\<^sup>* (conc_start js w0) (pcs, w)"
  shows "\<exists>steps. distinct (map fst steps) \<and>
    list_all (\<lambda>i. i < length js \<and> is_returned (pcs ! i)) (map fst steps) \<and>
    catalogue (db w) = fold (\<lambda>(i, u) c. publish c (read_submission (snd (js ! i))) u) steps (catalogue (db w0))"
proof -
  from serial_inv_reach [OF assms] obtain ps where d: "distinct ps"
    and s: "set ps = {k. k < length js \<and> is_returned (pcs ! k)}" and dbw: "db w = serial_db a js w0 ps"
    by (auto simp: serial_inv_def)
  from serial_db_catalogue [OF d, of a js w0] obtain steps where "distinct (map fst steps)"
    and "set (map fst steps) \<subseteq> set ps"
    and "catalogue (serial_db a js w0 ps) =
           fold (\<lambda>(i, u) c. publish c (read_submission (snd (js ! i))) u) steps (catalogue (db w0))"
    by blast
  with s dbw show ?thesis by (intro exI [of _ steps]) (auto simp: list_all_iff)
qed

lemma dispatch_hosted_same:
  assumes "\<not> (req_path rq = ''/upload'' \<and> req_method rq = POST)" and "dispatch a e rq w = (resp, w')"
  shows "hosted w' = hosted w"
  using dispatch_view [OF assms(2)] assms(1)
  by (auto simp: upload_content_def dest!: index_frame single_content_frame upload_form_frame)

text \<open>The submission branch with a file: the image stays at the host without a record
  exactly when the host stored it and the insert then failed.\<close>

lemma upload_post_orphan:
  assumes fl: "files_get rq ''file'' = Some f" "filename f \<noteq> []"
  shows "(hosted (snd (upload_post a e rq w)) \<noteq> hosted w \<and>
          contents (db (snd (upload_post a e rq w))) = contents (db w)) \<longleftrightarrow>
    (\<exists>r u. host_reply e (imgbb_key a) (file_bytes f) = Inr r \<and> hosted_url r = Some u \<and>
       (db_fault e \<noteq> None \<or> unique_violation (db w) (new_content (read_submission rq) u) \<or>
        fk_violation (db w) (new_content (read_submission rq) u)))"
proof -
  have post: "upload_post a e rq w = upload_except rq (upload_try a e rq (read_submission rq) f w)"
    using fl by (simp add: upload_post_def Let_def)
  show ?thesis
  proof (cases "host_reply e (imgbb_key a) (file_bytes f)")
    case (Inl x)
    then have "hosted (snd (upload_post a e rq w)) = hosted w"
      using post by (simp add: upload_try_def imgbb_post_Inl)
    with Inl show ?thesis by simp
  next
    case (Inr r)
    let ?w1 = "(log_call (ImgbbPost (imgbb_key a) (file_bytes f)) w)
                 \<lparr>hosted := hosted w @ (case hosted_url r of Some u \<Rightarrow> [(u, file_bytes f)] | None \<Rightarrow> [])\<rparr>"
    obtain res w2 where aft: "upload_after_host e rq (read_submission rq) r ?w1 = (res, w2)" by fastforce
    have hw: "hosted (snd (upload_post a e rq w)) = hosted w2"
      and dw: "db (snd (upload_post a e rq w)) = db w2"
      using post Inr aft by (simp_all add: upload_try_def imgbb_post_Inr)
    note h = upload_after_host_db [OF aft]
    show ?thesis
    proof (cases "hosted_url r")
      case None
      with h hw Inr show ?thesis by simp
    next
      case (Some u)
      have grown: "hosted w2 \<noteq> hosted w" using h Some by simp
      with upload_after_host_contents [OF aft Some] Some Inr grown hw dw show ?thesis by auto
    qed
  qed
qed

text \<open>
  C40. When an image is left at the host without a record (the accepted inconsistency
  of the spec): a request stores an image at the host and leaves the contents table
  unchanged exactly when it is an upload with a file, the host stored the image, and the
  insert then failed, the datastore being unreachable or the row violating the unique
  slug or the category foreign key. No other request and no other outcome orphans an
  image.
\<close>

theorem orphan_image_iff:
  assumes "dispatch a e rq w = (resp, w')"
  shows "(hosted w' \<noteq> hosted w \<and> contents (db w') = contents (db w)) \<longleftrightarrow>
    (req_path rq = ''/upload'' \<and> req_method rq = POST \<and> file_truthy (files_get rq ''file'') \<and>
     (\<exists>r u. host_reply e (imgbb_key a) (file_bytes (the (files_get rq ''file''))) = Inr r \<and>
            hosted_url r = Some u \<and>
            (db_fault e \<noteq> None \<or> unique_violation (db w) (new_content (read_submission rq) u) \<or>
             fk_violation (db w) (new_content (read_submission rq) u))))"
proof (cases "req_path rq = ''/upload'' \<and> req_method rq = POST")
  case True
  then have disp: "dispatch a e rq w = upload_post a e rq w"
    by (simp add: dispatch_upload route_def upload_content_def)
  show ?thesis
  proof (cases "file_truthy (files_get rq ''file'')")
    case ft: True
    then obtain f where fl: "files_get rq ''file'' = Some f" "filename f \<noteq> []"
      by (cases "files_get rq ''file''") auto
    from upload_post_orphan [OF fl, of a e w] assms disp True fl show ?thesis by simp
  next
    case False
    then have "w' = flash MsgChooseFile FlashError w"
      using assms disp by (simp add: upload_post_def Let_def)
    with False show ?thesis by simp
  qed
next
  case False
  with dispatch_hosted_same [OF False assms] show ?thesis by auto
qed

text \<open>
  C20. Start-up and request handling agree on the image host's key: for the application
  the module builds at import, every post a request makes to the image host carries the
  \<open>IMGBB_API_KEY\<close> that \<open>os.getenv\<close> read after \<open>load_dotenv()\<close> (the process
  environment, else the \<open>.env\<close> file), and \<open>None\<close>, a post without the key, when
  neither sets it; the import does not check that key.
\<close>

theorem started_app_host_key:
  assumes "module_init env dot = Inr a" and "dispatch a e rq w = (resp, w')"
  shows "\<exists>new. calls w' = calls w @ new \<and>
    (\<forall>k b. ImgbbPost k b \<in> set new \<longrightarrow> k = map_of (load_dotenv env dot) ''IMGBB_API_KEY'')"
proof -
  from assms(1) have "imgbb_key a = map_of (load_dotenv env dot) ''IMGBB_API_KEY''"
    by (auto simp: module_init_def app_init_def read_config_def Let_def split: sum.splits)
  with dispatch_host_key [OF assms(2)] show ?thesis by simp
qed

section \<open>Witnesses\<close>

theorem upload_refines_publish_witness:
  "catalogue (db ex_world_published) = catalogue (db ex_world) \<or>
   (\<exists>u. u \<in> fst ` set (hosted ex_world_published) \<and> Redirect ''/'' = Redirect ''/'' \<and>
        catalogue (db ex_world_published) = publish (catalogue (db ex_world)) (read_submission ex_post) u)"
  using ex_publish_run by (rule upload_refines_publish)

theorem identical_uploads_two_records_witness:
  "length (contents (db (snd (dispatch ex_app (ex_env ex_ok_reply) ex_post
     (snd (dispatch ex_app (ex_env ex_ok_reply) ex_post (ex_world\<lparr>db := ex_db\<lparr>slug_unique := False\<rparr>\<rparr>))))))) = 2"
proof -
  let ?w = "ex_world\<lparr>db := ex_db\<lparr>slug_unique := False\<rparr>\<rparr>"
  have h: "req_path ex_post = ''/upload''" "req_method ex_post = POST"
    "files_get ex_post ''file'' = Some ex_file" "filename ex_file \<noteq> []"
    "host_reply (ex_env ex_ok_reply) (imgbb_key ex_app) (file_bytes ex_file) = Inr ex_ok_reply"
    "status_code ex_ok_reply = 200" "reply_body ex_ok_reply = Some ex_ok_body"
    "py_getitem ex_ok_body ''success'' = Inr (JBool True)" "py_truthy (JBool True)"
    "reply_url ex_ok_body = Inr ex_url" "db_fault (ex_env ex_ok_reply) = None"
    "\<not> slug_unique (db ?w)" "\<not> fk_violation (db ?w) (new_content (read_submission ex_post) ex_url)"
    by (simp_all add: ex_defs request_defs reply_url_def fk_violation_def new_content_def col_values_def)
  obtain resp1 w1 where r1: "dispatch ex_app (ex_env ex_ok_reply) ex_post ?w = (resp1, w1)" by fastforce
  obtain resp2 w2 where r2: "dispatch ex_app (ex_env ex_ok_reply) ex_post w1 = (resp2, w2)" by fastforce
  from identical_uploads_two_records [OF h r1 r2] r1 r2 show ?thesis
    by (simp add: ex_world_def ex_db_def)
qed

theorem concurrent_uploads_refine_catalogue_witness:
  "\<exists>steps. distinct (map fst steps) \<and>
    list_all (\<lambda>i. i < length ex_uploads \<and> is_returned (fst ex_interleaved ! i)) (map fst steps) \<and>
    catalogue (db (snd ex_interleaved)) =
      fold (\<lambda>(i, u) c. publish c (read_submission (snd (ex_uploads ! i))) u) steps (catalogue (db ex_world))"
  using ex_interleaved_run by (rule concurrent_uploads_refine_catalogue)

theorem orphan_image_iff_witness:
  "hosted (snd (dispatch ex_app ex_env_db_down ex_post ex_world)) \<noteq> hosted ex_world \<and>
   contents (db (snd (dispatch ex_app ex_env_db_down ex_post ex_world))) = contents (db ex_world)"
proof -
  have d: "dispatch ex_app ex_env_db_down ex_post ex_world =
           (fst (dispatch ex_app ex_env_db_down ex_post ex_world), snd (dispatch ex_app ex_env_db_down ex_post ex_world))"
    by simp
  have h: "req_path ex_post = ''/upload'' \<and> req_method ex_post = POST \<and> file_truthy (files_get ex_post ''file'') \<and>
     (\<exists>r u. host_reply ex_env_db_down (imgbb_key ex_app) (file_bytes (the (files_get ex_post ''file''))) = Inr r \<and>
            hosted_url r = Some u \<and>
            (db_fault ex_env_db_down \<noteq> None \<or> unique_violation (db ex_world) (new_content (read_submission ex_post) u) \<or>
             fk_violation (db ex_world) (new_content (read_submission ex_post) u)))"
    by (simp add: ex_defs request_defs hosted_url_def)
  from orphan_image_iff [OF d] h show ?thesis by blast
qed


text \<open>Started from an environment that sets the datastore but not \<open>IMGBB_API_KEY\<close>,
  the module imports, and an upload posts the image without a key.\<close>

theorem started_app_host_key_witness:
  "module_init [(''SUPABASE_URL'', ''https://x.supabase.co''), (''SUPABASE_KEY'', ''anon'')] [] =
     Inr \<lparr>secret_key = ''sahityik_secret_key_2026'', imgbb_key = None\<rparr> \<and>
   ImgbbPost None ''PNGDATA'' \<in> set (calls (snd (dispatch \<lparr>secret_key = ''sahityik_secret_key_2026'', imgbb_key = None\<rparr>
                                         (ex_env ex_bad_key_reply) ex_post ex_world))) \<and>
   (\<exists>new. calls (snd (dispatch \<lparr>secret_key = ''sahityik_secret_key_2026'', imgbb_key = None\<rparr>
                         (ex_env ex_bad_key_reply) ex_post ex_world)) = calls ex_world @ new \<and>
     (\<forall>k b. ImgbbPost k b \<in> set new \<longrightarrow> k = None))"
proof -
  let ?env = "[(''SUPABASE_URL'', ''https://x.supabase.co''), (''SUPABASE_KEY'', ''anon'')]"
  let ?a = "\<lparr>secret_key = ''sahityik_secret_key_2026'', imgbb_key = None\<rparr>"
  let ?r = "dispatch ?a (ex_env ex_bad_key_reply) ex_post ex_world"
  have init: "module_init ?env [] = Inr ?a"
    by (simp add: module_init_def app_init_def read_config_def load_dotenv_def create_client_def
                  valid_supabase_url_def List.map_filter_def)
  have key: "map_of (load_dotenv ?env []) ''IMGBB_API_KEY'' = None"
    by (simp add: load_dotenv_def List.map_filter_def)
  have post: "ImgbbPost None ''PNGDATA'' \<in> set (calls (snd ?r))"
    by (simp add: ex_defs ex_env_def ex_post_def ex_file_def dispatch_upload route_def upload_content_def
                  upload_post_def upload_try_def upload_except_def request_defs imgbb_post_Inr
                  upload_after_host_def resp_json_def upload_accepted_def Let_def)
  have "\<exists>new. calls (snd ?r) = calls ex_world @ new \<and>
          (\<forall>k b. ImgbbPost k b \<in> set new \<longrightarrow> k = map_of (load_dotenv ?env []) ''IMGBB_API_KEY'')"
    using started_app_host_key [OF init, of "ex_env ex_bad_key_reply" ex_post ex_world "fst ?r" "snd ?r"] by simp
  with init post key show ?thesis by simp
qed

end
